(* ===== verification/Prelude.thy ===== *)
theory Prelude
  imports Main "HOL-Library.Word"
begin

text \<open>
  What every theory of the development shares: the result type of a C++ computation whose
  only failure is undefined behaviour, C integers, bytes and byte order, NUL terminated
  strings inside a buffer, and the few functions of the C library the sources call on them
  (\<^verbatim>\<open>strlen\<close>, \<^verbatim>\<open>strcasecmp\<close>, \<^verbatim>\<open>atoi\<close>, the \<^verbatim>\<open>%d\<close> conversion of \<^verbatim>\<open>snprintf\<close>).
\<close>

named_theorems res_simps \<open>rewriting computations that may hit undefined behaviour\<close>
named_theorems cint_simps \<open>C integers in range\<close>

section \<open>Computations with undefined behaviour\<close>

text \<open>
  A C++ function that may do something the language leaves undefined returns \<open>Inl\<close> with
  the reason; \<open>Inr\<close> carries the value and the state otherwise. The error returns and
  error fields of the program itself are ordinary values, never \<open>Inl\<close>.
\<close>

datatype ub =
    OutOfBounds
  | UseAfterFree
  | NullDereference
  | SignedOverflow
  | DivisionByZero
  | InvalidIterator
  | EnumOutOfRange

type_synonym 'a res = "ub + 'a"

definition bindR :: "'a res \<Rightarrow> ('a \<Rightarrow> 'b res) \<Rightarrow> 'b res" where
  "bindR m f = (case m of Inl u \<Rightarrow> Inl u | Inr x \<Rightarrow> f x)"

definition guardR :: "ub \<Rightarrow> bool \<Rightarrow> unit res" where
  "guardR u b = (if b then Inr () else Inl u)"

lemma bindR_Inl [simp, res_simps]: "bindR (Inl u) f = Inl u"
  by (simp add: bindR_def)

lemma bindR_Inr [simp, res_simps]: "bindR (Inr x) f = f x"
  by (simp add: bindR_def)

lemma bindR_assoc [res_simps]: "bindR (bindR m f) g = bindR m (\<lambda>x. bindR (f x) g)"
  by (cases m) simp_all

lemma bindR_eq_Inr: "bindR m f = Inr y \<longleftrightarrow> (\<exists>x. m = Inr x \<and> f x = Inr y)"
  by (cases m) simp_all

lemma bindR_eq_Inl: "bindR m f = Inl u \<longleftrightarrow> m = Inl u \<or> (\<exists>x. m = Inr x \<and> f x = Inl u)"
  by (cases m) simp_all

lemma bindR_cong [fundef_cong]:
  "m = m' \<Longrightarrow> (\<And>x. m' = Inr x \<Longrightarrow> f x = f' x) \<Longrightarrow> bindR m f = bindR m' f'"
  by (cases m') simp_all

lemma guardR_eq_Inr [simp]: "guardR u b = Inr x \<longleftrightarrow> b"
  by (simp add: guardR_def)

lemma guardR_eq_Inl [simp]: "guardR u b = Inl v \<longleftrightarrow> \<not> b \<and> v = u"
  by (auto simp: guardR_def)

lemma guardR_True [simp, res_simps]: "guardR u True = Inr ()"
  by (simp add: guardR_def)

section \<open>C integers\<close>

text \<open>
  The target is Linux on x86-64: \<open>int\<close> has 32 bits, \<open>long\<close> and \<open>size_t\<close> have 64. A C
  \<open>int\<close> is an HOL \<open>int\<close>; an operation of the source that can leave the 32 bit range is
  passed through \<open>c_int\<close>, which is undefined behaviour out of range. Unsigned types are
  words, which wrap.
\<close>

type_synonym u16 = "16 word"
type_synonym u32 = "32 word"
type_synonym u64 = "64 word"

definition INT_MIN :: int where "INT_MIN = - 2147483648"
definition INT_MAX :: int where "INT_MAX = 2147483647"

definition int_ok :: "int \<Rightarrow> bool" where
  "int_ok i \<longleftrightarrow> INT_MIN \<le> i \<and> i \<le> INT_MAX"

definition c_int :: "int \<Rightarrow> int res" where
  "c_int i = (if int_ok i then Inr i else Inl SignedOverflow)"

text \<open>Conversion of a wider value to \<open>int\<close> keeps the low 32 bits, read as two's complement.\<close>

definition to_int :: "int \<Rightarrow> int" where
  "to_int i = (i + 2147483648) mod 4294967296 - 2147483648"

lemma to_int_ok: "int_ok (to_int i)"
  by (simp add: to_int_def int_ok_def INT_MIN_def INT_MAX_def)

lemma to_int_id [cint_simps]: "int_ok i \<Longrightarrow> to_int i = i"
  by (simp add: to_int_def int_ok_def INT_MIN_def INT_MAX_def)

lemma c_int_ok [cint_simps]: "int_ok i \<Longrightarrow> c_int i = Inr i"
  by (simp add: c_int_def)

lemma c_int_eq_Inr: "c_int i = Inr j \<longleftrightarrow> int_ok i \<and> j = i"
  by (auto simp: c_int_def)

lemma int_okI: "- 2147483648 \<le> i \<Longrightarrow> i \<le> 2147483647 \<Longrightarrow> int_ok i"
  by (simp add: int_ok_def INT_MIN_def INT_MAX_def)

text \<open>C's \<^verbatim>\<open>%\<close> truncates: the remainder has the sign of the dividend.\<close>

definition c_rem :: "int \<Rightarrow> int \<Rightarrow> int res" where
  "c_rem a b = (if b = 0 then Inl DivisionByZero else Inr (sgn a * (\<bar>a\<bar> mod \<bar>b\<bar>)))"

lemma c_rem_nonneg [cint_simps]: "0 \<le> a \<Longrightarrow> 0 < b \<Longrightarrow> c_rem a b = Inr (a mod b)"
  by (cases "a = 0") (simp_all add: c_rem_def sgn_if)

section \<open>Bytes and network byte order\<close>

text \<open>Bytes are HOL characters (256 of them), so that string literals are byte strings.\<close>

type_synonym byte = char
type_synonym bytes = "char list"

abbreviation NUL :: byte where "NUL \<equiv> CHR 0x00"

text \<open>\<^verbatim>\<open>*(unsigned short*)&packet[k] = htons(w)\<close> stores the high byte first.\<close>

definition htons_bytes :: "u16 \<Rightarrow> bytes" where
  "htons_bytes w = [char_of (unat w div 256), char_of (unat w mod 256)]"

text \<open>\<^verbatim>\<open>ntohs(*(unsigned short*)&packet[k])\<close> of the two bytes found there.\<close>

definition ntohs_bytes :: "byte \<Rightarrow> byte \<Rightarrow> u16" where
  "ntohs_bytes hi lo = of_nat (256 * of_char hi + of_char lo)"

lemma length_htons_bytes [simp]: "length (htons_bytes w) = 2"
  by (simp add: htons_bytes_def)

lemma of_char_less_256: "(of_char c :: nat) < 256"
  using of_char_mod_256 [of c, where ?'a = nat] mod_less_divisor [of 256 "of_char c :: nat"]
  by simp

lemma unat_ntohs_bytes: "unat (ntohs_bytes hi lo) = 256 * of_char hi + of_char lo"
proof -
  have "256 * of_char hi + of_char lo < (65536 :: nat)"
    using of_char_less_256 [of hi] of_char_less_256 [of lo] by linarith
  then show ?thesis
    unfolding ntohs_bytes_def unsigned_of_nat by (simp add: take_bit_nat_eq_self)
qed

lemma ntohs_htons: "ntohs_bytes (htons_bytes w ! 0) (htons_bytes w ! 1) = w"
proof -
  have "unat w < 65536" using unsigned_less [of w, where ?'a = nat] by simp
  then have "unat w div 256 < 256" by simp
  then have "unat (ntohs_bytes (htons_bytes w ! 0) (htons_bytes w ! 1)) = unat w"
    by (simp add: unat_ntohs_bytes htons_bytes_def of_char_of)
  then show ?thesis by (simp add: word_unat_eq_iff)
qed

lemma htons_ntohs: "htons_bytes (ntohs_bytes hi lo) = [hi, lo]"
  using of_char_less_256 [of lo] by (simp add: htons_bytes_def unat_ntohs_bytes)

lemma htons_bytes_inject: "htons_bytes v = htons_bytes w \<longleftrightarrow> v = w"
  using ntohs_htons by metis

text \<open>Overwriting part of an array; the caller has checked the bounds.\<close>

definition store_at :: "nat \<Rightarrow> 'a list \<Rightarrow> 'a list \<Rightarrow> 'a list" where
  "store_at k new xs = take k xs @ new @ drop (k + length new) xs"

lemma length_store_at [simp]: "k + length new \<le> length xs \<Longrightarrow> length (store_at k new xs) = length xs"
  by (simp add: store_at_def)

lemma take_store_at [simp]: "j \<le> k \<Longrightarrow> k \<le> length xs \<Longrightarrow> take j (store_at k new xs) = take j xs"
  by (simp add: store_at_def min_def)

lemma take_store_at_end:
  "k \<le> length xs \<Longrightarrow> take (k + length new) (store_at k new xs) = take k xs @ new"
  by (simp add: store_at_def)

section \<open>Strings in buffers\<close>

text \<open>
  \<open>strlen_at buf k\<close> is \<^verbatim>\<open>strlen(&buf[k])\<close> where \<open>buf\<close> is the whole allocation: it reads
  until the first NUL and leaves the allocation when there is none.
\<close>

fun strlen_from :: "bytes \<Rightarrow> nat res" where
  "strlen_from [] = Inl OutOfBounds"
| "strlen_from (c # cs) =
     (if c = NUL then Inr 0 else bindR (strlen_from cs) (\<lambda>n. Inr (Suc n)))"

definition strlen_at :: "bytes \<Rightarrow> nat \<Rightarrow> nat res" where
  "strlen_at buf k = strlen_from (drop k buf)"

definition cstr_at :: "bytes \<Rightarrow> nat \<Rightarrow> bytes" where
  "cstr_at buf k = takeWhile (\<lambda>c. c \<noteq> NUL) (drop k buf)"

lemma strlen_from_eq:
  "NUL \<in> set cs \<Longrightarrow> strlen_from cs = Inr (length (takeWhile (\<lambda>c. c \<noteq> NUL) cs))"
  by (induction cs) auto

lemma strlen_from_Inl: "NUL \<notin> set cs \<Longrightarrow> strlen_from cs = Inl OutOfBounds"
  by (induction cs) auto

lemma strlen_at_eq: "NUL \<in> set (drop k buf) \<Longrightarrow> strlen_at buf k = Inr (length (cstr_at buf k))"
  by (simp add: strlen_at_def cstr_at_def strlen_from_eq)

lemma strlen_at_Inr_iff: "(\<exists>n. strlen_at buf k = Inr n) \<longleftrightarrow> NUL \<in> set (drop k buf)"
  by (cases "NUL \<in> set (drop k buf)") (auto simp: strlen_at_def strlen_from_eq strlen_from_Inl)

lemma strlen_at_Inr: "strlen_at buf k = Inr n \<Longrightarrow> n = length (cstr_at buf k)"
  using strlen_at_Inr_iff [of buf k] strlen_at_eq [of k buf] by auto

lemma length_takeWhile_until:
  "m < length xs \<Longrightarrow> \<not> P (xs ! m) \<Longrightarrow> length (takeWhile P xs) \<le> m"
proof (induction xs arbitrary: m)
  case (Cons x xs)
  then show ?case by (cases m) auto
qed simp

text \<open>A string that ends at a known NUL at position \<open>j\<close> ends there or before.\<close>

lemma strlen_at_bound:
  assumes "buf ! j = NUL" and "k \<le> j" and "j < length buf"
  shows "strlen_at buf k = Inr (length (cstr_at buf k))" and "k + length (cstr_at buf k) \<le> j"
proof -
  have nth: "drop k buf ! (j - k) = NUL" using assms by simp
  have len: "j - k < length (drop k buf)" using assms by simp
  from nth len have "NUL \<in> set (drop k buf)" by (metis nth_mem)
  then show "strlen_at buf k = Inr (length (cstr_at buf k))" by (rule strlen_at_eq)
  have "length (cstr_at buf k) \<le> j - k"
    unfolding cstr_at_def using len nth by (intro length_takeWhile_until) simp_all
  then show "k + length (cstr_at buf k) \<le> j" using assms by simp
qed

text \<open>The C locale's \<^verbatim>\<open>tolower\<close> and \<^verbatim>\<open>strcasecmp\<close>, which \<^verbatim>\<open>__stricmp\<close> is on Linux.\<close>

definition tolower :: "byte \<Rightarrow> byte" where
  "tolower c = (if 65 \<le> (of_char c :: nat) \<and> (of_char c :: nat) \<le> 90
                then char_of ((of_char c :: nat) + 32) else c)"

fun stricmp :: "bytes \<Rightarrow> bytes \<Rightarrow> int" where
  "stricmp [] [] = 0"
| "stricmp [] (y # ys) = - of_char (tolower y)"
| "stricmp (x # xs) [] = of_char (tolower x)"
| "stricmp (x # xs) (y # ys) =
     (if tolower x = tolower y then stricmp xs ys
      else of_char (tolower x) - of_char (tolower y))"

lemma tolower_eq_NUL [simp]: "tolower c = NUL \<longleftrightarrow> c = NUL"
proof
  assume a: "tolower c = NUL"
  show "c = NUL"
  proof (cases "65 \<le> (of_char c :: nat) \<and> (of_char c :: nat) \<le> 90")
    case True
    with a have "(char_of ((of_char c :: nat) + 32) :: char) = NUL" by (simp add: tolower_def)
    then have "(of_char (char_of ((of_char c :: nat) + 32) :: char) :: nat) = of_char NUL" by simp
    with True show ?thesis by (simp add: of_char_of)
  next
    case False
    with a show ?thesis by (auto simp: tolower_def)
  qed
qed (simp add: tolower_def)

lemma of_char_int_eq: "((of_char c :: int) = of_char d) \<longleftrightarrow> c = d"
  by simp

lemma stricmp_eq_0:
  "NUL \<notin> set xs \<Longrightarrow> NUL \<notin> set ys \<Longrightarrow> stricmp xs ys = 0 \<longleftrightarrow> map tolower xs = map tolower ys"
proof (induction xs ys rule: stricmp.induct)
  case (2 y ys)
  then have "tolower y \<noteq> NUL" by auto
  then have "(of_char (tolower y) :: int) \<noteq> of_char NUL" by (simp only: of_char_int_eq not_False_eq_True)
  then show ?case by simp
next
  case (3 x xs)
  then have "tolower x \<noteq> NUL" by auto
  then have "(of_char (tolower x) :: int) \<noteq> of_char NUL" by (simp only: of_char_int_eq not_False_eq_True)
  then show ?case by simp
qed auto

lemma stricmp_refl [simp]: "stricmp xs xs = 0"
  by (induction xs) auto

text \<open>\<^verbatim>\<open>strcmp\<close>, of which the sources only use whether it is zero.\<close>

fun strcmp :: "bytes \<Rightarrow> bytes \<Rightarrow> int" where
  "strcmp [] [] = 0"
| "strcmp [] (y # ys) = - of_char y"
| "strcmp (x # xs) [] = of_char x"
| "strcmp (x # xs) (y # ys) = (if x = y then strcmp xs ys else of_char x - of_char y)"

lemma of_char_int_eq_0: "((of_char c :: int) = 0) \<longleftrightarrow> c = NUL"
  using of_char_int_eq [of c NUL] by simp

lemma strcmp_eq_0: "NUL \<notin> set xs \<Longrightarrow> NUL \<notin> set ys \<Longrightarrow> strcmp xs ys = 0 \<longleftrightarrow> xs = ys"
  by (induction xs ys rule: strcmp.induct) (auto simp: of_char_int_eq_0)

section \<open>Decimal numbers\<close>

definition isspace :: "byte \<Rightarrow> bool" where
  "isspace c \<longleftrightarrow> c = CHR 0x20 \<or> (9 \<le> (of_char c :: nat) \<and> (of_char c :: nat) \<le> 13)"

definition isdigit :: "byte \<Rightarrow> bool" where
  "isdigit c \<longleftrightarrow> 48 \<le> (of_char c :: nat) \<and> (of_char c :: nat) \<le> 57"

fun digits_value :: "nat \<Rightarrow> bytes \<Rightarrow> nat" where
  "digits_value acc [] = acc"
| "digits_value acc (c # cs) =
     (if isdigit c then digits_value (10 * acc + (of_char c - 48)) cs else acc)"

text \<open>
  \<^verbatim>\<open>atoi(s)\<close> is \<^verbatim>\<open>(int) strtol(s, NULL, 10)\<close> in glibc: leading white space, one optional
  sign, digits; the \<open>long\<close> saturates and the conversion to \<open>int\<close> keeps the low 32 bits.
\<close>

definition strtol :: "bytes \<Rightarrow> int" where
  "strtol s =
     (let t = dropWhile isspace s;
          v = (case t of
                 [] \<Rightarrow> 0
               | c # cs \<Rightarrow>
                   if c = CHR ''-'' then - int (digits_value 0 cs)
                   else if c = CHR ''+'' then int (digits_value 0 cs)
                   else int (digits_value 0 t))
      in max (- 9223372036854775808) (min 9223372036854775807 v))"

definition atoi :: "bytes \<Rightarrow> int" where
  "atoi s = to_int (strtol s)"

fun dec_nat :: "nat \<Rightarrow> bytes" where
  "dec_nat n = (if n < 10 then [char_of (48 + n)] else dec_nat (n div 10) @ [char_of (48 + n mod 10)])"

declare dec_nat.simps [simp del]

definition dec_int :: "int \<Rightarrow> bytes" where
  "dec_int i = (if i < 0 then CHR ''-'' # dec_nat (nat (- i)) else dec_nat (nat i))"

lemma of_char_digit: "(d :: nat) < 10 \<Longrightarrow> (of_char (char_of (48 + d) :: char) :: nat) = 48 + d"
  by (simp add: of_char_of)

lemma isdigit_digit: "(d :: nat) < 10 \<Longrightarrow> isdigit (char_of (48 + d))"
  by (simp add: isdigit_def of_char_digit)

lemma dec_nat_digits: "c \<in> set (dec_nat n) \<Longrightarrow> isdigit c"
proof (induction n rule: dec_nat.induct)
  case (1 n)
  show ?case
  proof (cases "n < 10")
    case True
    with "1.prems" show ?thesis by (simp add: dec_nat.simps [of n] isdigit_digit)
  next
    case False
    with "1.prems" have "c \<in> set (dec_nat (n div 10)) \<or> c = char_of (48 + n mod 10)"
      by (auto simp: dec_nat.simps [of n])
    with False "1.IH" show ?thesis by (auto simp: isdigit_digit)
  qed
qed

lemma dec_nat_not_Nil [simp]: "dec_nat n \<noteq> []"
  by (subst dec_nat.simps) simp

lemma digits_value_append:
  "(\<forall>c \<in> set xs. isdigit c) \<Longrightarrow> digits_value a (xs @ ys) = digits_value (digits_value a xs) ys"
  by (induction xs arbitrary: a) auto

lemma digits_value_dec_nat: "digits_value 0 (dec_nat n) = n"
proof (induction n rule: dec_nat.induct)
  case (1 n)
  show ?case
  proof (cases "n < 10")
    case True
    then show ?thesis by (simp add: dec_nat.simps [of n] isdigit_digit of_char_digit)
  next
    case False
    then have "digits_value 0 (dec_nat n)
        = digits_value (digits_value 0 (dec_nat (n div 10))) [char_of (48 + n mod 10)]"
      using dec_nat_digits by (simp add: dec_nat.simps [of n] digits_value_append)
    also have "\<dots> = n"
      using False "1.IH" by (simp add: isdigit_digit of_char_digit)
    finally show ?thesis .
  qed
qed

lemma isdigit_not_space: "isdigit c \<Longrightarrow> \<not> isspace c \<and> c \<noteq> CHR ''-'' \<and> c \<noteq> CHR ''+'' \<and> c \<noteq> NUL"
  by (auto simp: isdigit_def isspace_def)

lemma dec_int_no_NUL: "NUL \<notin> set (dec_int i)"
  using dec_nat_digits [of NUL] isdigit_not_space [of NUL] by (auto simp: dec_int_def)

lemma strtol_dec_nat: "strtol (dec_nat n) = min 9223372036854775807 (int n)"
proof -
  obtain c cs where ccs: "dec_nat n = c # cs" by (cases "dec_nat n") auto
  then have "isdigit c" using dec_nat_digits [of c n] by simp
  then have nc: "\<not> isspace c" "c \<noteq> CHR ''-''" "c \<noteq> CHR ''+''" by (simp_all add: isdigit_not_space)
  from digits_value_dec_nat [of n] ccs have "digits_value 0 (c # cs) = n" by simp
  with nc show ?thesis by (simp add: strtol_def ccs del: digits_value.simps)
qed

lemma strtol_dec_int:
  assumes "int_ok i" shows "strtol (dec_int i) = i"
proof (cases "i < 0")
  case True
  then have "strtol (dec_int i) = max (- 9223372036854775808) (min 9223372036854775807 (- int (nat (- i))))"
    by (simp add: dec_int_def strtol_def isspace_def digits_value_dec_nat)
  with True assms show ?thesis by (simp add: int_ok_def INT_MIN_def INT_MAX_def)
next
  case False
  with assms show ?thesis by (simp add: dec_int_def strtol_dec_nat int_ok_def INT_MIN_def INT_MAX_def)
qed

text \<open>What \<^verbatim>\<open>%d\<close> prints, \<^verbatim>\<open>atoi\<close> reads back.\<close>

lemma atoi_dec_int [simp]: "int_ok i \<Longrightarrow> atoi (dec_int i) = i"
  by (simp add: atoi_def strtol_dec_int cint_simps)

lemma atoi_ok: "int_ok (atoi s)"
  by (simp add: atoi_def to_int_ok)

section \<open>Lists\<close>

lemma length_takeWhile_neq_less: "x \<in> set l \<Longrightarrow> length (takeWhile (\<lambda>c. c \<noteq> x) l) < length l"
  by (induction l) auto

lemma map_filter_eq_Nil: "List.map_filter f xs = [] \<longleftrightarrow> (\<forall>x \<in> set xs. f x = None)"
  by (induction xs) (auto split: option.splits)

lemma take_drop_append: "take n xs @ take m (drop n xs) = take (n + m) xs"
  by (simp add: take_add)

end
