(* ===== verification/Codec.thy ===== *)
theory Codec
  imports Prelude
begin

text \<open>
  The contract every encoding of the program promises to the component that reads it back:
  the byte order of header fields, the decimal options, the packets and the base64 text are
  all instances. A client of the contract only needs that decoding an encoding gives the
  value back; what follows from it is proved once here.
\<close>

locale codec =
  fixes enc :: "'a \<Rightarrow> bytes" and dec :: "bytes \<Rightarrow> 'a option" and valid :: "'a \<Rightarrow> bool"
  assumes dec_enc: "valid x \<Longrightarrow> dec (enc x) = Some x"
begin

lemma enc_inject: "valid x \<Longrightarrow> valid y \<Longrightarrow> enc x = enc y \<longleftrightarrow> x = y"
  by (metis dec_enc option.inject)

lemma enc_inj_on: "inj_on enc {x. valid x}"
  by (rule inj_onI) (simp add: enc_inject)

lemma dec_the: "valid x \<Longrightarrow> the (dec (enc x)) = x"
  by (simp add: dec_enc)

end

text \<open>An encoding of fixed width can be told apart from whatever follows it.\<close>

locale fixed_codec = codec +
  fixes width :: nat
  assumes length_enc: "valid x \<Longrightarrow> length (enc x) = width"
begin

lemma dec_take: "valid x \<Longrightarrow> dec (take width (enc x @ rest)) = Some x"
  by (simp add: length_enc dec_enc)

lemma drop_enc: "valid x \<Longrightarrow> drop width (enc x @ rest) = rest"
  by (simp add: length_enc)

lemma enc_append_inject:
  "valid x \<Longrightarrow> valid y \<Longrightarrow> enc x @ xs = enc y @ ys \<longleftrightarrow> x = y \<and> xs = ys"
  by (metis append_eq_append_conv enc_inject length_enc)

end

text \<open>Reading two header bytes, where \<open>None\<close> stands for any other number of bytes.\<close>

definition get_u16 :: "bytes \<Rightarrow> u16 option" where
  "get_u16 bs = (if length bs = 2 then Some (ntohs_bytes (bs ! 0) (bs ! 1)) else None)"

interpretation u16_codec: fixed_codec htons_bytes get_u16 "\<lambda>_. True" 2
  by unfold_locales (simp_all add: get_u16_def ntohs_htons [unfolded One_nat_def])

interpretation dec_codec: codec dec_int "\<lambda>s. Some (atoi s)" int_ok
  by unfold_locales simp

lemma get_u16_Cons: "get_u16 [hi, lo] = Some (ntohs_bytes hi lo)"
  by (simp add: get_u16_def)

end
