(* ===== verification/Stdio.thy ===== *)
theory Stdio
  imports Codec
begin

text \<open>
  The part of the C library's buffered files the server uses: \<^verbatim>\<open>fopen\<close> through the wrapper
  \<^verbatim>\<open>fopen_s\<close> of \<^verbatim>\<open>pthread_win.cpp\<close>, \<^verbatim>\<open>fseek\<close>, \<^verbatim>\<open>ftell\<close>, \<^verbatim>\<open>fread\<close>, \<^verbatim>\<open>fwrite\<close> and
  \<^verbatim>\<open>fgets\<close>, over a disk of regular files. A \<open>FILE\<close> is a name and a position; the contents live
  on the disk, so two sessions that open one file share them.
\<close>

type_synonym disk = "bytes \<rightharpoonup> bytes"

record FILE =
  f_name :: bytes
  f_pos :: nat

definition f_content :: "disk \<Rightarrow> FILE \<Rightarrow> bytes" where
  "f_content d f = (case d (f_name f) of None \<Rightarrow> [] | Some c \<Rightarrow> c)"

datatype open_mode = Mode_rb | Mode_wb

text \<open>
  \<open>allowed\<close> is the answer of the operating system (permissions, locks). Opening for
  reading needs the file; opening for writing empties it.
\<close>

definition fopen :: "bool \<Rightarrow> disk \<Rightarrow> bytes \<Rightarrow> open_mode \<Rightarrow> FILE option \<times> disk" where
  "fopen allowed d fname mode =
     (case mode of
        Mode_rb \<Rightarrow> (if allowed \<and> d fname \<noteq> None then Some \<lparr>f_name = fname, f_pos = 0\<rparr> else None, d)
      | Mode_wb \<Rightarrow> (if allowed then (Some \<lparr>f_name = fname, f_pos = 0\<rparr>, d(fname \<mapsto> [])) else (None, d)))"

text \<open>\<^verbatim>\<open>fopen_s\<close>: stores the handle and returns whether it is NULL.\<close>

definition fopen_s :: "bool \<Rightarrow> disk \<Rightarrow> bytes \<Rightarrow> open_mode \<Rightarrow> FILE option \<times> bool \<times> disk" where
  "fopen_s allowed d fname mode =
     (let (out_f, d') = fopen allowed d fname mode in (out_f, out_f = None, d'))"

definition fseek_set :: "FILE \<Rightarrow> int \<Rightarrow> FILE" where
  "fseek_set f off = (if off < 0 then f else f\<lparr>f_pos := nat off\<rparr>)"

definition fseek_end :: "disk \<Rightarrow> FILE \<Rightarrow> FILE" where
  "fseek_end d f = f\<lparr>f_pos := length (f_content d f)\<rparr>"

definition ftell :: "FILE \<Rightarrow> int" where
  "ftell f = int (f_pos f)"

definition fread :: "disk \<Rightarrow> FILE \<Rightarrow> nat \<Rightarrow> bytes \<times> FILE" where
  "fread d f n =
     (let data = take n (drop (f_pos f) (f_content d f))
      in (data, f\<lparr>f_pos := f_pos f + length data\<rparr>))"

text \<open>
  \<open>accepted\<close> is how many bytes the disk takes (all of them, unless it is full). Writing
  beyond the end fills the gap with zero bytes.
\<close>

definition fwrite :: "nat \<Rightarrow> disk \<Rightarrow> FILE \<Rightarrow> bytes \<Rightarrow> disk \<times> FILE" where
  "fwrite accepted d f bs =
     (let data = take accepted bs; old = f_content d f;
          gap = replicate (f_pos f - length old) NUL
      in if data = [] then (d, f)
         else (d(f_name f \<mapsto> take (f_pos f) (old @ gap) @ data @ drop (f_pos f + length data) old),
               f\<lparr>f_pos := f_pos f + length data\<rparr>))"

text \<open>
  \<^verbatim>\<open>fgets(buf, size, f)\<close> on the bytes that remain: at most \<open>size - 1\<close> of them, up to and
  including a newline. \<open>None\<close> is the NULL it returns when nothing was left; the last
  component is the end of file flag the call leaves.
\<close>

fun fgets_take :: "nat \<Rightarrow> bytes \<Rightarrow> bytes \<times> bytes \<times> bool" where
  "fgets_take 0 rest = ([], rest, False)"
| "fgets_take (Suc n) [] = ([], [], True)"
| "fgets_take (Suc n) (c # rest) =
     (if c = CHR 0x0A then ([c], rest, False)
      else let (line, rest', eof) = fgets_take n rest in (c # line, rest', eof))"

definition fgets :: "nat \<Rightarrow> bytes \<Rightarrow> bytes option \<times> bytes \<times> bool" where
  "fgets bufsize rest =
     (let (line, rest', eof) = fgets_take (bufsize - 1) rest
      in (if line = [] \<and> eof then None else Some line, rest', eof))"

lemma fgets_take_append: "fgets_take n rest = (line, rest', eof) \<Longrightarrow> rest = line @ rest'"
  by (induction n rest arbitrary: line rest' eof rule: fgets_take.induct)
     (auto split: if_splits prod.splits)

lemma fgets_take_length: "fgets_take n rest = (line, rest', eof) \<Longrightarrow> length line \<le> n"
  by (induction n rest arbitrary: line rest' eof rule: fgets_take.induct)
     (fastforce split: if_splits prod.splits)+

lemma fgets_progress:
  assumes "fgets bufsize rest = (r, rest', eof)" and "1 < bufsize" and "\<not> eof"
  shows "length rest' < length rest"
proof -
  obtain n where n: "bufsize - 1 = Suc n" using assms(2) by (cases "bufsize - 1") auto
  from assms(1) obtain line where l: "fgets_take (Suc n) rest = (line, rest', eof)"
    by (auto simp: fgets_def n [unfolded One_nat_def] split: prod.splits)
  then have "line \<noteq> []" using assms(3) by (cases rest) (auto split: if_splits prod.splits)
  moreover have "rest = line @ rest'" using l by (rule fgets_take_append)
  ultimately show ?thesis by simp
qed

section \<open>The contract of a file that is read by blocks\<close>

definition file_block :: "nat \<Rightarrow> bytes \<Rightarrow> nat \<Rightarrow> bytes" where
  "file_block b c k = take b (drop (k * b) c)"

lemma concat_file_blocks: "concat (map (file_block b c) [0..<n]) = take (n * b) c"
  by (induction n) (simp_all add: file_block_def take_drop_append add.commute)

lemma length_file_block: "length (file_block b c k) = min b (length c - k * b)"
  by (simp add: file_block_def)

lemma file_block_full: "Suc k * b \<le> length c \<Longrightarrow> length (file_block b c k) = b"
  by (simp add: length_file_block)

text \<open>
  What the sender of a download relies on: it may place the position, and a read returns the
  bytes found there and moves past them.
\<close>

locale block_reader =
  fixes content :: "'d \<Rightarrow> 'f \<Rightarrow> bytes"
    and pos :: "'f \<Rightarrow> nat"
    and seek :: "'f \<Rightarrow> int \<Rightarrow> 'f"
    and read :: "'d \<Rightarrow> 'f \<Rightarrow> nat \<Rightarrow> bytes \<times> 'f"
  assumes pos_seek: "0 \<le> off \<Longrightarrow> pos (seek f off) = nat off"
    and content_seek: "content d (seek f off) = content d f"
    and read_data: "fst (read d f n) = take n (drop (pos f) (content d f))"
    and read_pos: "pos (snd (read d f n)) = pos f + length (fst (read d f n))"
    and read_content: "content d (snd (read d f n)) = content d f"
begin

lemma read_block: "pos f = k * b \<Longrightarrow> fst (read d f b) = file_block b (content d f) k"
  by (simp add: read_data file_block_def)

lemma read_block_pos:
  "pos f = k * b \<Longrightarrow> length (fst (read d f b)) = b \<Longrightarrow> pos (snd (read d f b)) = Suc k * b"
  by (simp add: read_pos)

lemma seek_read_block:
  "fst (read d (seek f (int (k * b))) b) = file_block b (content d f) k"
  using read_block [of "seek f (int (k * b))" k b d] by (simp add: pos_seek content_seek del: of_nat_mult)

end

text \<open>What the receiver of an upload relies on: writes at the end of the file append.\<close>

locale appender = block_reader +
  fixes put :: "'d \<Rightarrow> 'f \<Rightarrow> bytes \<Rightarrow> 'd \<times> 'f"
  assumes put_end: "pos f = length (content d f) \<Longrightarrow>
      content (fst (put d f bs)) (snd (put d f bs)) = content d f @ bs"
    and put_pos: "pos (snd (put d f bs)) = pos f + length bs"
begin

lemma put_keeps_end:
  "pos f = length (content d f) \<Longrightarrow>
   pos (snd (put d f bs)) = length (content (fst (put d f bs)) (snd (put d f bs)))"
  by (simp add: put_end put_pos)

fun put_all :: "'d \<Rightarrow> 'f \<Rightarrow> bytes list \<Rightarrow> 'd \<times> 'f" where
  "put_all d f [] = (d, f)"
| "put_all d f (bs # rest) = put_all (fst (put d f bs)) (snd (put d f bs)) rest"

lemma put_all_concat:
  "pos f = length (content d f) \<Longrightarrow>
   content (fst (put_all d f bss)) (snd (put_all d f bss)) = content d f @ concat bss"
  by (induction d f bss rule: put_all.induct) (simp_all add: put_end put_keeps_end)

end

lemma f_content_upd [simp]: "f_content d (f\<lparr>f_pos := p\<rparr>) = f_content d f"
  by (simp add: f_content_def)

lemma fwrite_all_eq:
  assumes "length bs \<le> accepted" and "f_pos f = length (f_content d f)"
  shows "f_content (fst (fwrite accepted d f bs)) (snd (fwrite accepted d f bs)) = f_content d f @ bs"
  using assms by (simp add: fwrite_def Let_def) (simp add: f_content_def)

interpretation stdio: appender f_content f_pos fseek_set fread
    "\<lambda>d f bs. fwrite (length bs) d f bs"
proof unfold_locales
  show "f_pos f = length (f_content d f) \<Longrightarrow>
      f_content (fst (fwrite (length bs) d f bs)) (snd (fwrite (length bs) d f bs)) = f_content d f @ bs"
    for f d bs by (rule fwrite_all_eq) simp_all
qed (simp_all add: fseek_set_def fread_def fwrite_def Let_def)

lemma fread_name [simp]: "f_name (snd (fread d f n)) = f_name f"
  by (simp add: fread_def Let_def)

lemma fseek_name [simp]: "f_name (fseek_set f off) = f_name f" "f_name (fseek_end d f) = f_name f"
  by (simp_all add: fseek_set_def fseek_end_def)

lemma fwrite_name [simp]: "f_name (snd (fwrite n d f bs)) = f_name f"
  by (simp add: fwrite_def Let_def)

text \<open>A write touches no other file.\<close>

lemma fwrite_frame: "n \<noteq> f_name f \<Longrightarrow> fst (fwrite k d f bs) n = d n"
  by (simp add: fwrite_def Let_def)

lemma fopen_rb_disk [simp]: "snd (fopen ok d n Mode_rb) = d"
  by (simp add: fopen_def)

lemma fopen_frame: "m \<noteq> n \<Longrightarrow> snd (fopen ok d n mode) m = d m"
  by (cases mode) (simp_all add: fopen_def)

lemma fopen_Some: "fst (fopen ok d n mode) = Some f \<Longrightarrow> f_name f = n \<and> f_pos f = 0"
  by (cases mode) (auto simp: fopen_def split: if_splits)

end
