(* ===== verification/Config.thy ===== *)
theory Config
  imports Stdio
begin

text \<open>
  \<^verbatim>\<open>config.h\<close> and \<^verbatim>\<open>config.cpp\<close>: the settings of the server and the loader that reads
  them from \<^verbatim>\<open>init.cfg\<close>. A NUL terminated string is the list of its characters before
  the NUL; \<open>char_at\<close> reads the NUL behind them.
\<close>

section \<open>String helpers\<close>

definition char_at :: "bytes \<Rightarrow> nat \<Rightarrow> byte" where
  "char_at s i = (if i < length s then s ! i else NUL)"

function chrpos_from :: "bytes \<Rightarrow> byte \<Rightarrow> nat \<Rightarrow> nat \<Rightarrow> int" where
  "chrpos_from str c MaxLen i =
     (if char_at str i \<noteq> NUL \<and> i < MaxLen
      then (if char_at str i = c then int i else chrpos_from str c MaxLen (Suc i))
      else - 1)"
  by pat_completeness auto
termination
  by (relation "measure (\<lambda>(str, c, MaxLen, i). MaxLen - i)") auto

declare chrpos_from.simps [simp del]

definition chrpos :: "bytes \<Rightarrow> byte \<Rightarrow> nat \<Rightarrow> int" where
  "chrpos str c MaxLen = chrpos_from str c MaxLen 0"

function strcmp2_from :: "bytes \<Rightarrow> bytes \<Rightarrow> nat \<Rightarrow> nat \<Rightarrow> nat" where
  "strcmp2_from s1 s2 MaxLen i =
     (if char_at s1 i = char_at s2 i \<and> char_at s2 i \<noteq> NUL \<and> char_at s1 i \<noteq> NUL \<and> i < MaxLen
      then strcmp2_from s1 s2 MaxLen (Suc i) else i)"
  by pat_completeness auto
termination
  by (relation "measure (\<lambda>(s1, s2, MaxLen, i). MaxLen - i)") auto

declare strcmp2_from.simps [simp del]

definition strcmp2 :: "bytes \<Rightarrow> bytes \<Rightarrow> nat \<Rightarrow> int" where
  "strcmp2 s1 s2 MaxLen = (if char_at s2 (strcmp2_from s1 s2 MaxLen 0) = NUL then 0 else 1)"

definition is_EOL :: "byte \<Rightarrow> bool" where
  "is_EOL c \<longleftrightarrow> c = CHR 0x0A \<or> c = CHR 0x0D"

text \<open>\<^verbatim>\<open>RemoveEOL\<close> works on the array: it goes on after the zeros it has written.\<close>

function RemoveEOL_from :: "bytes \<Rightarrow> nat \<Rightarrow> nat \<Rightarrow> bytes" where
  "RemoveEOL_from s MaxLen i =
     (if char_at s i \<noteq> NUL \<and> i < MaxLen
      then RemoveEOL_from (if is_EOL (char_at s i) then s[i := NUL] else s) MaxLen (Suc i)
      else s)"
  by pat_completeness auto
termination
  by (relation "measure (\<lambda>(s, MaxLen, i). MaxLen - i)") auto

declare RemoveEOL_from.simps [simp del]

text \<open>The string left in the array: the caller reads it up to the first NUL.\<close>

definition RemoveEOL :: "bytes \<Rightarrow> nat \<Rightarrow> bytes" where
  "RemoveEOL s MaxLen = takeWhile (\<lambda>c. c \<noteq> NUL) (RemoveEOL_from s MaxLen 0)"

section \<open>The loaders\<close>

text \<open>
  One line of the file against one name: the text behind the first \<open>=\<close> of a line that starts
  with the name. \<open>buf\<close> is what \<^verbatim>\<open>fgets\<close> stored.
\<close>

definition line_value :: "bytes \<Rightarrow> bytes \<Rightarrow> bytes option" where
  "line_value ConfName buf =
     (let ConfigFileLine = takeWhile (\<lambda>c. c \<noteq> NUL) buf in
      if strcmp2 ConfigFileLine ConfName 1500 = 0 then
        let strposI = chrpos ConfigFileLine (CHR ''='') 1500 in
        if strposI > 0 then Some (drop (nat strposI + 1) ConfigFileLine) else None
      else None)"

lemma fgets_1500_progress:
  "(r, rest', eof) = fgets 1500 rest \<Longrightarrow> \<not> eof \<Longrightarrow> length rest' < length rest"
  using fgets_progress [of 1500 rest r rest' eof] by simp

function loader_loop :: "bytes \<Rightarrow> bytes \<Rightarrow> bytes option" where
  "loader_loop ConfName rest =
     (let (ret, rest', eof) = fgets 1500 rest in
      case Option.bind ret (line_value ConfName) of
        Some v \<Rightarrow> Some v
      | None \<Rightarrow> if eof then None else loader_loop ConfName rest')"
  by pat_completeness auto
termination
  by (relation "measure (\<lambda>(n, rest). length rest)") (auto intro: fgets_1500_progress)

declare loader_loop.simps [simp del]

text \<open>
  \<^verbatim>\<open>GenericStrLoader\<close>: the return code and what it stores (\<open>None\<close> when \<^verbatim>\<open>Store\<close> is left
  alone). Every call passes a \<^verbatim>\<open>MaxStore\<close> of 1500, more than a value can have.
\<close>

definition GenericStrLoader :: "disk \<Rightarrow> bytes \<Rightarrow> bytes \<Rightarrow> nat \<Rightarrow> int \<times> bytes option" where
  "GenericStrLoader d Filename ConfName MaxStore =
     (case d Filename of
        None \<Rightarrow> (1, None)
      | Some text \<Rightarrow>
          (case loader_loop ConfName text of
             Some v \<Rightarrow> (0, Some (RemoveEOL (take MaxStore v) 1500))
           | None \<Rightarrow> (- 1, Some [])))"

definition GetIntConfig :: "disk \<Rightarrow> bytes \<Rightarrow> bytes \<Rightarrow> int \<Rightarrow> int \<times> int" where
  "GetIntConfig d Filename ConfName Store =
     (let (ret, ConfigFileValue) = GenericStrLoader d Filename ConfName 1500
      in if ret \<noteq> 0 then (ret, Store)
         else (0, atoi (case ConfigFileValue of None \<Rightarrow> [] | Some v \<Rightarrow> v)))"

definition GetStrConfig :: "disk \<Rightarrow> bytes \<Rightarrow> bytes \<Rightarrow> nat \<Rightarrow> int \<times> bytes option" where
  "GetStrConfig d Filename ConfName MaxBytes = GenericStrLoader d Filename ConfName MaxBytes"

text \<open>\<open>atof\<close> is the C library's conversion, rounded to \<^verbatim>\<open>float\<close>; nothing calls this loader.\<close>

definition GetFloatConfig :: "(bytes \<Rightarrow> 'f) \<Rightarrow> disk \<Rightarrow> bytes \<Rightarrow> bytes \<Rightarrow> 'f \<Rightarrow> int \<times> 'f" where
  "GetFloatConfig atof d Filename ConfName Store =
     (let (ret, ConfigFileValue) = GenericStrLoader d Filename ConfName 1500
      in if ret \<noteq> 0 then (ret, Store)
         else (0, atof (case ConfigFileValue of None \<Rightarrow> [] | Some v \<Rightarrow> v)))"

function multi_loop :: "bytes \<Rightarrow> bytes \<Rightarrow> bytes list \<Rightarrow> bytes list" where
  "multi_loop ConfName rest store =
     (let (ret, rest', eof) = fgets 1500 rest;
          store' = (case Option.bind ret (line_value ConfName) of
                      Some v \<Rightarrow> store @ [RemoveEOL v 1500]
                    | None \<Rightarrow> store)
      in if eof then store' else multi_loop ConfName rest' store')"
  by pat_completeness auto
termination
  by (relation "measure (\<lambda>(n, rest, store). length rest)") (auto intro: fgets_1500_progress)

declare multi_loop.simps [simp del]

definition LoadMultiLineValue :: "disk \<Rightarrow> bytes \<Rightarrow> bytes \<Rightarrow> bytes list \<Rightarrow> int \<times> bytes list" where
  "LoadMultiLineValue d Filename ConfName store =
     (case d Filename of
        None \<Rightarrow> (1, store)
      | Some text \<Rightarrow> (- 1, multi_loop ConfName text store))"

section \<open>The settings\<close>

record AppConfig =
  KillConnectionAfterxBytesReceived :: int
  KillConnectionAfterxBytesSent :: int
  DownloadableFileNames :: "bytes list"
  UploadableFileNames :: "bytes list"
  RetryResendPacketMax :: int
  CommPortStart :: int
  CommPortEnd :: int
  ParallelTransfersMax :: int
  AllowTSizeOption :: int
  ClientTimeoutSecMin :: int
  ClientTimeoutSecMax :: int
  WindowSizeMin :: int
  WindowSizeMax :: int
  NoFileWriteOnServer :: int
  ReuseServerPortForComm :: int

definition default_config :: AppConfig where
  "default_config = \<lparr>
     KillConnectionAfterxBytesReceived = 15 * 1025 * 1024,
     KillConnectionAfterxBytesSent = 15 * 1025 * 1024,
     DownloadableFileNames = [], UploadableFileNames = [],
     RetryResendPacketMax = 4,
     CommPortStart = 49152, CommPortEnd = 65535,
     ParallelTransfersMax = 1, AllowTSizeOption = 1,
     ClientTimeoutSecMin = 1, ClientTimeoutSecMax = 255,
     WindowSizeMin = 1, WindowSizeMax = 65535,
     NoFileWriteOnServer = 0, ReuseServerPortForComm = 0 \<rparr>"

definition init_cfg :: bytes where "init_cfg = ''init.cfg''"

text \<open>\<^verbatim>\<open>GetIntConfig("init.cfg", name, &field)\<close>: the new value of the field.\<close>

abbreviation cfg_int :: "disk \<Rightarrow> bytes \<Rightarrow> int \<Rightarrow> int" where
  "cfg_int d name field \<equiv> snd (GetIntConfig d init_cfg name field)"

text \<open>
  \<^verbatim>\<open>InitConfig\<close>: the settings and the severity flags it hands to the logger.
\<close>

definition InitConfig :: "disk \<Rightarrow> AppConfig \<Rightarrow> AppConfig \<times> int" where
  "InitConfig d c =
     (let logSeverityFlags = cfg_int d ''LogVerbosityFlags'' 0;
          c = c\<lparr>RetryResendPacketMax := cfg_int d ''RetryResendPacketMax'' (RetryResendPacketMax c)\<rparr>;
          c = c\<lparr>ParallelTransfersMax := cfg_int d ''ParallelTransfersMax'' (ParallelTransfersMax c)\<rparr>;
          c = c\<lparr>CommPortStart := cfg_int d ''CommPortRangeStart'' (CommPortStart c)\<rparr>;
          c = c\<lparr>CommPortEnd := cfg_int d ''CommPortRangeEnd'' (CommPortEnd c)\<rparr>;
          c = c\<lparr>KillConnectionAfterxBytesReceived :=
                  cfg_int d ''MaxFileSizeUpload'' (KillConnectionAfterxBytesReceived c)\<rparr>;
          c = c\<lparr>KillConnectionAfterxBytesSent :=
                  cfg_int d ''MaxFileSizeDownload'' (KillConnectionAfterxBytesSent c)\<rparr>;
          c = c\<lparr>AllowTSizeOption := cfg_int d ''AllowFileSizeQuery'' (AllowTSizeOption c)\<rparr>;
          c = c\<lparr>ClientTimeoutSecMin := cfg_int d ''TimeoutSecMin'' (ClientTimeoutSecMin c)\<rparr>;
          c = c\<lparr>ClientTimeoutSecMax := cfg_int d ''TimeoutSecMax'' (ClientTimeoutSecMax c)\<rparr>;
          c = c\<lparr>WindowSizeMin := cfg_int d ''WindowSizeMin'' (WindowSizeMin c)\<rparr>;
          c = c\<lparr>WindowSizeMax := cfg_int d ''WindowSizeMax'' (WindowSizeMax c)\<rparr>;
          c = c\<lparr>NoFileWriteOnServer := cfg_int d ''NoFileWrite'' (NoFileWriteOnServer c)\<rparr>;
          c = c\<lparr>ReuseServerPortForComm := cfg_int d ''UseServerPortForComm'' (ReuseServerPortForComm c)\<rparr>;
          c = c\<lparr>DownloadableFileNames :=
                  snd (LoadMultiLineValue d init_cfg ''DownloadableFileName'' (DownloadableFileNames c))\<rparr>;
          c = c\<lparr>UploadableFileNames :=
                  snd (LoadMultiLineValue d init_cfg ''UploadableFileName'' (UploadableFileNames c))\<rparr>
      in (c, logSeverityFlags))"

section \<open>What the helpers compute\<close>

lemma char_at_0 [simp]: "char_at [] i = NUL" "char_at (c # s) 0 = c" "char_at (c # s) (Suc i) = char_at s i"
  by (simp_all add: char_at_def)

lemma char_at_drop: "char_at s (i + j) = char_at (drop i s) j"
  by (simp add: char_at_def less_diff_conv add.commute)

text \<open>\<open>chrpos\<close> finds the first occurrence.\<close>

lemma chrpos_from_eq:
  assumes "NUL \<notin> set s" and "length s \<le> MaxLen" and "c \<noteq> NUL" and "i \<le> length s"
  shows "chrpos_from s c MaxLen i =
    (if c \<in> set (drop i s) then int (i + length (takeWhile (\<lambda>x. x \<noteq> c) (drop i s))) else - 1)"
  using assms
proof (induction s c MaxLen i rule: chrpos_from.induct)
  case (1 str c MaxLen i)
  show ?case
  proof (cases "i < length str")
    case True
    then have d: "drop i str = str ! i # drop (Suc i) str" by (simp add: Cons_nth_drop_Suc)
    have "str ! i \<noteq> NUL" using True "1.prems"(1) nth_mem by fastforce
    then show ?thesis
      using True 1 d by (subst chrpos_from.simps) (auto simp: char_at_def)
  next
    case False
    with "1.prems" show ?thesis by (simp add: chrpos_from.simps char_at_def)
  qed
qed

lemma chrpos_eq:
  "NUL \<notin> set s \<Longrightarrow> length s \<le> MaxLen \<Longrightarrow> c \<noteq> NUL \<Longrightarrow>
   chrpos s c MaxLen = (if c \<in> set s then int (length (takeWhile (\<lambda>x. x \<noteq> c) s)) else - 1)"
  by (simp add: chrpos_def chrpos_from_eq)

text \<open>\<open>strcmp2\<close> asks whether the second string is a prefix of the first.\<close>

lemma strcmp2_from_eq:
  assumes "NUL \<notin> set s2" and "length s2 \<le> MaxLen" and "i \<le> length s2"
  shows "char_at s2 (strcmp2_from s1 s2 MaxLen i) = NUL \<longleftrightarrow> take (length s2 - i) (drop i s1) = drop i s2"
  using assms
proof (induction s1 s2 MaxLen i rule: strcmp2_from.induct)
  case (1 s1 s2 MaxLen i)
  show ?case
  proof (cases "i < length s2")
    case True
    then have d: "drop i s2 = s2 ! i # drop (Suc i) s2" by (simp add: Cons_nth_drop_Suc)
    have nz: "s2 ! i \<noteq> NUL" using True "1.prems"(1) nth_mem by fastforce
    show ?thesis
    proof (cases "i < length s1 \<and> s1 ! i = s2 ! i")
      case eq: True
      then have "drop i s1 = s1 ! i # drop (Suc i) s1" by (metis Cons_nth_drop_Suc)
      moreover have "length s2 - i = Suc (length s2 - Suc i)" using True by simp
      ultimately show ?thesis
        using True eq nz 1 d by (subst strcmp2_from.simps) (auto simp: char_at_def)
    next
      case False
      then have "strcmp2_from s1 s2 MaxLen i = i"
        using True nz by (subst strcmp2_from.simps) (auto simp: char_at_def)
      moreover have "take (length s2 - i) (drop i s1) \<noteq> drop i s2"
      proof
        assume a: "take (length s2 - i) (drop i s1) = drop i s2"
        then have "length (take (length s2 - i) (drop i s1)) = length s2 - i" by simp
        with True have "i < length s1" by simp
        moreover have "take (length s2 - i) (drop i s1) ! 0 = drop i s2 ! 0" using a by simp
        ultimately show False using False True by simp
      qed
      ultimately show ?thesis using True nz by (simp add: char_at_def)
    qed
  next
    case False
    with "1.prems" show ?thesis by (subst strcmp2_from.simps) (simp add: char_at_def)
  qed
qed

lemma strcmp2_eq:
  "NUL \<notin> set s2 \<Longrightarrow> length s2 \<le> MaxLen \<Longrightarrow> strcmp2 s1 s2 MaxLen = 0 \<longleftrightarrow> take (length s2) s1 = s2"
  using strcmp2_from_eq [of s2 MaxLen 0 s1] by (simp add: strcmp2_def)

lemma RemoveEOL_from_eq:
  assumes "NUL \<notin> set (drop i s)" and "length s \<le> MaxLen" and "i \<le> length s"
  shows "RemoveEOL_from s MaxLen i = take i s @ map (\<lambda>c. if is_EOL c then NUL else c) (drop i s)"
  using assms
proof (induction s MaxLen i rule: RemoveEOL_from.induct)
  case (1 s MaxLen i)
  show ?case
  proof (cases "i < length s")
    case True
    let ?s = "if is_EOL (char_at s i) then s[i := NUL] else s"
    have d: "drop i s = s ! i # drop (Suc i) s" using True by (simp add: Cons_nth_drop_Suc)
    with "1.prems"(1) have nz: "s ! i \<noteq> NUL" and rest: "NUL \<notin> set (drop (Suc i) s)" by auto
    have s': "drop (Suc i) ?s = drop (Suc i) s" "length ?s = length s"
      "take (Suc i) ?s = take i s @ [if is_EOL (s ! i) then NUL else s ! i]"
      using True by (simp_all add: char_at_def take_Suc_conv_app_nth)
    have "RemoveEOL_from s MaxLen i = RemoveEOL_from ?s MaxLen (Suc i)"
      using True nz "1.prems" by (subst RemoveEOL_from.simps) (simp add: char_at_def)
    also have "\<dots> = take (Suc i) ?s @ map (\<lambda>c. if is_EOL c then NUL else c) (drop (Suc i) ?s)"
      using True nz rest "1.prems" s' by (intro "1.IH") (simp_all add: char_at_def)
    finally show ?thesis using s' d by simp
  next
    case False
    with "1.prems" show ?thesis by (subst RemoveEOL_from.simps) (simp add: char_at_def)
  qed
qed

text \<open>\<open>RemoveEOL\<close> cuts the string at its first end of line character.\<close>

lemma RemoveEOL_eq:
  assumes "NUL \<notin> set s" and "length s \<le> MaxLen"
  shows "RemoveEOL s MaxLen = takeWhile (\<lambda>c. \<not> is_EOL c) s"
proof -
  have "takeWhile (\<lambda>c. c \<noteq> NUL) (map (\<lambda>c. if is_EOL c then NUL else c) s) = takeWhile (\<lambda>c. \<not> is_EOL c) s"
    using assms(1) by (induction s) (auto simp: is_EOL_def)
  then show ?thesis using assms by (simp add: RemoveEOL_def RemoveEOL_from_eq)
qed

section \<open>The loaders read a file line by line\<close>

text \<open>
  The abstract view of a settings file is the list of its lines. A line the loaders see whole
  fits the buffer of \<^verbatim>\<open>fgets\<close> with its newline and the final NUL.
\<close>

definition cfg_line_ok :: "bytes \<Rightarrow> bool" where
  "cfg_line_ok l \<longleftrightarrow> length l \<le> 1498 \<and> (\<forall>c \<in> set l. c \<noteq> NUL \<and> \<not> is_EOL c)"

fun cfg_text :: "bytes list \<Rightarrow> bytes" where
  "cfg_text [] = []"
| "cfg_text (l # ls) = l @ CHR 0x0A # cfg_text ls"

text \<open>What one line says about a name: everything behind its first \<open>=\<close>.\<close>

definition spec_value :: "bytes \<Rightarrow> bytes \<Rightarrow> bytes option" where
  "spec_value name l =
     (let key = takeWhile (\<lambda>c. c \<noteq> CHR ''='') l in
      if take (length name) l = name \<and> key \<noteq> [] \<and> CHR ''='' \<in> set l
      then Some (drop (Suc (length key)) l) else None)"

lemma fgets_take_line:
  "\<not> (\<exists>c \<in> set l. c = CHR 0x0A) \<Longrightarrow> length l < n \<Longrightarrow>
   fgets_take n (l @ CHR 0x0A # rest) = (l @ [CHR 0x0A], rest, False)"
proof (induction l arbitrary: n)
  case Nil
  then show ?case by (cases n) auto
next
  case (Cons c l)
  then show ?case by (cases n) auto
qed

lemma fgets_line:
  "cfg_line_ok l \<Longrightarrow> fgets 1500 (l @ CHR 0x0A # rest) = (Some (l @ [CHR 0x0A]), rest, False)"
  by (subst fgets_def, subst fgets_take_line) (auto simp: cfg_line_ok_def is_EOL_def)

lemma fgets_empty: "fgets 1500 [] = (None, [], True)"
proof -
  have "fgets_take (Suc 1498) [] = ([], [], True)" by (rule fgets_take.simps)
  then show ?thesis by (simp add: fgets_def)
qed

definition name_ok :: "bytes \<Rightarrow> bool" where
  "name_ok name \<longleftrightarrow> length name \<le> 1498 \<and> (\<forall>c \<in> set name. c \<noteq> NUL \<and> \<not> is_EOL c)"

lemma take_prefix_newline:
  "(\<forall>c \<in> set name. c \<noteq> x) \<Longrightarrow> take (length name) (l @ [x]) = name \<longleftrightarrow> take (length name) l = name"
proof (induction name arbitrary: l)
  case (Cons c name)
  then show ?case by (cases l) auto
qed simp

lemma line_value_spec:
  assumes l: "cfg_line_ok l" and n: "name_ok name"
  shows "line_value name (l @ [CHR 0x0A]) = map_option (\<lambda>v. v @ [CHR 0x0A]) (spec_value name l)"
proof -
  let ?L = "l @ [CHR 0x0A]"
  have nul: "NUL \<notin> set ?L" and len: "length ?L \<le> 1500" using l by (auto simp: cfg_line_ok_def)
  have tw: "takeWhile (\<lambda>c. c \<noteq> NUL) ?L = ?L" using nul by (auto simp: takeWhile_eq_all_conv)
  have cmp: "strcmp2 ?L name 1500 = 0 \<longleftrightarrow> take (length name) l = name"
    using n take_prefix_newline [of name "CHR 0x0A" l]
    by (subst strcmp2_eq) (auto simp: name_ok_def is_EOL_def)
  let ?k = "takeWhile (\<lambda>c. c \<noteq> CHR ''='') l"
  have pos: "chrpos ?L (CHR ''='') 1500 = (if CHR ''='' \<in> set l then int (length ?k) else - 1)"
    using nul len by (subst chrpos_eq) (auto simp: takeWhile_append)
  have "CHR ''='' \<in> set l \<Longrightarrow> length ?k < length l"
    by (rule length_takeWhile_neq_less)
  then show ?thesis
    by (auto simp: line_value_def Let_def tw cmp pos spec_value_def)
qed

lemma spec_value_set: "spec_value name l = Some v \<Longrightarrow> set v \<subseteq> set l \<and> length v \<le> length l"
  by (auto simp: spec_value_def Let_def split: if_splits dest: in_set_dropD)

lemma RemoveEOL_value:
  assumes "cfg_line_ok l" and "spec_value name l = Some v"
  shows "RemoveEOL (v @ [CHR 0x0A]) 1500 = v"
proof -
  have ok: "\<forall>c \<in> set v. c \<noteq> NUL \<and> \<not> is_EOL c" and "length v \<le> 1498"
    using assms spec_value_set [OF assms(2)] by (auto simp: cfg_line_ok_def)
  then have "RemoveEOL (v @ [CHR 0x0A]) 1500 = takeWhile (\<lambda>c. \<not> is_EOL c) (v @ [CHR 0x0A])"
    by (intro RemoveEOL_eq) auto
  also have "\<dots> = v" using ok by (simp add: takeWhile_append is_EOL_def takeWhile_eq_all_conv)
  finally show ?thesis .
qed

lemma loader_loop_lines:
  assumes "\<forall>l \<in> set ls. cfg_line_ok l" and "name_ok name"
  shows "loader_loop name (cfg_text ls)
         = (case List.map_filter (spec_value name) ls of [] \<Rightarrow> None | v # _ \<Rightarrow> Some (v @ [CHR 0x0A]))"
  using assms
proof (induction ls)
  case Nil
  then show ?case by (simp add: loader_loop.simps fgets_empty)
next
  case (Cons l ls)
  then show ?case
    by (subst loader_loop.simps) (auto simp: fgets_line line_value_spec split: option.splits)
qed

lemma multi_loop_lines:
  assumes "\<forall>l \<in> set ls. cfg_line_ok l" and "name_ok name"
  shows "multi_loop name (cfg_text ls) store = store @ List.map_filter (spec_value name) ls"
  using assms
proof (induction ls arbitrary: store)
  case Nil
  then show ?case by (simp add: multi_loop.simps fgets_empty)
next
  case (Cons l ls)
  then show ?case
    by (subst multi_loop.simps)
       (auto simp: fgets_line line_value_spec RemoveEOL_value split: option.splits)
qed

section \<open>The settings file as a store of settings\<close>

text \<open>
  The contract the start-up code relies on: \<open>get\<close> returns the value of the first line about
  a name, \<open>get_all\<close> the values of all of them, and neither sees the lines about others.
\<close>

locale settings_store =
  fixes about :: "bytes \<Rightarrow> 'l \<Rightarrow> bytes option"
    and line_ok :: "'l \<Rightarrow> bool"
    and known :: "bytes \<Rightarrow> bool"
    and get :: "'l list \<Rightarrow> bytes \<Rightarrow> bytes option"
    and get_all :: "'l list \<Rightarrow> bytes \<Rightarrow> bytes list"
  assumes get_first: "known n \<Longrightarrow> \<forall>l \<in> set ls. line_ok l \<Longrightarrow>
      get ls n = (case List.map_filter (about n) ls of [] \<Rightarrow> None | v # _ \<Rightarrow> Some v)"
    and get_all_lines: "known n \<Longrightarrow> \<forall>l \<in> set ls. line_ok l \<Longrightarrow>
      get_all ls n = List.map_filter (about n) ls"
begin

lemma get_None_iff:
  assumes "known n" and "\<forall>l \<in> set ls. line_ok l"
  shows "get ls n = None \<longleftrightarrow> (\<forall>l \<in> set ls. about n l = None)"
  using assms map_filter_eq_Nil [of "about n" ls]
  by (cases "List.map_filter (about n) ls") (simp_all add: get_first)

lemma get_skip:
  assumes "known n" and "\<forall>l \<in> set (l # ls). line_ok l" and "about n l = None"
  shows "get (l # ls) n = get ls n"
  using assms by (simp add: get_first)

lemma get_hit:
  assumes "known n" and "\<forall>l \<in> set (l # ls). line_ok l" and "about n l = Some v"
  shows "get (l # ls) n = Some v"
  using assms by (simp add: get_first)

lemma get_all_append:
  assumes "known n" and "\<forall>l \<in> set (ls @ ms). line_ok l"
  shows "get_all (ls @ ms) n = get_all ls n @ get_all ms n"
  using assms by (simp add: get_all_lines List.map_filter_def)

lemma get_in_get_all:
  assumes "known n" and "\<forall>l \<in> set ls. line_ok l" and "get ls n = Some v"
  shows "v \<in> set (get_all ls n)"
  using assms by (auto simp: get_first get_all_lines split: list.splits)

end

text \<open>The loaders on a file \<open>init.cfg\<close> that holds the given lines.\<close>

definition disk_of :: "bytes list \<Rightarrow> disk" where
  "disk_of ls = [init_cfg \<mapsto> cfg_text ls]"

definition get_setting :: "bytes list \<Rightarrow> bytes \<Rightarrow> bytes option" where
  "get_setting ls n = (case GenericStrLoader (disk_of ls) init_cfg n 1500 of
                         (ret, v) \<Rightarrow> if ret = 0 then v else None)"

lemma GenericStrLoader_lines:
  assumes "\<forall>l \<in> set ls. cfg_line_ok l" and "name_ok n" and "d f = Some (cfg_text ls)"
  shows "GenericStrLoader d f n 1500 =
    (case List.map_filter (spec_value n) ls of [] \<Rightarrow> (- 1, Some []) | v # _ \<Rightarrow> (0, Some v))"
proof (cases "List.map_filter (spec_value n) ls")
  case Nil
  with assms show ?thesis by (simp add: GenericStrLoader_def loader_loop_lines)
next
  case (Cons v vs)
  then have "v \<in> set (List.map_filter (spec_value n) ls)" by simp
  then obtain l where l: "l \<in> set ls" and v: "spec_value n l = Some v"
    by (auto simp: List.map_filter_def)
  have "cfg_line_ok l" using assms(1) l by blast
  then have "length v \<le> 1498" and rm: "RemoveEOL (v @ [CHR 0x0A]) 1500 = v"
    using spec_value_set [OF v] RemoveEOL_value [OF _ v] by (simp_all add: cfg_line_ok_def)
  then show ?thesis using Cons assms by (simp add: GenericStrLoader_def loader_loop_lines)
qed

lemma LoadMultiLineValue_lines:
  assumes "\<forall>l \<in> set ls. cfg_line_ok l" and "name_ok n" and "d f = Some (cfg_text ls)"
  shows "LoadMultiLineValue d f n store = (- 1, store @ List.map_filter (spec_value n) ls)"
  using assms by (simp add: LoadMultiLineValue_def multi_loop_lines)

interpretation settings: settings_store spec_value cfg_line_ok name_ok get_setting
    "\<lambda>ls n. snd (LoadMultiLineValue (disk_of ls) init_cfg n [])"
  by unfold_locales
     (simp_all add: get_setting_def GenericStrLoader_lines [where ls = ls for ls] disk_of_def
        LoadMultiLineValue_lines [where ls = ls for ls] split: list.splits)

text \<open>An integer setting: the number on its first line, the old value without one.\<close>

definition int_setting :: "bytes list \<Rightarrow> bytes \<Rightarrow> int \<Rightarrow> int" where
  "int_setting ls n old = (case List.map_filter (spec_value n) ls of [] \<Rightarrow> old | v # _ \<Rightarrow> atoi v)"

definition list_setting :: "bytes list \<Rightarrow> bytes \<Rightarrow> bytes list" where
  "list_setting ls n = List.map_filter (spec_value n) ls"

lemma GetIntConfig_lines:
  assumes "\<forall>l \<in> set ls. cfg_line_ok l" and "name_ok n" and "d f = Some (cfg_text ls)"
  shows "snd (GetIntConfig d f n old) = int_setting ls n old"
  using assms by (simp add: GetIntConfig_def GenericStrLoader_lines int_setting_def split: list.splits)

text \<open>The settings a list of lines describes.\<close>

definition config_of_lines :: "bytes list \<Rightarrow> AppConfig" where
  "config_of_lines ls = \<lparr>
     KillConnectionAfterxBytesReceived = int_setting ls ''MaxFileSizeUpload'' (15 * 1025 * 1024),
     KillConnectionAfterxBytesSent = int_setting ls ''MaxFileSizeDownload'' (15 * 1025 * 1024),
     DownloadableFileNames = list_setting ls ''DownloadableFileName'',
     UploadableFileNames = list_setting ls ''UploadableFileName'',
     RetryResendPacketMax = int_setting ls ''RetryResendPacketMax'' 4,
     CommPortStart = int_setting ls ''CommPortRangeStart'' 49152,
     CommPortEnd = int_setting ls ''CommPortRangeEnd'' 65535,
     ParallelTransfersMax = int_setting ls ''ParallelTransfersMax'' 1,
     AllowTSizeOption = int_setting ls ''AllowFileSizeQuery'' 1,
     ClientTimeoutSecMin = int_setting ls ''TimeoutSecMin'' 1,
     ClientTimeoutSecMax = int_setting ls ''TimeoutSecMax'' 255,
     WindowSizeMin = int_setting ls ''WindowSizeMin'' 1,
     WindowSizeMax = int_setting ls ''WindowSizeMax'' 65535,
     NoFileWriteOnServer = int_setting ls ''NoFileWrite'' 0,
     ReuseServerPortForComm = int_setting ls ''UseServerPortForComm'' 0 \<rparr>"

lemma InitConfig_lines:
  assumes ls: "\<forall>l \<in> set ls. cfg_line_ok l" and d: "d init_cfg = Some (cfg_text ls)"
  shows "InitConfig d default_config = (config_of_lines ls, int_setting ls ''LogVerbosityFlags'' 0)"
proof -
  have int: "name_ok n \<Longrightarrow> cfg_int d n old = int_setting ls n old" for n old
    using GetIntConfig_lines [of ls n d init_cfg old] ls d by simp
  have multi: "name_ok n \<Longrightarrow> snd (LoadMultiLineValue d init_cfg n []) = list_setting ls n" for n
    using LoadMultiLineValue_lines [of ls n d init_cfg "[]"] ls d by (simp add: list_setting_def)
  show ?thesis
    by (simp add: InitConfig_def default_config_def config_of_lines_def int multi name_ok_def is_EOL_def)
qed

text \<open>The file of the repository.\<close>

definition shipped_lines :: "bytes list" where
  "shipped_lines =
     [''PacketTimeoutSec=11'', ''RetryResendPacketMax=3'', ''ParallelTransfersMax=2'',
      ''CommPortRangeStart=49153'', ''CommPortRangeEnd=65534'', ''DownloadableFileName=t'',
      ''DownloadableFileName=0.nv12'', ''UploadableFileName=t_'', ''UploadableFileName=0_.nv12'']"

lemma shipped_lines_ok: "\<forall>l \<in> set shipped_lines. cfg_line_ok l"
  by (simp add: shipped_lines_def cfg_line_ok_def is_EOL_def)

lemma shipped_config:
  "config_of_lines shipped_lines =
     default_config\<lparr>RetryResendPacketMax := 3, ParallelTransfersMax := 2,
       CommPortStart := 49153, CommPortEnd := 65534,
       DownloadableFileNames := [''t'', ''0.nv12''], UploadableFileNames := [''t_'', ''0_.nv12'']\<rparr>"
  by (simp add: config_of_lines_def default_config_def int_setting_def list_setting_def
      shipped_lines_def spec_value_def atoi_def strtol_def isspace_def isdigit_def to_int_def)

end
