(* ===== verification/Platform.thy ===== *)
theory Platform
  imports Codec
begin

unbundle bit_operations_syntax

text \<open>
  \<^verbatim>\<open>pthread_win.cpp\<close>: the Linux versions of the clock and string helpers, and the base64
  encoder that makes a binary packet safe to place in a text message.
\<close>

section \<open>Clock and strings\<close>

text \<open>
  \<^verbatim>\<open>getTick\<close>: milliseconds of the wall clock in an unsigned 32 bit counter. The clock is
  the answer of \<^verbatim>\<open>clock_gettime\<close>, seconds and nanoseconds.
\<close>

definition getTick :: "int \<times> int \<Rightarrow> u32" where
  "getTick ts = (let theTick = word_of_int (snd ts div 1000000)
                 in theTick + word_of_int (fst ts * 1000))"

lemma uint_getTick:
  "uint (getTick ts) = (fst ts * 1000 + snd ts div 1000000) mod 4294967296"
proof -
  have "getTick ts = word_of_int (fst ts * 1000 + snd ts div 1000000)"
    by (simp only: getTick_def Let_def wi_hom_add add.commute)
  then show ?thesis by (simp only: uint_word_of_int) (simp add: take_bit_eq_mod)
qed

text \<open>\<^verbatim>\<open>_strdup\<close>: a fresh copy of the string, or NULL when \<^verbatim>\<open>malloc\<close> fails.\<close>

definition strdup :: "bool \<Rightarrow> bytes \<Rightarrow> bytes option" where
  "strdup malloc_ok s = (let slen = length s; result = (if malloc_ok then Some s else None)
     in case result of None \<Rightarrow> None | Some r \<Rightarrow> Some (take slen r))"

lemma strdup_eq [simp]: "strdup ok s = (if ok then Some s else None)"
  by (simp add: strdup_def)

section \<open>The base64 encoder\<close>

definition encoding_table :: bytes where
  "encoding_table = ''ABCDEFGHIJKLMNOPQRSTUVWXYZabcdefghijklmnopqrstuvwxyz0123456789+/''"

definition mod_table :: "nat list" where
  "mod_table = [0, 2, 1]"

text \<open>\<^verbatim>\<open>i < input_length ? data[i++] : 0\<close>, with the new value of \<^verbatim>\<open>i\<close>.\<close>

definition next_octet :: "bytes \<Rightarrow> nat \<Rightarrow> u32 \<times> nat" where
  "next_octet data i = (if i < length data then (of_char (data ! i), Suc i) else (0, i))"

definition triple_sextets :: "u32 \<Rightarrow> bytes" where
  "triple_sextets triple =
     [encoding_table ! unat (drop_bit 18 triple AND 0x3F),
      encoding_table ! unat (drop_bit 12 triple AND 0x3F),
      encoding_table ! unat (drop_bit 6 triple AND 0x3F),
      encoding_table ! unat (drop_bit 0 triple AND 0x3F)]"

text \<open>The loop over three octets at a time; \<open>out\<close> is what \<^verbatim>\<open>encoded_data\<close> holds so far.\<close>

function base64_loop :: "bytes \<Rightarrow> nat \<Rightarrow> bytes \<Rightarrow> bytes" where
  "base64_loop data i out =
     (if i < length data then
        let (octet_a, i) = next_octet data i;
            (octet_b, i) = next_octet data i;
            (octet_c, i) = next_octet data i;
            triple = push_bit 16 octet_a + push_bit 8 octet_b + octet_c
        in base64_loop data i (out @ triple_sextets triple)
      else out)"
  by pat_completeness auto
termination
  by (relation "measure (\<lambda>(data, i, out). length data - i)") (auto simp: next_octet_def split: if_splits)

declare base64_loop.simps [simp del]

text \<open>The padding loop: \<^verbatim>\<open>encoded_data[output_length - 1 - i] = '='\<close>.\<close>

fun pad_loop :: "nat \<Rightarrow> nat \<Rightarrow> bytes \<Rightarrow> bytes" where
  "pad_loop 0 i out = out"
| "pad_loop (Suc n) i out = pad_loop n (Suc i) (out[length out - 1 - i := CHR ''=''])"

text \<open>
  The result is the NUL terminated text (\<open>None\<close> is NULL) and \<^verbatim>\<open>*output_length\<close>.
\<close>

definition base64_encode :: "bool \<Rightarrow> bytes \<Rightarrow> bytes option \<times> nat" where
  "base64_encode malloc_ok data =
     (if length data > 15 * 1024 * 1024 then (None, 0)
      else let output_length = 4 * ((length data + 2) div 3)
           in if \<not> malloc_ok then (None, output_length)
              else let encoded = base64_loop data 0 []
                   in (Some (pad_loop (mod_table ! (length data mod 3)) 0 encoded), output_length))"

text \<open>A reference: the same groups by structural recursion.\<close>

fun groups :: "bytes \<Rightarrow> (u32 \<times> u32 \<times> u32) list" where
  "groups [] = []"
| "groups [a] = [(of_char a, 0, 0)]"
| "groups [a, b] = [(of_char a, of_char b, 0)]"
| "groups (a # b # c # rest) = (of_char a, of_char b, of_char c) # groups rest"

fun enc_group :: "u32 \<times> u32 \<times> u32 \<Rightarrow> bytes" where
  "enc_group (a, b, c) = triple_sextets (push_bit 16 a + push_bit 8 b + c)"

declare enc_group.simps [simp del]

lemma length_triple_sextets [simp]: "length (triple_sextets t) = 4"
  by (simp add: triple_sextets_def)

lemma length_enc_group [simp]: "length (enc_group g) = 4"
  by (cases g) (simp add: enc_group.simps)

lemma base64_loop_groups:
  "base64_loop data i out = out @ concat (map enc_group (groups (drop i data)))"
proof (induction data i out rule: base64_loop.induct)
  case (1 data i out)
  show ?case
  proof (cases "i < length data")
    case True
    let ?a = "data ! i" and ?b = "data ! Suc i" and ?c = "data ! Suc (Suc i)"
    have d: "drop i data = ?a # drop (Suc i) data" using True by (simp add: Cons_nth_drop_Suc)
    consider "length data = Suc i" | "length data = Suc (Suc i)" | "Suc (Suc i) < length data"
      using True by linarith
    then show ?thesis
    proof cases
      case 1
      then show ?thesis
        using d by (simp add: base64_loop.simps [of data i out] base64_loop.simps [of data "Suc i"] next_octet_def enc_group.simps)
    next
      case 2
      then have "drop (Suc i) data = [?b]"
        by (metis Cons_nth_drop_Suc drop_all lessI order_refl)
      with 2 show ?thesis
        using d by (simp add: base64_loop.simps [of data i out] base64_loop.simps [of data "Suc (Suc i)"] next_octet_def enc_group.simps)
    next
      case 3
      then have "drop (Suc i) data = ?b # ?c # drop (Suc (Suc (Suc i))) data"
        by (metis Cons_nth_drop_Suc Suc_lessD)
      with 3 True show ?thesis
        using d "1.IH" by (simp add: base64_loop.simps [of data i out] next_octet_def enc_group.simps)
    qed
  next
    case False
    then show ?thesis by (simp add: base64_loop.simps)
  qed
qed

lemma length_groups: "length (groups d) = (length d + 2) div 3"
  by (induction d rule: groups.induct) auto

lemma length_concat_groups: "length (concat (map enc_group gs)) = 4 * length gs"
  by (induction gs) auto

text \<open>The loop fills \<^verbatim>\<open>encoded_data\<close> exactly: no write past \<^verbatim>\<open>output_length\<close>.\<close>

lemma length_base64_loop: "length (base64_loop d 0 []) = 4 * ((length d + 2) div 3)"
  by (simp add: base64_loop_groups length_concat_groups length_groups)

lemma length_pad_loop [simp]: "length (pad_loop n i out) = length out"
  by (induction n i out rule: pad_loop.induct) auto

section \<open>Decoding base64\<close>

text \<open>
  What the receiver of the text does (RFC 4648): the specification against which the encoder
  is checked.
\<close>

definition b64_value :: "byte \<Rightarrow> nat option" where
  "b64_value c =
     (let n = of_char c in
      if 65 \<le> n \<and> n \<le> 90 then Some (n - 65)
      else if 97 \<le> n \<and> n \<le> 122 then Some (n - 71)
      else if 48 \<le> n \<and> n \<le> 57 then Some (n + 4)
      else if n = 43 then Some 62
      else if n = 47 then Some 63
      else None)"

definition b64_octets :: "nat \<Rightarrow> nat \<Rightarrow> nat \<Rightarrow> nat \<Rightarrow> bytes" where
  "b64_octets p q r s =
     (let t = p * 262144 + q * 4096 + r * 64 + s
      in [char_of (t div 65536), char_of (t div 256), char_of t])"

definition b64_group :: "byte \<Rightarrow> byte \<Rightarrow> byte \<Rightarrow> byte \<Rightarrow> bytes option" where
  "b64_group w x y z =
     (case (b64_value w, b64_value x, b64_value y, b64_value z) of
        (Some p, Some q, Some r, Some s) \<Rightarrow> Some (b64_octets p q r s)
      | (Some p, Some q, Some r, None) \<Rightarrow> if z = CHR ''='' then Some (take 2 (b64_octets p q r 0)) else None
      | (Some p, Some q, None, None) \<Rightarrow>
          if y = CHR ''='' \<and> z = CHR ''='' then Some (take 1 (b64_octets p q 0 0)) else None
      | _ \<Rightarrow> None)"

fun b64_decode :: "bytes \<Rightarrow> bytes option" where
  "b64_decode [] = Some []"
| "b64_decode (w # x # y # z # rest) =
     (case b64_group w x y z of None \<Rightarrow> None
      | Some d \<Rightarrow> (case b64_decode rest of None \<Rightarrow> None | Some ds \<Rightarrow> Some (d @ ds)))"
| "b64_decode _ = None"

lemma b64_value_table: "i < 64 \<Longrightarrow> b64_value (encoding_table ! i) = Some i"
proof -
  have "map b64_value encoding_table = map Some [0..<64]"
    by (simp add: encoding_table_def b64_value_def upt_rec)
  moreover have "length encoding_table = 64" by (simp add: encoding_table_def)
  ultimately show "i < 64 \<Longrightarrow> b64_value (encoding_table ! i) = Some i"
    by (metis add_0 length_upt diff_zero nth_map nth_upt)
qed

lemma b64_value_pad [simp]: "b64_value (CHR ''='') = None"
  by code_simp

lemma unat_sextet: "unat (drop_bit n (t :: u32) AND 0x3F) = unat t div 2 ^ n mod 64"
proof -
  have "drop_bit n t AND 0x3F = take_bit 6 (drop_bit n t)"
    by (simp add: take_bit_eq_mask mask_eq_exp_minus_1)
  then have "unat (drop_bit n t AND 0x3F) = take_bit 6 (drop_bit n (unat t))"
    using unsigned_less [of t, where ?'a = nat]
    by (simp only: unsigned_take_bit_eq unsigned_drop_bit_eq) (simp add: take_bit_nat_eq_self)
  then show ?thesis by (simp add: take_bit_eq_mod drop_bit_eq_div)
qed

text \<open>The 24 bits of a triple, for octets below 256.\<close>

lemma unat_triple:
  assumes "a < 256" "b < 256" "c < 256"
  shows "unat (push_bit 16 (of_nat a) + push_bit 8 (of_nat b) + (of_nat c :: u32))
         = a * 65536 + b * 256 + c"
proof -
  have "push_bit 16 (of_nat a) + push_bit 8 (of_nat b) + (of_nat c :: u32)
        = of_nat (a * 65536 + b * 256 + c)"
    by (simp add: push_bit_eq_mult)
  moreover have "a * 65536 + b * 256 + c < 2 ^ 32" using assms by simp
  ultimately show ?thesis by (simp only: unsigned_of_nat) (simp add: take_bit_nat_eq_self)
qed

text \<open>The encoder's text by structural recursion, padding included.\<close>

fun b64_text :: "bytes \<Rightarrow> bytes" where
  "b64_text [] = []"
| "b64_text [a] = take 2 (enc_group (of_char a, 0, 0)) @ ''==''"
| "b64_text [a, b] = take 3 (enc_group (of_char a, of_char b, 0)) @ ''=''"
| "b64_text (a # b # c # rest) = enc_group (of_char a, of_char b, of_char c) @ b64_text rest"

lemma pad_loop_append:
  "n + i \<le> length ys \<Longrightarrow> pad_loop n i (xs @ ys) = xs @ pad_loop n i ys"
proof (induction n arbitrary: i ys)
  case (Suc n)
  moreover from this have "length (xs @ ys) - 1 - i = length xs + (length ys - 1 - i)" by simp
  then have "(xs @ ys)[length (xs @ ys) - 1 - i := CHR ''=''] = xs @ ys[length ys - 1 - i := CHR ''='']"
    by (simp only: list_update_append) simp
  ultimately show ?case using Suc.IH [of "Suc i" "ys[length ys - 1 - i := CHR ''='']"] by simp
qed simp

lemma pad_loop_4:
  assumes "length xs = 4"
  shows "pad_loop 2 0 xs = take 2 xs @ ''==''" and "xs[3 := CHR ''=''] = take 3 xs @ ''=''"
proof -
  from assms obtain p q r s where "xs = [p, q, r, s]"
    by (auto simp: length_Suc_conv eval_nat_numeral)
  then show "pad_loop 2 0 xs = take 2 xs @ ''==''" and "xs[3 := CHR ''=''] = take 3 xs @ ''=''"
    by (simp_all add: eval_nat_numeral)
qed

lemma pad_groups:
  "pad_loop (mod_table ! (length d mod 3)) 0 (concat (map enc_group (groups d))) = b64_text d"
proof (induction d rule: b64_text.induct)
  case (4 a b c rest)
  have "mod_table ! (length rest mod 3) \<le> length (concat (map enc_group (groups rest)))"
    by (cases rest rule: b64_text.cases)
       (auto simp: mod_table_def length_concat_groups length_groups nth_Cons' split: if_splits)
  with 4 show ?case by (simp add: pad_loop_append)
qed (simp_all add: mod_table_def pad_loop_4)

lemma base64_encode_text:
  "length data \<le> 15 * 1024 * 1024 \<Longrightarrow>
   base64_encode True data = (Some (b64_text data), 4 * ((length data + 2) div 3))"
  by (simp add: base64_encode_def base64_loop_groups pad_groups)

lemma triple_digits:
  assumes "t < (16777216 :: nat)"
  shows "t div 262144 mod 64 * 262144 + t div 4096 mod 64 * 4096 + t div 64 mod 64 * 64 + t mod 64 = t"
proof -
  have "t div 262144 mod 64 = t div 262144" using assms by (simp add: div_less_mono less_mult_imp_div_less)
  moreover have "t div 4096 div 64 = t div 262144" and "t div 64 div 64 = t div 4096"
    by (simp_all flip: div_mult2_eq)
  ultimately show ?thesis
    using div_mult_mod_eq [of t 64] div_mult_mod_eq [of "t div 64" 64] div_mult_mod_eq [of "t div 4096" 64]
    by linarith
qed

lemma sextets_values:
  assumes "unat t = n"
  shows "map b64_value (triple_sextets t)
         = [Some (n div 262144 mod 64), Some (n div 4096 mod 64), Some (n div 64 mod 64), Some (n mod 64)]"
  using assms by (simp add: triple_sextets_def unat_sextet b64_value_table del: drop_bit_0)

text \<open>One group of four characters decodes to the octets it was made from.\<close>

lemma b64_octets_digits:
  assumes "t < (16777216 :: nat)"
  shows "b64_octets (t div 262144 mod 64) (t div 4096 mod 64) (t div 64 mod 64) (t mod 64)
         = [char_of (t div 65536), char_of (t div 256), char_of t]"
  by (simp only: b64_octets_def triple_digits [OF assms] Let_def)

lemma char_of_cong: "m mod 256 = (n :: nat) mod 256 \<Longrightarrow> (char_of m :: char) = char_of n"
  by (metis char_of_mod_256)

lemma enc_group_values:
  fixes a b c :: nat
  assumes "a < 256" "b < 256" "c < 256"
  defines "t \<equiv> a * 65536 + b * 256 + c"
  shows "map b64_value (enc_group (of_nat a, of_nat b, of_nat c))
           = [Some (t div 262144 mod 64), Some (t div 4096 mod 64), Some (t div 64 mod 64), Some (t mod 64)]"
    and "b64_octets (t div 262144 mod 64) (t div 4096 mod 64) (t div 64 mod 64) (t mod 64)
           = [char_of a, char_of b, char_of c]"
proof -
  show "map b64_value (enc_group (of_nat a, of_nat b, of_nat c))
      = [Some (t div 262144 mod 64), Some (t div 4096 mod 64), Some (t div 64 mod 64), Some (t mod 64)]"
    unfolding enc_group.simps t_def using assms by (intro sextets_values unat_triple)
  have lt: "t < 16777216" unfolding t_def using assms by linarith
  have "t div 65536 = a" "t div 256 = a * 256 + b" unfolding t_def using assms by simp_all
  moreover have "(char_of (a * 256 + b) :: char) = char_of b" by (rule char_of_cong) simp
  moreover have "t = c + (a * 256 + b) * 256" unfolding t_def by simp
  then have "(char_of t :: char) = char_of c" by (intro char_of_cong) (simp only: mod_mult_self1)
  ultimately show "b64_octets (t div 262144 mod 64) (t div 4096 mod 64) (t div 64 mod 64) (t mod 64)
      = [char_of a, char_of b, char_of c]"
    by (simp only: b64_octets_digits [OF lt])
qed

lemma length4: "length xs = 4 \<Longrightarrow> \<exists>p q r s. xs = [p, q, r, s]"
  by (auto simp: length_Suc_conv eval_nat_numeral)

text \<open>The three shapes of a group: full, one pad character, two pad characters.\<close>

lemma b64_group_of_values:
  assumes "map b64_value [w, x, y, z] = [Some p, Some q, Some r, Some s]"
    and "b64_octets p q r s = [a, b, c]"
  shows "b64_group w x y z = Some [a, b, c]"
    and "s = 0 \<Longrightarrow> b64_group w x y (CHR ''='') = Some [a, b]"
    and "r = 0 \<Longrightarrow> s = 0 \<Longrightarrow> b64_group w x (CHR ''='') (CHR ''='') = Some [a]"
  using assms by (simp_all add: b64_group_def)

lemma enc_group_obtain:
  fixes a b c :: nat
  assumes "a < 256" "b < 256" "c < 256"
  obtains w x y z p q r s where "enc_group (of_nat a, of_nat b, of_nat c) = [w, x, y, z]"
    and "map b64_value [w, x, y, z] = [Some p, Some q, Some r, Some s]"
    and "b64_octets p q r s = [char_of a, char_of b, char_of c]"
    and "c = 0 \<Longrightarrow> s = 0" and "b = 0 \<Longrightarrow> c = 0 \<Longrightarrow> r = 0"
proof -
  obtain w x y z where e: "enc_group (of_nat a, of_nat b, of_nat c) = [w, x, y, z]"
    using length4 [OF length_enc_group] by blast
  have z1: "c = 0 \<Longrightarrow> (a * 65536 + b * 256 + c) mod 64 = 0"
    using mod_mult_self2_is_0 [of "a * 1024 + b * 4" 64] by (simp add: algebra_simps)
  have z2: "b = 0 \<Longrightarrow> c = 0 \<Longrightarrow> (a * 65536 + b * 256 + c) div 64 mod 64 = 0"
    using mod_mult_self2_is_0 [of "a * 16" 64] by (simp add: div_mult_self1_is_m flip: mult.assoc)
  note v = enc_group_values [OF assms, unfolded e]
  show ?thesis by (rule that [OF e v z1 z2])
qed

lemmas enc_group_char = enc_group_obtain [of "of_char a" "of_char b" "of_char c" for a b c,
  OF of_char_less_256 of_char_less_256 of_char_less_256, unfolded of_nat_of_char char_of_char]

lemma b64_decode_text: "b64_decode (b64_text d) = Some d"
proof (induction d rule: b64_text.induct)
  case (2 a)
  obtain w x y z p q r s where e: "enc_group (of_char a, 0, 0) = [w, x, y, z]"
    and v: "map b64_value [w, x, y, z] = [Some p, Some q, Some r, Some s]"
      "b64_octets p q r s = [a, NUL, NUL]" and "s = 0" and "r = 0"
    by (rule enc_group_char [of a NUL NUL]) auto
  with b64_group_of_values(3) [OF v] show ?case by simp
next
  case (3 a b)
  obtain w x y z p q r s where e: "enc_group (of_char a, of_char b, 0) = [w, x, y, z]"
    and v: "map b64_value [w, x, y, z] = [Some p, Some q, Some r, Some s]"
      "b64_octets p q r s = [a, b, NUL]" and "s = 0"
    by (rule enc_group_char [of a b NUL]) auto
  with b64_group_of_values(2) [OF v] show ?case by simp
next
  case (4 a b c rest)
  obtain w x y z p q r s where e: "enc_group (of_char a, of_char b, of_char c) = [w, x, y, z]"
    and v: "map b64_value [w, x, y, z] = [Some p, Some q, Some r, Some s]"
      "b64_octets p q r s = [a, b, c]"
    by (rule enc_group_char [of a b c]) auto
  with 4 b64_group_of_values(1) [OF v] show ?case by simp
qed simp

interpretation base64: codec "\<lambda>d. the (fst (base64_encode True d))" b64_decode
    "\<lambda>d. length d \<le> 15 * 1024 * 1024"
  by unfold_locales (simp add: base64_encode_text b64_decode_text)

end
