(* ===== verification/Sqs.thy ===== *)
theory Sqs
  imports Platform
begin

text \<open>
  \<^verbatim>\<open>AWSSQS.cpp\<close>: the module that reports every received packet to a message queue. The
  objects made with \<^verbatim>\<open>new\<close> live in a heap of their own, named by numbers, so that a
  session that is allocated but never linked into the list \<^verbatim>\<open>Sessions\<close> is visible as such.
  The AWS client is outside: the model records the message bodies handed to it.
\<close>

section \<open>State\<close>

record SQS_SocketSessionParams =
  ClientSocket :: int
  uuid_str :: bytes
  ClientIP :: bytes
  QueueUrl :: bytes
  MessageBody :: bytes
  MessagesQueuedForSend :: int
  MessagesSent :: int
  MessagesFailedToSend :: int

record sqs_state =
  sqs_heap :: "nat \<rightharpoonup> SQS_SocketSessionParams"
  sqs_next :: nat
  Sessions :: "nat list"
  ServerID :: "bytes option"
  ServerPort :: u16
  ServerIP :: "bytes option"
  sqs_sent :: "bytes list"

definition sqs_start :: sqs_state where
  "sqs_start = \<lparr>sqs_heap = Map.empty, sqs_next = 0, Sessions = [], ServerID = None,
     ServerPort = 0, ServerIP = None, sqs_sent = []\<rparr>"

definition AWS_QUEUE_URL :: bytes where
  "AWS_QUEUE_URL = ''https://sqs.us-east-2.amazonaws.com/507620807254/DaveHudson''"

definition SQS_MESSAGE_BUFFER_SIZE :: nat where
  "SQS_MESSAGE_BUFFER_SIZE = 15 * 1024 * 1024"

section \<open>Start and stop\<close>

text \<open>
  One interface of \<^verbatim>\<open>getifaddrs\<close>: its family, its address bytes and the text of
  \<^verbatim>\<open>inet_ntop\<close>. An interface may have no address; the loop reads through that pointer, too.
\<close>

datatype ifaddr = If_NULL | If_INET "byte list" bytes | If_INET6 bytes | If_other

fun FillLocalIP_loop :: "ifaddr list \<Rightarrow> bytes res" where
  "FillLocalIP_loop [] = Inr []"
| "FillLocalIP_loop (If_NULL # rest) = Inl NullDereference"
| "FillLocalIP_loop (If_INET a str # rest) =
     (if a ! 0 = CHR 0x7F \<or> a ! 0 = NUL then FillLocalIP_loop rest else Inr str)"
| "FillLocalIP_loop (If_INET6 str # rest) = Inr str"
| "FillLocalIP_loop (If_other # rest) = FillLocalIP_loop rest"

definition FillLocalIP :: "ifaddr list \<Rightarrow> sqs_state \<Rightarrow> sqs_state res" where
  "FillLocalIP ifs st = bindR (FillLocalIP_loop ifs) (\<lambda>ip. Inr (st\<lparr>ServerIP := Some ip\<rparr>))"

definition AWS_SQS_Init :: "bool \<Rightarrow> bool \<Rightarrow> ifaddr list \<Rightarrow> bytes \<Rightarrow> u16 \<Rightarrow> sqs_state \<Rightarrow> sqs_state res" where
  "AWS_SQS_Init malloc_ok1 malloc_ok2 ifs pServerID pServerPort st =
     (let st = st\<lparr>ServerID := strdup malloc_ok1 pServerID, ServerPort := pServerPort\<rparr>
      in if malloc_ok2 then FillLocalIP ifs st else Inr (st\<lparr>ServerIP := None\<rparr>))"

definition AWS_SQS_Destroy :: "sqs_state \<Rightarrow> sqs_state" where
  "AWS_SQS_Destroy st =
     st\<lparr>ServerID := None, ServerIP := None,
        sqs_heap := (sqs_heap st) |` (- set (Sessions st)), Sessions := []\<rparr>"

section \<open>Sessions\<close>

text \<open>The loop \<^verbatim>\<open>for (itr ...) if ((*itr)->ClientSocket == Socketfd) return *itr\<close>.\<close>

fun find_session :: "(nat \<rightharpoonup> SQS_SocketSessionParams) \<Rightarrow> nat list \<Rightarrow> int \<Rightarrow> nat option res" where
  "find_session h [] fd = Inr None"
| "find_session h (p # ps) fd =
     (case h p of
        None \<Rightarrow> Inl UseAfterFree
      | Some s \<Rightarrow> if ClientSocket s = fd then Inr (Some p) else find_session h ps fd)"

text \<open>
  \<open>guid\<close> is the text \<^verbatim>\<open>create_guid\<close> produces and \<open>client\<close> the text of \<^verbatim>\<open>inet_ntoa\<close> for the
  client address (\<open>None\<close> is the NULL pointer). The result is a pointer into the heap.
\<close>

definition GetCreateSession :: "bytes \<Rightarrow> int \<Rightarrow> bytes option \<Rightarrow> sqs_state \<Rightarrow> (nat option \<times> sqs_state) res" where
  "GetCreateSession guid Socketfd client st =
     (case client of
        None \<Rightarrow> Inr (None, st)
      | Some clientIP \<Rightarrow>
          if Socketfd = - 1 then Inr (None, st)
          else bindR (find_session (sqs_heap st) (Sessions st) Socketfd) (\<lambda>found.
            case found of
              Some p \<Rightarrow> Inr (Some p, st)
            | None \<Rightarrow>
                let p = sqs_next st;
                    ret = \<lparr>ClientSocket = Socketfd, uuid_str = guid, ClientIP = take 16 clientIP,
                           QueueUrl = AWS_QUEUE_URL, MessageBody = [],
                           MessagesQueuedForSend = 0, MessagesSent = 0, MessagesFailedToSend = 0\<rparr>
                in Inr (Some p, st\<lparr>sqs_heap := (sqs_heap st)(p \<mapsto> ret), sqs_next := Suc p\<rparr>)))"

text \<open>
  Closing a socket: the loop deletes and erases a matching element and then increments the
  iterator it has just invalidated.
\<close>

fun close_loop :: "(nat \<rightharpoonup> SQS_SocketSessionParams) \<Rightarrow> nat list \<Rightarrow> int \<Rightarrow> unit res" where
  "close_loop h [] fd = Inr ()"
| "close_loop h (p # ps) fd =
     (case h p of
        None \<Rightarrow> Inl UseAfterFree
      | Some s \<Rightarrow> if ClientSocket s = fd then Inl InvalidIterator else close_loop h ps fd)"

definition AWS_SQS_SessionClose :: "int \<Rightarrow> sqs_state \<Rightarrow> sqs_state res" where
  "AWS_SQS_SessionClose Socketfd st =
     bindR (close_loop (sqs_heap st) (Sessions st) Socketfd) (\<lambda>_. Inr st)"

text \<open>
  The completion callback counts in every listed session whose client it is; the printed
  error count is its result.
\<close>

fun callback_loop :: "nat \<Rightarrow> bool \<Rightarrow> nat list \<Rightarrow> int \<times> (nat \<rightharpoonup> SQS_SocketSessionParams)
    \<Rightarrow> (int \<times> (nat \<rightharpoonup> SQS_SocketSessionParams)) res" where
  "callback_loop client success [] (ErrorCount, h) = Inr (ErrorCount, h)"
| "callback_loop client success (p # ps) (ErrorCount, h) =
     (case h p of
        None \<Rightarrow> Inl UseAfterFree
      | Some s \<Rightarrow>
          if p = client then
            if \<not> success
            then callback_loop client success ps
                   (MessagesFailedToSend s, h(p \<mapsto> s\<lparr>MessagesFailedToSend := MessagesFailedToSend s + 1\<rparr>))
            else callback_loop client success ps
                   (ErrorCount, h(p \<mapsto> s\<lparr>MessagesSent := MessagesSent s + 1\<rparr>))
          else callback_loop client success ps (ErrorCount, h))"

definition SQS_MessageCallback :: "nat \<Rightarrow> bool \<Rightarrow> sqs_state \<Rightarrow> (int \<times> sqs_state) res" where
  "SQS_MessageCallback client success st =
     bindR (callback_loop client success (Sessions st) (0, sqs_heap st)) (\<lambda>(ErrorCount, h).
       Inr (ErrorCount, st\<lparr>sqs_heap := h\<rparr>))"

section \<open>Reporting a packet\<close>

definition show_str :: "bytes option \<Rightarrow> bytes" where
  "show_str s = (case s of None \<Rightarrow> ''(null)'' | Some t \<Rightarrow> t)"

definition quote :: bytes where "quote = [CHR 0x27]"

text \<open>The format string of the report, its placeholders filled in.\<close>

definition report_body :: "bytes \<Rightarrow> bytes \<Rightarrow> u16 \<Rightarrow> bytes option \<Rightarrow> bytes option \<Rightarrow> bytes \<Rightarrow> bytes" where
  "report_body uuid cmd port ip sid cip =
     ''{'' @ quote @ ''weather'' @ quote @ '':'' @ quote @ quote @ '','' @ quote @ ''msg'' @ quote
     @ '':{'' @ quote @ ''session'' @ quote @ '':'' @ quote @ uuid @ quote @ '','' @ quote @ ''cmd'' @ quote
     @ '':'' @ quote @ cmd @ quote @ ''},'' @ quote @ ''port'' @ quote @ '':'' @ dec_nat (unat port)
     @ '','' @ quote @ ''server_ip'' @ quote @ '':'' @ quote @ show_str ip @ quote
     @ '','' @ quote @ ''server_id'' @ quote @ '':'' @ quote @ show_str sid @ quote
     @ '','' @ quote @ ''cid'' @ quote @ '':'' @ quote @ quote @ '','' @ quote @ ''sensor'' @ quote @ '':'' @ quote @ quote
     @ '','' @ quote @ ''proto'' @ quote @ '': '' @ quote @ ''tcp'' @ quote
     @ '','' @ quote @ ''ip'' @ quote @ '':'' @ quote @ cip @ quote @ ''}''"

text \<open>
  \<open>malloc1\<close> and \<open>malloc2\<close> answer the allocations of the base64 text and of the message.
  \<open>packet\<close> is the buffer (\<open>None\<close> is NULL), of which the first \<open>nbytes\<close> bytes are reported.
\<close>

definition AWS_SQS_OnPacketArrived ::
    "bool \<Rightarrow> bool \<Rightarrow> bytes \<Rightarrow> bytes option \<Rightarrow> int \<Rightarrow> int \<Rightarrow> bytes option \<Rightarrow> sqs_state \<Rightarrow> sqs_state res" where
  "AWS_SQS_OnPacketArrived malloc1 malloc2 guid packet nbytes Socketfd client st =
     (case packet of
        None \<Rightarrow> Inr st
      | Some buf \<Rightarrow>
          if nbytes \<le> 0 \<or> client = None then Inr st
          else bindR (GetCreateSession guid Socketfd client st) (\<lambda>(params, st).
            case params of
              None \<Rightarrow> Inr st
            | Some p \<Rightarrow>
                bindR (guardR OutOfBounds (nat nbytes \<le> length buf)) (\<lambda>_.
                let (EncodedMSG, EncodedSize) = base64_encode malloc1 (take (nat nbytes) buf) in
                case EncodedMSG of
                  None \<Rightarrow> Inr st
                | Some msg \<Rightarrow>
                    if EncodedSize = 0 then Inr st
                    else if \<not> malloc2 then Inr st
                    else (case sqs_heap st p of
                        None \<Rightarrow> Inl UseAfterFree
                      | Some s \<Rightarrow>
                          let body = take (SQS_MESSAGE_BUFFER_SIZE - 1)
                                (report_body (uuid_str s) msg (ServerPort st) (ServerIP st) (ServerID st) (ClientIP s));
                              s = s\<lparr>MessageBody := body,
                                    MessagesQueuedForSend := MessagesQueuedForSend s + 1\<rparr>
                          in Inr (st\<lparr>sqs_heap := (sqs_heap st)(p \<mapsto> s), sqs_sent := sqs_sent st @ [body]\<rparr>)))))"

section \<open>The module never remembers a session\<close>

text \<open>
  \<open>GetCreateSession\<close> never links what it creates, so the list stays as it was: empty, from
  the start of the program.
\<close>

definition sqs_inv :: "sqs_state \<Rightarrow> bool" where
  "sqs_inv st \<longleftrightarrow> Sessions st = [] \<and> (\<forall>p. sqs_heap st p \<noteq> None \<longrightarrow> p < sqs_next st)"

lemma sqs_inv_start: "sqs_inv sqs_start"
  by (simp add: sqs_inv_def sqs_start_def)

lemma GetCreateSession_unlinked:
  assumes "sqs_inv st"
  shows "GetCreateSession guid fd client st =
    Inr (if client = None \<or> fd = - 1 then (None, st)
         else (Some (sqs_next st),
           st\<lparr>sqs_heap := (sqs_heap st)(sqs_next st \<mapsto>
                \<lparr>ClientSocket = fd, uuid_str = guid, ClientIP = take 16 (the client),
                 QueueUrl = AWS_QUEUE_URL, MessageBody = [],
                 MessagesQueuedForSend = 0, MessagesSent = 0, MessagesFailedToSend = 0\<rparr>),
              sqs_next := Suc (sqs_next st)\<rparr>))"
  using assms by (auto simp: GetCreateSession_def sqs_inv_def Let_def split: option.splits)

lemma SessionClose_inv: "sqs_inv st \<Longrightarrow> AWS_SQS_SessionClose fd st = Inr st"
  by (simp add: AWS_SQS_SessionClose_def sqs_inv_def)

lemma MessageCallback_inv: "sqs_inv st \<Longrightarrow> SQS_MessageCallback p ok st = Inr (0, st)"
  by (simp add: SQS_MessageCallback_def sqs_inv_def)

lemma Init_inv: "AWS_SQS_Init m1 m2 ifs sid port st = Inr st' \<Longrightarrow> sqs_inv st \<Longrightarrow> sqs_inv st'"
  by (auto simp: AWS_SQS_Init_def FillLocalIP_def Let_def sqs_inv_def bindR_eq_Inr split: if_splits)

lemma Destroy_inv: "sqs_inv st \<Longrightarrow> sqs_inv (AWS_SQS_Destroy st) \<and> sqs_heap (AWS_SQS_Destroy st) = sqs_heap st"
  by (simp add: AWS_SQS_Destroy_def sqs_inv_def restrict_map_def)

text \<open>
  C39. A packet of a connected client is reported once: the message carries the base64 text of the
  packet and the addresses, cut at the size of the message buffer, and stays in the queue of a
  session that is not linked into the list.
\<close>

theorem report_sent:
  assumes inv: "sqs_inv st"
    and buf: "packet = Some buf" "nat nbytes \<le> length buf" "0 < nbytes" "nat nbytes \<le> 15 * 1024 * 1024"
    and cl: "client = Some ip" "fd \<noteq> - 1"
  shows "AWS_SQS_OnPacketArrived True True guid packet nbytes fd client st =
    Inr (let body = take (SQS_MESSAGE_BUFFER_SIZE - 1)
               (report_body guid (b64_text (take (nat nbytes) buf)) (ServerPort st) (ServerIP st) (ServerID st) (take 16 ip))
         in st\<lparr>sqs_heap := (sqs_heap st)(sqs_next st \<mapsto>
                \<lparr>ClientSocket = fd, uuid_str = guid, ClientIP = take 16 ip, QueueUrl = AWS_QUEUE_URL,
                 MessageBody = body, MessagesQueuedForSend = 1, MessagesSent = 0, MessagesFailedToSend = 0\<rparr>),
              sqs_next := Suc (sqs_next st), sqs_sent := sqs_sent st @ [body]\<rparr>)"
proof -
  have len: "length (take (nat nbytes) buf) = nat nbytes" using buf by simp
  then have enc: "base64_encode True (take (nat nbytes) buf)
      = (Some (b64_text (take (nat nbytes) buf)), 4 * ((nat nbytes + 2) div 3))"
    using buf(4) base64_encode_text [of "take (nat nbytes) buf"] by simp
  have "4 * ((nat nbytes + 2) div 3) \<noteq> 0" using buf(3) by simp
  then show ?thesis
    using inv buf cl
    by (simp add: AWS_SQS_OnPacketArrived_def GetCreateSession_unlinked enc Let_def)
qed

lemma OnPacketArrived_inv:
  assumes "sqs_inv st" and "\<forall>buf. packet = Some buf \<longrightarrow> nat nbytes \<le> length buf"
  shows "\<exists>st'. AWS_SQS_OnPacketArrived m1 m2 guid packet nbytes fd client st = Inr st' \<and> sqs_inv st'"
proof (cases packet)
  case None
  with assms show ?thesis by (simp add: AWS_SQS_OnPacketArrived_def)
next
  case (Some buf)
  with assms(2) have len: "nat nbytes \<le> length buf" by simp
  obtain m k where b: "base64_encode m1 (take (nat nbytes) buf) = (m, k)" by fastforce
  show ?thesis
    using assms(1) Some len b
    by (cases m) (auto simp: AWS_SQS_OnPacketArrived_def GetCreateSession_unlinked Let_def sqs_inv_def)
qed

end
