(* ===== verification/World.thy ===== *)
theory World
  imports Config Sqs
begin

text \<open>
  What surrounds a session. The operating system is an argument of every operation that
  makes a system call: a record of functions that say how the \<open>k\<close>-th call of the run is
  answered, for arbitrary \<open>k\<close>, so a theorem about all \<open>os\<close> covers every behaviour of the
  network, the clock, the allocator and the disk. The world records what the program has
  done to its surroundings.
\<close>

record sockaddr =
  sa_family :: int
  sa_data :: bytes

definition AF_INET :: int where "AF_INET = 2"
definition AF_MAX :: int where "AF_MAX = 46"

datatype realloc_answer = Realloc_fails | Realloc_in_place | Realloc_moves

text \<open>
  \<open>os_recv\<close> and \<open>os_recvfrom\<close> return \<open>None\<close> for an error or a timeout and the datagram
  otherwise; \<open>os_fresh k j\<close> is the byte found at position \<open>j\<close> of memory allocated by call
  \<open>k\<close>; \<open>os_fwrite\<close> is how many bytes the disk accepts.
\<close>

record os =
  os_socket :: "nat \<Rightarrow> int"
  os_setsockopt :: "nat \<Rightarrow> int"
  os_bind :: "nat \<Rightarrow> int \<Rightarrow> u16 \<Rightarrow> int"
  os_connect :: "nat \<Rightarrow> int \<Rightarrow> sockaddr \<Rightarrow> int"
  os_send :: "nat \<Rightarrow> int \<Rightarrow> bytes \<Rightarrow> int"
  os_recv :: "nat \<Rightarrow> int \<Rightarrow> bytes option"
  os_recvfrom :: "nat \<Rightarrow> int \<Rightarrow> (bytes \<times> sockaddr) option"
  os_clock :: "nat \<Rightarrow> int \<times> int"
  os_malloc :: "nat \<Rightarrow> bool"
  os_realloc :: "nat \<Rightarrow> realloc_answer"
  os_fresh :: "nat \<Rightarrow> nat \<Rightarrow> byte"
  os_fopen :: "nat \<Rightarrow> bytes \<Rightarrow> bool"
  os_fwrite :: "nat \<Rightarrow> nat"
  os_guid :: "nat \<Rightarrow> bytes"
  os_ntoa :: "sockaddr \<Rightarrow> bytes"

text \<open>
  \<open>calls\<close> numbers the system calls; \<open>sends\<close> lists every \<^verbatim>\<open>send\<close> with the socket, the
  datagram and the returned count; \<open>NextPortToUse\<close> is the global of that name.
\<close>

record world =
  calls :: nat
  sends :: "(int \<times> bytes \<times> int) list"
  disk :: disk
  open_fds :: "int list"
  NextPortToUse :: u16
  sqs :: sqs_state

definition next_call :: "world \<Rightarrow> world" where
  "next_call w = w\<lparr>calls := Suc (calls w)\<rparr>"

definition sys_socket :: "os \<Rightarrow> world \<Rightarrow> int \<times> world" where
  "sys_socket os w = (let fd = os_socket os (calls w); w = next_call w
     in (fd, if fd = - 1 then w else w\<lparr>open_fds := open_fds w @ [fd]\<rparr>))"

definition sys_setsockopt :: "os \<Rightarrow> world \<Rightarrow> int \<times> world" where
  "sys_setsockopt os w = (os_setsockopt os (calls w), next_call w)"

definition sys_bind :: "os \<Rightarrow> world \<Rightarrow> int \<Rightarrow> u16 \<Rightarrow> int \<times> world" where
  "sys_bind os w fd port = (os_bind os (calls w) fd port, next_call w)"

definition sys_connect :: "os \<Rightarrow> world \<Rightarrow> int \<Rightarrow> sockaddr \<Rightarrow> int \<times> world" where
  "sys_connect os w fd peer = (os_connect os (calls w) fd peer, next_call w)"

definition sys_send :: "os \<Rightarrow> world \<Rightarrow> int \<Rightarrow> bytes \<Rightarrow> int \<times> world" where
  "sys_send os w fd pkt =
     (let r = os_send os (calls w) fd pkt
      in (r, (next_call w)\<lparr>sends := sends w @ [(fd, pkt, r)]\<rparr>))"

definition sys_recv :: "os \<Rightarrow> world \<Rightarrow> int \<Rightarrow> bytes option \<times> world" where
  "sys_recv os w fd = (os_recv os (calls w) fd, next_call w)"

definition sys_tick :: "os \<Rightarrow> world \<Rightarrow> u32 \<times> world" where
  "sys_tick os w = (getTick (os_clock os (calls w)), next_call w)"

definition sys_malloc :: "os \<Rightarrow> world \<Rightarrow> bool \<times> world" where
  "sys_malloc os w = (os_malloc os (calls w), next_call w)"

text \<open>The contents of \<open>n\<close> bytes of fresh memory from call \<open>k\<close>.\<close>

definition fresh_bytes :: "os \<Rightarrow> nat \<Rightarrow> nat \<Rightarrow> bytes" where
  "fresh_bytes os k n = map (os_fresh os k) [0..<n]"

definition sys_malloc_bytes :: "os \<Rightarrow> world \<Rightarrow> nat \<Rightarrow> bytes option \<times> world" where
  "sys_malloc_bytes os w n =
     (if os_malloc os (calls w) then Some (fresh_bytes os (calls w) n) else None, next_call w)"

text \<open>The block after resizing: the common part is kept, new bytes are whatever was there.\<close>

definition resized :: "os \<Rightarrow> nat \<Rightarrow> bytes \<Rightarrow> nat \<Rightarrow> bytes" where
  "resized os k old n = take n old @ drop (length old) (fresh_bytes os k n)"

definition sys_realloc :: "os \<Rightarrow> world \<Rightarrow> realloc_answer \<times> world" where
  "sys_realloc os w = (os_realloc os (calls w), next_call w)"

definition sys_fopen_s :: "os \<Rightarrow> world \<Rightarrow> bytes \<Rightarrow> open_mode \<Rightarrow> FILE option \<times> world" where
  "sys_fopen_s os w fname mode =
     (let (out_f, er, d) = fopen_s (os_fopen os (calls w) fname) (disk w) fname mode
      in (out_f, (next_call w)\<lparr>disk := d\<rparr>))"

definition sys_fwrite :: "os \<Rightarrow> world \<Rightarrow> FILE \<Rightarrow> bytes \<Rightarrow> world \<times> FILE" where
  "sys_fwrite os w f bs =
     (let (d, f') = fwrite (os_fwrite os (calls w)) (disk w) f bs
      in ((next_call w)\<lparr>disk := d\<rparr>, f'))"

definition closesocket :: "int \<Rightarrow> world \<Rightarrow> world" where
  "closesocket fd w = w\<lparr>open_fds := removeAll fd (open_fds w)\<rparr>"

text \<open>The datagrams that went out completely.\<close>

definition delivered :: "world \<Rightarrow> bytes list" where
  "delivered w = map (\<lambda>(fd, pkt, r). pkt) (filter (\<lambda>(fd, pkt, r). r = int (length pkt)) (sends w))"

lemmas sys_defs = sys_socket_def sys_setsockopt_def sys_bind_def sys_connect_def sys_recv_def
  sys_tick_def sys_malloc_def sys_malloc_bytes_def sys_realloc_def next_call_def

named_theorems world_simps \<open>what a system call leaves alone\<close>

lemma next_call_simps [simp]:
  "sends (next_call w) = sends w" "disk (next_call w) = disk w"
  "open_fds (next_call w) = open_fds w" "NextPortToUse (next_call w) = NextPortToUse w"
  "sqs (next_call w) = sqs w" "calls (next_call w) = Suc (calls w)"
  by (simp_all add: next_call_def)

lemma closesocket_simps [simp]:
  "sends (closesocket fd w) = sends w" "disk (closesocket fd w) = disk w"
  "NextPortToUse (closesocket fd w) = NextPortToUse w" "sqs (closesocket fd w) = sqs w"
  "calls (closesocket fd w) = calls w"
  by (simp_all add: closesocket_def)

lemma length_fresh_bytes [simp]: "length (fresh_bytes os k n) = n"
  by (simp add: fresh_bytes_def)

lemma length_resized [simp]: "length (resized os k old n) = n"
  by (simp add: resized_def)

lemma take_resized: "m \<le> n \<Longrightarrow> m \<le> length old \<Longrightarrow> take m (resized os k old n) = take m old"
  by (simp add: resized_def min_def)

lemma delivered_send:
  "delivered (snd (sys_send os w fd pkt)) =
     delivered w @ (if os_send os (calls w) fd pkt = int (length pkt) then [pkt] else [])"
  by (simp add: delivered_def sys_send_def Let_def)

end
