(* ===== verification/Session.thy ===== *)
theory Session
  imports World
begin

text \<open>
  \<^verbatim>\<open>TFTP.h\<close>: the constants and codes of the protocol and the class \<^verbatim>\<open>TFTPSession\<close>, with its
  constructor and destructor from \<^verbatim>\<open>TFTP.cpp\<close>.
\<close>

section \<open>Constants and codes\<close>

definition INVALID_SOCKET_2 :: int where "INVALID_SOCKET_2 = - 1"
definition TFTP_HEADER_SIZE :: int where "TFTP_HEADER_SIZE = 4"
definition TFTP_DATA_BLOCK_SIZE :: int where "TFTP_DATA_BLOCK_SIZE = 512"
definition TFTP_PACKET_FULL_SIZE :: int where
  "TFTP_PACKET_FULL_SIZE = TFTP_HEADER_SIZE + TFTP_DATA_BLOCK_SIZE"
definition TFTP_PACKET_SAFETY_PAD :: int where "TFTP_PACKET_SAFETY_PAD = 2"
definition TFTP_PACKET_FULL_SIZE_SAFE :: int where
  "TFTP_PACKET_FULL_SIZE_SAFE = TFTP_PACKET_SAFETY_PAD + TFTP_PACKET_FULL_SIZE"
definition MAX_RETRY_CREATE_SOCKET :: nat where "MAX_RETRY_CREATE_SOCKET = 100"

lemmas tftp_consts = INVALID_SOCKET_2_def TFTP_HEADER_SIZE_def TFTP_DATA_BLOCK_SIZE_def
  TFTP_PACKET_FULL_SIZE_def TFTP_PACKET_SAFETY_PAD_def TFTP_PACKET_FULL_SIZE_SAFE_def
  MAX_RETRY_CREATE_SOCKET_def

datatype OP_code = OP_RRQ | OP_WRQ | OP_DATA | OP_ACK | OP_ERROR | OP_OACK

fun op_value :: "OP_code \<Rightarrow> u16" where
  "op_value OP_RRQ = 1"
| "op_value OP_WRQ = 2"
| "op_value OP_DATA = 3"
| "op_value OP_ACK = 4"
| "op_value OP_ERROR = 5"
| "op_value OP_OACK = 6"

text \<open>
  The enumeration of error codes. \<^verbatim>\<open>CMSG_ERROR\<close> casts any 16 bit code of the client into it. Its
  largest value is 255, so it can hold the numbers up to 255, with a constructor for those without a
  name; the cast of a larger one is undefined.
\<close>

datatype TFTP_ERROR_CODES =
    TFTP_ERR_UNDEFINED
  | TFTP_ERR_FILE_NOT_FOUND
  | TFTP_ERR_ACCES_VIOLATION
  | TFTP_ERR_DISK_FULL
  | TFTP_ERR_ILLEGAL_OPERATION
  | TFTP_ERR_UNKNOWN_TRANSFER_ID
  | TFTP_ERR_FILE_ALREADY_EXISTS
  | TFTP_ERR_NO_SUCH_USER
  | TFTP_ERR_OPTIONS_NOT_ACCEPTED
  | TFTP_ERR_NO_ERROR
  | TFTP_ERR_unnamed u16

fun err_value :: "TFTP_ERROR_CODES \<Rightarrow> u16" where
  "err_value TFTP_ERR_UNDEFINED = 0"
| "err_value TFTP_ERR_FILE_NOT_FOUND = 1"
| "err_value TFTP_ERR_ACCES_VIOLATION = 2"
| "err_value TFTP_ERR_DISK_FULL = 3"
| "err_value TFTP_ERR_ILLEGAL_OPERATION = 4"
| "err_value TFTP_ERR_UNKNOWN_TRANSFER_ID = 5"
| "err_value TFTP_ERR_FILE_ALREADY_EXISTS = 6"
| "err_value TFTP_ERR_NO_SUCH_USER = 7"
| "err_value TFTP_ERR_OPTIONS_NOT_ACCEPTED = 8"
| "err_value TFTP_ERR_NO_ERROR = 0xFF"
| "err_value (TFTP_ERR_unnamed c) = c"

definition err_of :: "u16 \<Rightarrow> TFTP_ERROR_CODES" where
  "err_of c =
     (if c = 0 then TFTP_ERR_UNDEFINED
      else if c = 1 then TFTP_ERR_FILE_NOT_FOUND
      else if c = 2 then TFTP_ERR_ACCES_VIOLATION
      else if c = 3 then TFTP_ERR_DISK_FULL
      else if c = 4 then TFTP_ERR_ILLEGAL_OPERATION
      else if c = 5 then TFTP_ERR_UNKNOWN_TRANSFER_ID
      else if c = 6 then TFTP_ERR_FILE_ALREADY_EXISTS
      else if c = 7 then TFTP_ERR_NO_SUCH_USER
      else if c = 8 then TFTP_ERR_OPTIONS_NOT_ACCEPTED
      else if c = 0xFF then TFTP_ERR_NO_ERROR
      else TFTP_ERR_unnamed c)"

definition err_cast :: "u16 \<Rightarrow> TFTP_ERROR_CODES res" where
  "err_cast c = bindR (guardR EnumOutOfRange (c \<le> 0xFF)) (\<lambda>_. Inr (err_of c))"

lemma err_value_of [simp]: "err_value (err_of c) = c"
  by (simp add: err_of_def)

lemma err_of_NO_ERROR: "err_of c = TFTP_ERR_NO_ERROR \<longleftrightarrow> c = 0xFF"
  by (simp add: err_of_def)

lemma err_cast_eq: "err_cast c = (if c \<le> 0xFF then Inr (err_of c) else Inl EnumOutOfRange)"
  by (simp add: err_cast_def guardR_def)

datatype TFTP_SessionOperations =
    TFTP_OP_NOT_INITIALIZED
  | TFTP_OP_CLIENT_TO_SERVER
  | TFTP_OP_SERVER_TO_CLIENT

definition TFTP_OPT_TSIZE :: bytes where "TFTP_OPT_TSIZE = ''tsize''"
definition TFTP_OPT_TIMEOUT :: bytes where "TFTP_OPT_TIMEOUT = ''timeout''"
definition TFTP_OPT_BLKSIZE :: bytes where "TFTP_OPT_BLKSIZE = ''blksize''"
definition TFTP_OPT_WINDOSIZE :: bytes where "TFTP_OPT_WINDOSIZE = ''windowsize''"
definition TFTP_OPT_MCAST :: bytes where "TFTP_OPT_MCAST = ''multicast''"

lemmas tftp_opts = TFTP_OPT_TSIZE_def TFTP_OPT_TIMEOUT_def TFTP_OPT_BLKSIZE_def
  TFTP_OPT_WINDOSIZE_def TFTP_OPT_MCAST_def

section \<open>The session\<close>

text \<open>
  Pointers that may be NULL are options: \<open>LastRecvPacket\<close> holds the whole allocation,
  \<open>BlockNrInWindowReceived\<close> the array.
\<close>

record session =
  hFile :: "FILE option"
  SelectedOperation :: TFTP_SessionOperations
  BytesHandled :: u64
  Client :: sockaddr
  LastActivityStamp :: u64
  WindowRetryCount :: int
  Error :: TFTP_ERROR_CODES
  LastRecvPacket :: "bytes option"
  LastRecvPktSize :: int
  CommSocket :: int
  PortPrefered :: u16
  ReadDone :: int
  TransferDone :: int
  BlockSize :: int
  PacketTimeout :: int
  WindowSize :: int
  FirstBlockInWindow :: int
  BlockNrInWindowReceived :: "int list option"
  ServerSocket :: int

text \<open>
  \<^verbatim>\<open>new TFTPSession\<close>: the member initialisers and the constructor's body. The address bytes of
  \<^verbatim>\<open>Client\<close> are not initialised by the program.
\<close>

definition new_TFTPSession :: "os \<Rightarrow> AppConfig \<Rightarrow> bytes \<Rightarrow> world \<Rightarrow> session \<times> world" where
  "new_TFTPSession os sConf uninit_addr w =
     (let (buf, w) = sys_malloc_bytes os w
            (nat (TFTP_DATA_BLOCK_SIZE + TFTP_HEADER_SIZE + TFTP_PACKET_SAFETY_PAD))
      in (\<lparr>hFile = None, SelectedOperation = TFTP_OP_NOT_INITIALIZED, BytesHandled = 0,
           Client = \<lparr>sa_family = AF_MAX, sa_data = uninit_addr\<rparr>,
           LastActivityStamp = 0, WindowRetryCount = 0, Error = TFTP_ERR_NO_ERROR,
           LastRecvPacket = buf, LastRecvPktSize = 0, CommSocket = INVALID_SOCKET_2,
           PortPrefered = 0, ReadDone = 0, TransferDone = 0, BlockSize = TFTP_DATA_BLOCK_SIZE,
           PacketTimeout = ClientTimeoutSecMin sConf, WindowSize = 1, FirstBlockInWindow = 0,
           BlockNrInWindowReceived = None, ServerSocket = INVALID_SOCKET_2\<rparr>, w))"

text \<open>\<^verbatim>\<open>delete sess\<close>: the file is closed with the object; what remains is the socket.\<close>

definition delete_TFTPSession :: "session \<Rightarrow> world \<Rightarrow> world res" where
  "delete_TFTPSession s w =
     (if CommSocket s \<noteq> INVALID_SOCKET_2
      then bindR (AWS_SQS_SessionClose (CommSocket s) (sqs w)) (\<lambda>q.
             Inr (closesocket (CommSocket s) (w\<lparr>sqs := q\<rparr>)))
      else Inr w)"

section \<open>The session invariant\<close>

text \<open>
  What the fields of a session promise each other between two packets. The first part is
  memory: the receive buffer has room for a full packet and its pad, and an upload has one
  counter per block of the window. The second part keeps the integers small enough that no
  block number or window sum leaves \<^verbatim>\<open>int\<close>.
\<close>

definition buffer_ok :: "session \<Rightarrow> bool" where
  "buffer_ok s \<longleftrightarrow> (\<exists>buf. LastRecvPacket s = Some buf \<and>
     int (length buf) = BlockSize s + TFTP_HEADER_SIZE + TFTP_PACKET_SAFETY_PAD)"

definition ranges_ok :: "session \<Rightarrow> bool" where
  "ranges_ok s \<longleftrightarrow> 8 \<le> BlockSize s \<and> BlockSize s \<le> 65464 \<and>
     1 \<le> WindowSize s \<and> WindowSize s \<le> 65535 \<and>
     0 \<le> FirstBlockInWindow s \<and> FirstBlockInWindow s \<le> 65536"

definition window_ok :: "session \<Rightarrow> bool" where
  "window_ok s \<longleftrightarrow> (SelectedOperation s = TFTP_OP_CLIENT_TO_SERVER \<longrightarrow>
     (\<exists>arr. BlockNrInWindowReceived s = Some arr \<and> int (length arr) = WindowSize s))"

definition download_ok :: "session \<Rightarrow> bool" where
  "download_ok s \<longleftrightarrow> (SelectedOperation s = TFTP_OP_SERVER_TO_CLIENT \<longrightarrow>
     hFile s \<noteq> None \<and> 1 \<le> FirstBlockInWindow s)"

definition session_inv :: "session \<Rightarrow> bool" where
  "session_inv s \<longleftrightarrow> buffer_ok s \<and> ranges_ok s \<and> window_ok s \<and> download_ok s"

lemmas session_inv_defs = session_inv_def buffer_ok_def ranges_ok_def window_ok_def download_ok_def

lemma new_TFTPSession_inv:
  assumes "os_malloc os (calls w)"
  shows "session_inv (fst (new_TFTPSession os sConf addr w))"
  using assms
  by (simp add: new_TFTPSession_def session_inv_defs tftp_consts sys_malloc_bytes_def)

lemma new_TFTPSession_fields [simp]:
  "SelectedOperation (fst (new_TFTPSession os sConf addr w)) = TFTP_OP_NOT_INITIALIZED"
  "CommSocket (fst (new_TFTPSession os sConf addr w)) = - 1"
  "Error (fst (new_TFTPSession os sConf addr w)) = TFTP_ERR_NO_ERROR"
  "hFile (fst (new_TFTPSession os sConf addr w)) = None"
  "snd (new_TFTPSession os sConf addr w) = next_call w"
  by (simp_all add: new_TFTPSession_def sys_malloc_bytes_def tftp_consts)

end
