(* ===== verification/Send.thy ===== *)
theory Send
  imports Session
begin

text \<open>
  The packets the server sends: \<^verbatim>\<open>SMSG_ACK_Block\<close>, \<^verbatim>\<open>SMSG_OACK\<close>, \<^verbatim>\<open>SMSG_DATA\<close> and
  \<^verbatim>\<open>SMSG_Error\<close> of \<^verbatim>\<open>TFTP.cpp\<close>.
\<close>

section \<open>Packets\<close>

text \<open>A header of two 16 bit fields, as every packet but RRQ and WRQ starts with.\<close>

definition packet4 :: "OP_code \<Rightarrow> u16 \<Rightarrow> bytes" where
  "packet4 op n = htons_bytes (op_value op) @ htons_bytes n"

definition ack_packet :: "u16 \<Rightarrow> bytes" where
  "ack_packet n = packet4 OP_ACK n"

definition data_packet :: "u16 \<Rightarrow> bytes \<Rightarrow> bytes" where
  "data_packet n payload = packet4 OP_DATA n @ payload"

definition error_packet :: "u16 \<Rightarrow> bytes \<Rightarrow> bytes" where
  "error_packet code msg = packet4 OP_ERROR code @ msg @ [NUL]"

lemma length_packet4 [simp]: "length (packet4 op n) = 4"
  by (simp add: packet4_def)

lemma length_ack_packet [simp]: "length (ack_packet n) = 4"
  by (simp add: ack_packet_def)

lemma length_data_packet [simp]: "length (data_packet n p) = 4 + length p"
  by (simp add: data_packet_def)

text \<open>What a client reads from a packet: its operation, its number and what follows.\<close>

definition split_packet :: "bytes \<Rightarrow> (u16 \<times> u16 \<times> bytes) option" where
  "split_packet p =
     (if length p < 4 then None
      else Some (ntohs_bytes (p ! 0) (p ! 1), ntohs_bytes (p ! 2) (p ! 3), drop 4 p))"

lemma split_packet4: "split_packet (packet4 op n @ rest) = Some (op_value op, n, rest)"
  using ntohs_htons [of "op_value op"] ntohs_htons [of n]
  by (simp add: split_packet_def packet4_def nth_append htons_bytes_def)

interpretation data_codec: codec "\<lambda>(n, p). data_packet n p"
    "\<lambda>b. map_option (\<lambda>(op, n, p). (n, p)) (split_packet b)" "\<lambda>_. True"
  by unfold_locales (auto simp: data_packet_def split_packet4)

interpretation ack_codec: fixed_codec ack_packet
    "\<lambda>b. Option.bind (split_packet b) (\<lambda>(op, n, p). if op = op_value OP_ACK \<and> p = [] then Some n else None)"
    "\<lambda>_. True" 4
  using split_packet4 [of _ _ "[]"] by unfold_locales (simp_all add: ack_packet_def)

section \<open>Acknowledging a block\<close>

text \<open>
  The loop that counts the received blocks at the start of the window; the second argument is
  the number of turns left, the third the index.
\<close>

fun ack_count :: "int list \<Rightarrow> nat \<Rightarrow> nat \<Rightarrow> int res" where
  "ack_count arr 0 i = Inr 0"
| "ack_count arr (Suc n) i =
     (if i < length arr
      then if arr ! i > 0 then bindR (ack_count arr n (Suc i)) (\<lambda>k. Inr (1 + k)) else Inr 0
      else Inl OutOfBounds)"

text \<open>The loop that clears the counters.\<close>

fun ack_reset :: "int list \<Rightarrow> nat \<Rightarrow> nat \<Rightarrow> int list res" where
  "ack_reset arr 0 i = Inr arr"
| "ack_reset arr (Suc n) i =
     (if i < length arr then ack_reset (arr[i := 0]) n (Suc i) else Inl OutOfBounds)"

definition window_array :: "session \<Rightarrow> int list res" where
  "window_array s = (case BlockNrInWindowReceived s of
     None \<Rightarrow> Inl NullDereference | Some arr \<Rightarrow> Inr arr)"

definition SMSG_ACK_Block :: "os \<Rightarrow> int \<Rightarrow> world \<Rightarrow> session \<Rightarrow> (world \<times> session) res" where
  "SMSG_ACK_Block os Resend w s =
     bindR (window_array s) (\<lambda>arr.
     bindR (ack_count arr (nat (WindowSize s)) 0) (\<lambda>BlocksReceived.
     let BlockNrToACK = word_of_int (FirstBlockInWindow s + BlocksReceived) :: u16;
         packet = ack_packet BlockNrToACK;
         (BytesSent, w) = sys_send os w (CommSocket s) packet
     in if BytesSent \<noteq> 4 then Inr (w, s\<lparr>Error := TFTP_ERR_UNDEFINED\<rparr>)
        else let s = s\<lparr>FirstBlockInWindow := uint BlockNrToACK\<rparr> in
             bindR (ack_reset arr (nat (WindowSize s)) 0) (\<lambda>arr.
             let s = s\<lparr>BlockNrInWindowReceived := Some arr\<rparr>;
                 (t, w) = sys_tick os w
             in Inr (w, s\<lparr>LastActivityStamp := ucast t\<rparr>))))"

section \<open>Acknowledging options\<close>

text \<open>
  \<open>OackContent\<close> is the caller's array, whose first two bytes become the operation code;
  sending more bytes than it has reads past its end.
\<close>

definition SMSG_OACK :: "os \<Rightarrow> bytes \<Rightarrow> nat \<Rightarrow> world \<Rightarrow> session \<Rightarrow> world res" where
  "SMSG_OACK os OackContent len w s =
     (let packet = store_at 0 (htons_bytes (op_value OP_OACK)) OackContent in
      bindR (guardR OutOfBounds (len \<le> length packet)) (\<lambda>_.
      let (BytesSent, w) = sys_send os w (CommSocket s) (take len packet)
      in Inr w))"

section \<open>Sending a window of data\<close>

text \<open>
  The loop over the blocks of a window: \<open>n\<close> turns are left, \<open>i\<close> is the index and \<open>f\<close> the file.
  The flag of the result is \<open>False\<close> when the function returns from inside the loop.
\<close>

fun data_loop :: "os \<Rightarrow> AppConfig \<Rightarrow> nat \<Rightarrow> int \<Rightarrow> FILE \<Rightarrow> world \<Rightarrow> session \<Rightarrow> bool \<times> world \<times> session" where
  "data_loop os sConf 0 i f w s = (True, w, s)"
| "data_loop os sConf (Suc n) i f w s =
     (let (payload, f) = fread (disk w) f (nat (BlockSize s));
          read_count_now = length payload;
          s = s\<lparr>hFile := Some f\<rparr>;
          s = (if int read_count_now < BlockSize s then s\<lparr>ReadDone := 1\<rparr> else s);
          packet = data_packet (word_of_int (FirstBlockInWindow s + i)) payload;
          (BytesSent, w) = sys_send os w (CommSocket s) packet
      in if BytesSent \<noteq> int (length packet)
         then (False, w, s\<lparr>Error := TFTP_ERR_UNDEFINED\<rparr>)
         else let s = s\<lparr>BytesHandled := BytesHandled s + of_nat read_count_now\<rparr> in
              if BytesHandled s > word_of_int (KillConnectionAfterxBytesReceived sConf)
                 \<and> KillConnectionAfterxBytesReceived sConf \<noteq> 0
              then (False, w, s\<lparr>Error := TFTP_ERR_DISK_FULL\<rparr>)
              else if int read_count_now < BlockSize s then (True, w, s)
              else data_loop os sConf n (i + 1) f w s)"

definition SMSG_DATA :: "os \<Rightarrow> AppConfig \<Rightarrow> int \<Rightarrow> world \<Rightarrow> session \<Rightarrow> (world \<times> session) res" where
  "SMSG_DATA os sConf resend w s =
     (case hFile s of
        None \<Rightarrow> Inr (w, s)
      | Some f \<Rightarrow>
          bindR (c_int (FirstBlockInWindow s - 1)) (\<lambda>k.
          bindR (c_int (k * BlockSize s)) (\<lambda>off.
          let f = fseek_set f off;
              s = s\<lparr>hFile := Some f\<rparr>;
              (ok, w) = sys_malloc os w
          in if \<not> ok then Inr (w, s\<lparr>Error := TFTP_ERR_UNDEFINED\<rparr>)
             else let (finished, w, s) = data_loop os sConf (nat (WindowSize s)) 0 f w s
                  in if \<not> finished then Inr (w, s)
                     else let s = s\<lparr>WindowRetryCount := 0\<rparr>;
                              (t, w) = sys_tick os w
                          in Inr (w, s\<lparr>LastActivityStamp := ucast t\<rparr>))))"

section \<open>Reporting an error\<close>

definition SMSG_Error :: "os \<Rightarrow> world \<Rightarrow> session \<Rightarrow> world \<times> session" where
  "SMSG_Error os w s =
     (let (err_msg, s) =
            (if Error s = TFTP_ERR_FILE_NOT_FOUND
             then (''ERROR: File name and/or directory could not be resolved'', s)
             else if Error s = TFTP_ERR_DISK_FULL
             then (''ERROR: Uploading files is not supported on this TFTP Server'',
                   s\<lparr>Error := TFTP_ERR_UNDEFINED\<rparr>)
             else (''ERROR'', s));
          packet = error_packet (err_value (Error s)) err_msg;
          (BytesSent, w) = sys_send os w (CommSocket s) packet;
          (t, w) = sys_tick os w
      in (w, s\<lparr>LastActivityStamp := ucast t\<rparr>))"

section \<open>Lemmas: acknowledgements\<close>

lemma ack_count_eq:
  "i + n \<le> length arr \<Longrightarrow>
   ack_count arr n i = Inr (int (length (takeWhile (\<lambda>x. x > 0) (take n (drop i arr)))))"
proof (induction arr n i rule: ack_count.induct)
  case (2 arr n i)
  then have i: "i < length arr" by simp
  have "take (Suc n) (drop i arr) = arr ! i # take n (drop (Suc i) arr)"
    using i by (simp add: Cons_nth_drop_Suc [symmetric])
  with 2 i show ?case by simp
qed simp

lemma ack_reset_eq:
  "i + n \<le> length arr \<Longrightarrow> ack_reset arr n i = Inr (take i arr @ replicate n 0 @ drop (i + n) arr)"
proof (induction arr n i rule: ack_reset.induct)
  case (2 arr n i)
  then have i: "i < length arr" by simp
  have "take (Suc i) (arr[i := 0]) = take i arr @ [0]"
    using i by (simp add: take_Suc_conv_app_nth)
  with 2 i show ?case by simp
qed simp

text \<open>The blocks received without a gap from the start of the window.\<close>

definition received_prefix :: "int list \<Rightarrow> int" where
  "received_prefix arr = int (length (takeWhile (\<lambda>x. x > 0) arr))"

lemma received_prefix_bounds: "0 \<le> received_prefix arr \<and> received_prefix arr \<le> int (length arr)"
  by (simp add: received_prefix_def length_takeWhile_le)

lemma SMSG_ACK_Block_eq:
  assumes arr: "BlockNrInWindowReceived s = Some arr" "int (length arr) = WindowSize s"
  defines "nr \<equiv> word_of_int (FirstBlockInWindow s + received_prefix arr) :: u16"
  shows "SMSG_ACK_Block os resend w s =
    Inr (let (r, w) = sys_send os w (CommSocket s) (ack_packet nr);
             (t, w') = sys_tick os w
         in if r \<noteq> 4 then (w, s\<lparr>Error := TFTP_ERR_UNDEFINED\<rparr>)
            else (w', s\<lparr>FirstBlockInWindow := uint nr,
                       BlockNrInWindowReceived := Some (replicate (length arr) 0),
                       LastActivityStamp := ucast t\<rparr>))"
proof -
  have n: "nat (WindowSize s) = length arr" using arr(2) by simp
  show ?thesis
    using arr by (simp add: SMSG_ACK_Block_def window_array_def ack_count_eq ack_reset_eq n nr_def
        received_prefix_def sys_send_def sys_tick_def Let_def)
qed

section \<open>Lemmas: windows of data\<close>

text \<open>The state of one turn after the block was read, and what the turn does with it.\<close>

definition read_state :: "FILE \<Rightarrow> bytes \<Rightarrow> session \<Rightarrow> session" where
  "read_state f payload s =
     s\<lparr>hFile := Some f, ReadDone := if int (length payload) < BlockSize s then 1 else ReadDone s\<rparr>"

definition over_limit :: "AppConfig \<Rightarrow> u64 \<Rightarrow> bool" where
  "over_limit sConf n \<longleftrightarrow> n > word_of_int (KillConnectionAfterxBytesReceived sConf)
     \<and> KillConnectionAfterxBytesReceived sConf \<noteq> 0"

lemma data_loop_Suc:
  assumes rd: "fread (disk w) f (nat (BlockSize s)) = (payload, f')"
    and sd: "sys_send os w (CommSocket s)
               (data_packet (word_of_int (FirstBlockInWindow s + i)) payload) = (r, w')"
  defines "s1 \<equiv> read_state f' payload s"
  defines "s2 \<equiv> s1\<lparr>BytesHandled := BytesHandled s + of_nat (length payload)\<rparr>"
  shows "data_loop os sConf (Suc n) i f w s =
    (if r \<noteq> int (4 + length payload) then (False, w', s1\<lparr>Error := TFTP_ERR_UNDEFINED\<rparr>)
     else if over_limit sConf (BytesHandled s2) then (False, w', s2\<lparr>Error := TFTP_ERR_DISK_FULL\<rparr>)
     else if int (length payload) < BlockSize s then (True, w', s2)
     else data_loop os sConf n (i + 1) f' w' s2)"
  using rd sd by (auto simp: s1_def s2_def read_state_def over_limit_def Let_def)

declare data_loop.simps(2) [simp del]

text \<open>
  Whatever happens, a window only sends blocks of the file under their own numbers on the
  session's socket, and of the session it only changes four fields.
\<close>

definition window_send :: "session \<Rightarrow> int \<Rightarrow> bytes \<Rightarrow> nat \<Rightarrow> nat \<Rightarrow> int \<times> bytes \<times> int \<Rightarrow> bool" where
  "window_send s i c m n x \<longleftrightarrow> (\<exists>j < n. fst x = CommSocket s \<and>
     fst (snd x) = data_packet (word_of_int (FirstBlockInWindow s + i + int j))
                               (file_block (nat (BlockSize s)) c (m + j)))"

lemma window_send_shift:
  "window_send s (i + 1) c (Suc m) n x \<Longrightarrow> window_send s i c m (Suc n) x"
  unfolding window_send_def by (force simp: algebra_simps intro: exI [of _ "Suc _"])

lemma data_loop_frame:
  assumes "data_loop os sConf n i f w s = (fin, w', s')" and "hFile s = Some f"
    and "f_pos f = m * nat (BlockSize s)" and "c = f_content (disk w) f"
  shows "\<exists>f' rd bh e k new.
    w' = w\<lparr>calls := k, sends := sends w @ new\<rparr> \<and>
    s' = s\<lparr>hFile := Some f', ReadDone := rd, BytesHandled := bh, Error := e\<rparr> \<and>
    f_name f' = f_name f \<and> (\<forall>x \<in> set new. window_send s i c m n x)"
  using assms
proof (induction n arbitrary: i f w s m)
  case 0
  then have "w' = w\<lparr>calls := calls w, sends := sends w @ []\<rparr>"
    and "s' = s\<lparr>hFile := Some f, ReadDone := ReadDone s, BytesHandled := BytesHandled s, Error := Error s\<rparr>"
    by simp_all
  then show ?case by fastforce
next
  case (Suc n)
  obtain payload f1 where rd: "fread (disk w) f (nat (BlockSize s)) = (payload, f1)" by fastforce
  obtain r w1 where sd: "sys_send os w (CommSocket s)
      (data_packet (word_of_int (FirstBlockInWindow s + i)) payload) = (r, w1)" by fastforce
  have pl: "payload = file_block (nat (BlockSize s)) c m"
    using stdio.read_block [OF Suc.prems(3), of "disk w"] rd Suc.prems(4) by simp
  have f1: "f_name f1 = f_name f" "f_content (disk w) f1 = c"
    using fread_name [of "disk w" f "nat (BlockSize s)"] stdio.read_content [of "disk w" f "nat (BlockSize s)"]
      rd Suc.prems(4) by simp_all
  define x where "x = (CommSocket s, data_packet (word_of_int (FirstBlockInWindow s + i)) payload, r)"
  have w1: "w1 = w\<lparr>calls := Suc (calls w), sends := sends w @ [x]\<rparr>"
    using sd by (auto simp: sys_send_def next_call_def x_def Let_def)
  have x: "window_send s i c m (Suc n) x"
    unfolding window_send_def x_def pl by (rule exI [of _ 0]) simp
  define s1 where "s1 = read_state f1 payload s"
  define s2 where "s2 = s1\<lparr>BytesHandled := BytesHandled s + of_nat (length payload)\<rparr>"
  note step = data_loop_Suc [OF rd sd, where sConf = sConf and n = n, folded s1_def, folded s2_def]
  show ?case
  proof (cases "r \<noteq> int (4 + length payload) \<or> over_limit sConf (BytesHandled s2) \<or> int (length payload) < BlockSize s")
    case True
    let ?rd = "if int (length payload) < BlockSize s then 1 else ReadDone s"
    have e1: "s1\<lparr>Error := e\<rparr> = s\<lparr>hFile := Some f1, ReadDone := ?rd, BytesHandled := BytesHandled s, Error := e\<rparr>"
      and e2: "s2\<lparr>Error := e\<rparr> = s\<lparr>hFile := Some f1, ReadDone := ?rd,
                 BytesHandled := BytesHandled s + of_nat (length payload), Error := e\<rparr>" for e
      by (simp_all add: s1_def s2_def read_state_def)
    have e3: "s2 = s2\<lparr>Error := Error s\<rparr>" by (simp add: s1_def s2_def read_state_def)
    from True Suc.prems(1) step have "w' = w1 \<and> (\<exists>e. s' = s1\<lparr>Error := e\<rparr> \<or> s' = s2\<lparr>Error := e\<rparr>)"
      using e3 by (auto split: if_splits)
    then obtain rd' bh e where "w' = w1"
      and "s' = s\<lparr>hFile := Some f1, ReadDone := rd', BytesHandled := bh, Error := e\<rparr>"
      unfolding e1 e2 by blast
    then show ?thesis using w1 f1 x by fastforce
  next
    case False
    then have rec: "data_loop os sConf n (i + 1) f1 w1 s2 = (fin, w', s')"
      using Suc.prems(1) step by simp
    have s2: "hFile s2 = Some f1" "BlockSize s2 = BlockSize s" "CommSocket s2 = CommSocket s"
      "FirstBlockInWindow s2 = FirstBlockInWindow s"
      by (simp_all add: s2_def s1_def read_state_def)
    have "length payload = nat (BlockSize s)"
      using False rd by (auto simp: fread_def Let_def)
    then have pos: "f_pos f1 = Suc m * nat (BlockSize s2)"
      using stdio.read_block_pos [OF Suc.prems(3), of "disk w"] rd s2 by simp
    have "disk w1 = disk w" by (simp add: w1)
    then have c1: "c = f_content (disk w1) f1" using f1 by simp
    from Suc.IH [OF rec s2(1) pos c1] obtain f' rd' bh e k new where
      w': "w' = w1\<lparr>calls := k, sends := sends w1 @ new\<rparr>" and
      s': "s' = s2\<lparr>hFile := Some f', ReadDone := rd', BytesHandled := bh, Error := e\<rparr>" and
      nm: "f_name f' = f_name f1" and new: "\<forall>x \<in> set new. window_send s2 (i + 1) c (Suc m) n x"
      by blast
    have "\<forall>y \<in> set (x # new). window_send s i c m (Suc n) y"
    proof
      fix y assume "y \<in> set (x # new)"
      then consider "y = x" | "window_send s2 (i + 1) c (Suc m) n y" using new by auto
      then show "window_send s i c m (Suc n) y"
      proof cases
        case 2
        then have "window_send s (i + 1) c (Suc m) n y" using s2 by (simp add: window_send_def)
        then show ?thesis by (rule window_send_shift)
      qed (simp add: x)
    qed
    moreover have "w' = w\<lparr>calls := k, sends := sends w @ (x # new)\<rparr>" using w' w1 by simp
    moreover have "s' = s\<lparr>hFile := Some f', ReadDone := rd', BytesHandled := bh, Error := e\<rparr>"
      using s' by (simp add: s2_def s1_def read_state_def)
    ultimately show ?thesis using nm f1 by metis
  qed
qed

text \<open>The offset computed from the block number, when it fits \<^verbatim>\<open>int\<close>.\<close>

definition data_offset :: "session \<Rightarrow> int" where
  "data_offset s = (FirstBlockInWindow s - 1) * BlockSize s"

lemma SMSG_DATA_NULL [simp]: "hFile s = None \<Longrightarrow> SMSG_DATA os sConf resend w s = Inr (w, s)"
  by (simp add: SMSG_DATA_def)

text \<open>The state in which the loop starts: the position set and the buffer allocated.\<close>

lemma SMSG_DATA_unfold:
  assumes f: "hFile s = Some f" and r: "ranges_ok s"
  shows "SMSG_DATA os sConf resend w s =
    (if \<not> int_ok (data_offset s) then Inl SignedOverflow
     else let f = fseek_set f (data_offset s); s = s\<lparr>hFile := Some f\<rparr>; w1 = next_call w in
          if \<not> os_malloc os (calls w) then Inr (w1, s\<lparr>Error := TFTP_ERR_UNDEFINED\<rparr>)
          else case data_loop os sConf (nat (WindowSize s)) 0 f w1 s of
            (False, w2, s2) \<Rightarrow> Inr (w2, s2)
          | (True, w2, s2) \<Rightarrow> Inr (next_call w2,
              s2\<lparr>WindowRetryCount := 0, LastActivityStamp := ucast (getTick (os_clock os (calls w2)))\<rparr>))"
proof -
  have "int_ok (FirstBlockInWindow s - 1)" using r by (intro int_okI) (simp_all add: ranges_ok_def)
  then show ?thesis
    using f by (auto simp: SMSG_DATA_def c_int_ok data_offset_def c_int_def sys_malloc_def sys_tick_def
        Let_def split: prod.splits bool.splits)
qed

definition data_frame :: "world \<Rightarrow> session \<Rightarrow> (int \<times> bytes \<times> int) list \<Rightarrow> world \<Rightarrow> session \<Rightarrow> bool" where
  "data_frame w s new w' s' \<longleftrightarrow>
     (\<exists>k. w' = w\<lparr>calls := k, sends := sends w @ new\<rparr>) \<and>
     (\<exists>f rd bh e rc ts. s' = s\<lparr>hFile := f, ReadDone := rd, BytesHandled := bh, Error := e,
        WindowRetryCount := rc, LastActivityStamp := ts\<rparr> \<and>
        map_option f_name f = map_option f_name (hFile s) \<and> (rc = 0 \<or> rc = WindowRetryCount s))"

lemma data_frameI:
  assumes "w' = w\<lparr>calls := k, sends := sends w @ new\<rparr>"
    and "s' = s\<lparr>hFile := f, ReadDone := rd, BytesHandled := bh, Error := e,
        WindowRetryCount := rc, LastActivityStamp := ts\<rparr>"
    and "map_option f_name f = map_option f_name (hFile s)" and "rc = 0 \<or> rc = WindowRetryCount s"
  shows "data_frame w s new w' s'"
  using assms unfolding data_frame_def by metis

text \<open>
  Every datagram of \<open>SMSG_DATA\<close> is a block of the open file under its own number, and the
  session keeps its shape.
\<close>

lemma SMSG_DATA_frame:
  assumes run: "SMSG_DATA os sConf resend w s = Inr (w', s')" and f: "hFile s = Some f"
    and r: "ranges_ok s" and pos: "1 \<le> FirstBlockInWindow s"
  shows "\<exists>new. data_frame w s new w' s' \<and>
    (\<forall>x \<in> set new. window_send s 0 (f_content (disk w) f) (nat (FirstBlockInWindow s - 1)) (nat (WindowSize s)) x)"
proof -
  let ?m = "nat (FirstBlockInWindow s - 1)"
  define f0 where "f0 = fseek_set f (data_offset s)"
  define s0 where "s0 = s\<lparr>hFile := Some f0\<rparr>"
  have off: "data_offset s = int (?m * nat (BlockSize s))"
    using r pos by (simp add: data_offset_def ranges_ok_def)
  have f0: "f_pos f0 = ?m * nat (BlockSize s0)" "f_name f0 = f_name f"
    "f_content (disk (next_call w)) f0 = f_content (disk w) f"
    unfolding f0_def s0_def off by (simp_all add: stdio.content_seek stdio.pos_seek del: of_nat_mult)
  obtain fin w2 s2 where dl: "data_loop os sConf (nat (WindowSize s0)) 0 f0 (next_call w) s0 = (fin, w2, s2)"
    by (metis prod_cases3)
  show ?thesis
  proof (cases "os_malloc os (calls w)")
    case False
    then have "w' = next_call w" "s' = s0\<lparr>Error := TFTP_ERR_UNDEFINED\<rparr>"
      using run unfolding SMSG_DATA_unfold [OF f r] s0_def f0_def by (auto simp: Let_def split: if_splits)
    then have "data_frame w s [] w' s'"
      using f f0(2) by (intro data_frameI [where f = "Some f0" and rd = "ReadDone s" and bh = "BytesHandled s"
            and rc = "WindowRetryCount s" and ts = "LastActivityStamp s" and k = "Suc (calls w)"])
        (simp_all add: next_call_def s0_def)
    then show ?thesis by (intro exI [of _ "[]"]) simp
  next
    case True
    then have fin: "if fin then w' = next_call w2 \<and> s' = s2\<lparr>WindowRetryCount := 0,
          LastActivityStamp := ucast (getTick (os_clock os (calls w2)))\<rparr> else w' = w2 \<and> s' = s2"
      using run dl unfolding SMSG_DATA_unfold [OF f r] s0_def f0_def by (auto simp: Let_def split: if_splits)
    have "hFile s0 = Some f0" by (simp add: s0_def)
    from data_loop_frame [OF dl this f0(1) f0(3) [symmetric]] obtain f' rd bh e k new where
      w2: "w2 = (next_call w)\<lparr>calls := k, sends := sends (next_call w) @ new\<rparr>" and
      s2: "s2 = s0\<lparr>hFile := Some f', ReadDone := rd, BytesHandled := bh, Error := e\<rparr>" and
      nm: "f_name f' = f_name f0" and new: "\<forall>x \<in> set new. window_send s0 0 (f_content (disk w) f) ?m (nat (WindowSize s0)) x"
      by blast
    have w2': "w2 = w\<lparr>calls := k, sends := sends w @ new\<rparr>" using w2 by (simp add: next_call_def)
    have "data_frame w s new w' s'"
    proof (cases fin)
      case True
      with fin w2' s2 nm f0(2) f show ?thesis
        by (intro data_frameI [where f = "Some f'" and rd = rd and bh = bh and e = e and rc = 0
              and ts = "ucast (getTick (os_clock os (calls w2)))" and k = "Suc k"])
          (simp_all add: next_call_def s0_def)
    next
      case False
      with fin w2' s2 nm f0(2) f show ?thesis
        by (intro data_frameI [where f = "Some f'" and rd = rd and bh = bh and e = e and rc = "WindowRetryCount s"
              and ts = "LastActivityStamp s" and k = k])
          (simp_all add: s0_def)
    qed
    with new show ?thesis by (intro exI [of _ new]) (simp add: window_send_def s0_def)
  qed
qed

lemma data_frame_simps:
  assumes "data_frame w s new w' s'"
  shows "disk w' = disk w" "sends w' = sends w @ new" "sqs w' = sqs w" "open_fds w' = open_fds w"
    "NextPortToUse w' = NextPortToUse w"
    "LastRecvPacket s' = LastRecvPacket s" "SelectedOperation s' = SelectedOperation s"
    "BlockSize s' = BlockSize s" "WindowSize s' = WindowSize s" "CommSocket s' = CommSocket s"
    "FirstBlockInWindow s' = FirstBlockInWindow s" "TransferDone s' = TransferDone s"
    "PacketTimeout s' = PacketTimeout s" "Client s' = Client s"
    "BlockNrInWindowReceived s' = BlockNrInWindowReceived s" "LastRecvPktSize s' = LastRecvPktSize s"
    "ServerSocket s' = ServerSocket s" "PortPrefered s' = PortPrefered s"
    "map_option f_name (hFile s') = map_option f_name (hFile s)"
    "WindowRetryCount s' = 0 \<or> WindowRetryCount s' = WindowRetryCount s"
  using assms by (auto simp: data_frame_def)

lemma data_frame_inv:
  assumes "data_frame w s new w' s'" and "session_inv s" shows "session_inv s'"
proof -
  note fr = data_frame_simps [OF assms(1)]
  have "hFile s' = None \<longleftrightarrow> hFile s = None" using fr(19) by (metis option.map_disc_iff)
  then show ?thesis using assms(2) by (simp add: session_inv_defs fr(6-11) fr(15))
qed

text \<open>\<open>SMSG_DATA\<close> runs into undefined behaviour only through the offset.\<close>

lemma SMSG_DATA_defined:
  assumes "ranges_ok s" and "hFile s \<noteq> None \<Longrightarrow> int_ok (data_offset s)"
  shows "\<exists>w' s'. SMSG_DATA os sConf resend w s = Inr (w', s')"
proof (cases "hFile s")
  case (Some f)
  then show ?thesis
    using assms unfolding SMSG_DATA_unfold [OF Some assms(1)] by (auto simp: Let_def split: prod.splits bool.splits)
qed simp

section \<open>A window on a network that takes every datagram\<close>

definition sends_ok :: "os \<Rightarrow> bool" where
  "sends_ok os \<longleftrightarrow> (\<forall>k fd pkt. os_send os k fd pkt = int (length pkt))"

text \<open>The blocks a window covers: the blocks of the file in order, up to a short one.\<close>

fun window_payloads :: "nat \<Rightarrow> bytes \<Rightarrow> nat \<Rightarrow> nat \<Rightarrow> bytes list" where
  "window_payloads b c 0 k = []"
| "window_payloads b c (Suc n) k =
     (let p = file_block b c k in
      p # (if length p < b then [] else window_payloads b c n (Suc k)))"

fun window_packets :: "int \<Rightarrow> bytes list \<Rightarrow> bytes list" where
  "window_packets i [] = []"
| "window_packets i (p # ps) = data_packet (word_of_int i) p # window_packets (i + 1) ps"

definition window_sends :: "int \<Rightarrow> int \<Rightarrow> bytes list \<Rightarrow> (int \<times> bytes \<times> int) list" where
  "window_sends fd i ps = map (\<lambda>p. (fd, p, int (length p))) (window_packets i ps)"

definition total_length :: "bytes list \<Rightarrow> nat" where
  "total_length ps = sum_list (map length ps)"

definition has_short :: "nat \<Rightarrow> bytes list \<Rightarrow> bool" where
  "has_short b ps \<longleftrightarrow> (\<exists>p \<in> set ps. length p < b)"

text \<open>\<open>n\<close> more bytes keep the session within the configured limit.\<close>

definition within_limit :: "AppConfig \<Rightarrow> u64 \<Rightarrow> nat \<Rightarrow> bool" where
  "within_limit sConf h n \<longleftrightarrow>
     KillConnectionAfterxBytesReceived sConf = 0 \<or>
     (0 < KillConnectionAfterxBytesReceived sConf \<and> int_ok (KillConnectionAfterxBytesReceived sConf) \<and>
      int (unat h + n) \<le> KillConnectionAfterxBytesReceived sConf)"

lemma within_limitD:
  assumes "within_limit sConf h n" and "m \<le> n"
  shows "\<not> over_limit sConf (h + of_nat m)"
proof (cases "KillConnectionAfterxBytesReceived sConf = 0")
  case False
  let ?L = "KillConnectionAfterxBytesReceived sConf"
  from False assms have L: "0 < ?L" "?L < 18446744073709551616" "int (unat h + m) \<le> ?L"
    by (auto simp: within_limit_def int_ok_def INT_MAX_def)
  have "unat (h + of_nat m) = unat h + m"
  proof -
    have "unat h + m < 18446744073709551616" using L(2,3) by linarith
    then show ?thesis by (simp add: unat_word_ariths unsigned_of_nat take_bit_eq_mod)
  qed
  moreover have "unat (word_of_int ?L :: u64) = nat ?L"
    using L by (simp add: unsigned_of_int take_bit_eq_mod)
  moreover have "unat h + m \<le> nat ?L" using L(1,3) by linarith
  ultimately have "h + of_nat m \<le> (word_of_int ?L :: u64)"
    by (simp only: word_le_nat_alt)
  then show ?thesis by (simp add: over_limit_def not_less)
qed (simp add: over_limit_def)

lemma within_limit_add:
  assumes "within_limit sConf h (m + n)" shows "within_limit sConf (h + of_nat m) n"
proof (cases "KillConnectionAfterxBytesReceived sConf = 0")
  case False
  with assms have L: "0 < KillConnectionAfterxBytesReceived sConf"
    "KillConnectionAfterxBytesReceived sConf \<le> 2147483647" "int_ok (KillConnectionAfterxBytesReceived sConf)"
    "int (unat h + (m + n)) \<le> KillConnectionAfterxBytesReceived sConf"
    by (auto simp: within_limit_def int_ok_def INT_MAX_def)
  then have "unat h + m < 18446744073709551616" by linarith
  then have "unat (h + of_nat m) = unat h + m"
    by (simp add: unat_word_ariths unsigned_of_nat take_bit_eq_mod)
  with L show ?thesis by (simp add: within_limit_def)
qed (simp add: within_limit_def)

lemma sys_send_ok:
  "sends_ok os \<Longrightarrow> sys_send os w fd pkt =
     (int (length pkt), w\<lparr>calls := Suc (calls w), sends := sends w @ [(fd, pkt, int (length pkt))]\<rparr>)"
  by (simp add: sends_ok_def sys_send_def next_call_def Let_def)

lemma data_loop_ok:
  assumes "sends_ok os" and "hFile s = Some f" and "0 < BlockSize s"
    and "f_pos f = m * nat (BlockSize s)" and "c = f_content (disk w) f"
    and "ps = window_payloads (nat (BlockSize s)) c n m"
    and "within_limit sConf (BytesHandled s) (total_length ps)"
  shows "\<exists>f' k. data_loop os sConf n i f w s =
    (True, w\<lparr>calls := k, sends := sends w @ window_sends (CommSocket s) (FirstBlockInWindow s + i) ps\<rparr>,
     s\<lparr>hFile := Some f', ReadDone := if has_short (nat (BlockSize s)) ps then 1 else ReadDone s,
       BytesHandled := BytesHandled s + of_nat (total_length ps)\<rparr>) \<and> f_name f' = f_name f"
  using assms
proof (induction n arbitrary: i f w s m ps)
  case 0
  then have "data_loop os sConf 0 i f w s = (True, w\<lparr>calls := calls w\<rparr>, s\<lparr>hFile := Some f\<rparr>)" by simp
  with 0 show ?case
    by (intro exI [of _ f] exI [of _ "calls w"]) (simp add: window_sends_def total_length_def has_short_def)
next
  case (Suc n)
  let ?B = "nat (BlockSize s)"
  define p where "p = file_block ?B c m"
  obtain payload f1 where rd: "fread (disk w) f ?B = (payload, f1)" by fastforce
  have pl: "payload = p"
    using stdio.read_block [OF Suc.prems(4), of "disk w"] rd Suc.prems(5) by (simp add: p_def)
  have f1: "f_name f1 = f_name f" "f_content (disk w) f1 = c"
    using fread_name [of "disk w" f ?B] stdio.read_content [of "disk w" f ?B] rd Suc.prems(5) by simp_all
  define pkt where "pkt = data_packet (word_of_int (FirstBlockInWindow s + i)) payload"
  define w1 where "w1 = w\<lparr>calls := Suc (calls w), sends := sends w @ [(CommSocket s, pkt, int (length pkt))]\<rparr>"
  have sd: "sys_send os w (CommSocket s) (data_packet (word_of_int (FirstBlockInWindow s + i)) payload)
      = (int (4 + length payload), w1)"
    using sys_send_ok [OF Suc.prems(1)] by (simp add: w1_def pkt_def)
  define rest where "rest = (if length p < ?B then [] else window_payloads ?B c n (Suc m))"
  have ps: "ps = p # rest" using Suc.prems(6) by (simp add: p_def rest_def Let_def)
  define s2 where "s2 = (read_state f1 payload s)\<lparr>BytesHandled := BytesHandled s + of_nat (length payload)\<rparr>"
  have tot: "total_length ps = length payload + total_length rest" by (simp add: ps pl total_length_def)
  have lim: "\<not> over_limit sConf (BytesHandled s2)"
    using within_limitD [OF Suc.prems(7), of "length payload"] tot by (simp add: s2_def)
  have step: "data_loop os sConf (Suc n) i f w s =
      (if int (length payload) < BlockSize s then (True, w1, s2) else data_loop os sConf n (i + 1) f1 w1 s2)"
    using lim by (simp add: data_loop_Suc [OF rd sd] s2_def)
  show ?case
  proof (cases "length p < ?B")
    case True
    then have "rest = []" "int (length payload) < BlockSize s" by (simp_all add: rest_def pl)
    have "s2 = s\<lparr>hFile := Some f1, ReadDone := if has_short ?B ps then 1 else ReadDone s,
        BytesHandled := BytesHandled s + of_nat (total_length ps)\<rparr>"
      using \<open>rest = []\<close> True \<open>int (length payload) < BlockSize s\<close>
      by (simp add: s2_def read_state_def has_short_def total_length_def ps pl)
    moreover have "w1 = w\<lparr>calls := Suc (calls w),
        sends := sends w @ window_sends (CommSocket s) (FirstBlockInWindow s + i) ps\<rparr>"
      using \<open>rest = []\<close> by (simp add: w1_def window_sends_def ps pl pkt_def)
    moreover have "data_loop os sConf (Suc n) i f w s = (True, w1, s2)"
      using step \<open>int (length payload) < BlockSize s\<close> by (simp only: if_True)
    ultimately show ?thesis using f1(1) by metis
  next
    case False
    have len: "length payload = ?B"
      using False pl by (simp add: p_def length_file_block)
    have s2: "hFile s2 = Some f1" "BlockSize s2 = BlockSize s" "BytesHandled s2 = BytesHandled s + of_nat (length payload)"
      "CommSocket s2 = CommSocket s" "FirstBlockInWindow s2 = FirstBlockInWindow s" "ReadDone s2 = ReadDone s"
      using len by (simp_all add: s2_def read_state_def)
    have pos: "f_pos f1 = Suc m * nat (BlockSize s2)"
      using stdio.read_block_pos [OF Suc.prems(4), of "disk w"] rd s2 len by simp
    have c1: "c = f_content (disk w1) f1" using f1 by (simp add: w1_def)
    have lim2: "within_limit sConf (BytesHandled s2) (total_length rest)"
      using within_limit_add Suc.prems(7) tot s2(3) by metis
    have rest: "rest = window_payloads (nat (BlockSize s2)) c n (Suc m)" using False s2 by (simp add: rest_def)
    have B2: "0 < BlockSize s2" using Suc.prems(3) s2(2) by simp
    obtain f' k where
      ih: "data_loop os sConf n (i + 1) f1 w1 s2 =
        (True, w1\<lparr>calls := k, sends := sends w1 @ window_sends (CommSocket s2) (FirstBlockInWindow s2 + (i + 1)) rest\<rparr>,
         s2\<lparr>hFile := Some f', ReadDone := if has_short (nat (BlockSize s2)) rest then 1 else ReadDone s2,
           BytesHandled := BytesHandled s2 + of_nat (total_length rest)\<rparr>)" and nm: "f_name f' = f_name f1"
      using Suc.IH [where i = "i + 1", OF Suc.prems(1) s2(1) B2 pos c1 rest lim2] by blast
    have sh: "has_short ?B ps \<longleftrightarrow> has_short ?B rest" using False by (simp add: has_short_def ps)
    have "s2\<lparr>hFile := Some f', ReadDone := if has_short (nat (BlockSize s2)) rest then 1 else ReadDone s2,
           BytesHandled := BytesHandled s2 + of_nat (total_length rest)\<rparr> =
          s\<lparr>hFile := Some f', ReadDone := if has_short ?B ps then 1 else ReadDone s,
           BytesHandled := BytesHandled s + of_nat (total_length ps)\<rparr>"
      using sh len Suc.prems(3) by (simp add: s2 s2_def read_state_def tot add.assoc)
    moreover have "w1\<lparr>calls := k, sends := sends w1 @ window_sends (CommSocket s2) (FirstBlockInWindow s2 + (i + 1)) rest\<rparr> =
          w\<lparr>calls := k, sends := sends w @ window_sends (CommSocket s) (FirstBlockInWindow s + i) ps\<rparr>"
      by (simp add: s2 w1_def ps pl pkt_def window_sends_def add.assoc)
    ultimately show ?thesis
      using step ih len Suc.prems(3) nm f1 by (intro exI [of _ f'] exI [of _ k]) simp
  qed
qed

text \<open>
  The whole of \<open>SMSG_DATA\<close> then: one window of packets, numbered from the first block of the
  window, with the retry count and the activity stamp refreshed.
\<close>

lemma SMSG_DATA_ok:
  assumes os: "sends_ok os" "os_malloc os (calls w)" and f: "hFile s = Some f" and r: "ranges_ok s"
    and first: "FirstBlockInWindow s = int m + 1" and off: "int_ok (data_offset s)"
    and ps: "ps = window_payloads (nat (BlockSize s)) (f_content (disk w) f) (nat (WindowSize s)) m"
    and lim: "within_limit sConf (BytesHandled s) (total_length ps)"
  shows "\<exists>f' k ts. SMSG_DATA os sConf resend w s =
    Inr (w\<lparr>calls := k, sends := sends w @ window_sends (CommSocket s) (FirstBlockInWindow s) ps\<rparr>,
     s\<lparr>hFile := Some f', ReadDone := if has_short (nat (BlockSize s)) ps then 1 else ReadDone s,
       BytesHandled := BytesHandled s + of_nat (total_length ps),
       WindowRetryCount := 0, LastActivityStamp := ts\<rparr>) \<and> f_name f' = f_name f"
proof -
  define f0 where "f0 = fseek_set f (data_offset s)"
  define s0 where "s0 = s\<lparr>hFile := Some f0\<rparr>"
  have off_eq: "data_offset s = int (m * nat (BlockSize s))"
    using r first by (simp add: data_offset_def ranges_ok_def)
  have f0: "f_pos f0 = m * nat (BlockSize s0)" "f_name f0 = f_name f"
    "f_content (disk (next_call w)) f0 = f_content (disk w) f"
    unfolding f0_def s0_def off_eq by (simp_all add: stdio.content_seek stdio.pos_seek del: of_nat_mult)
  have s0: "hFile s0 = Some f0" "0 < BlockSize s0" "BlockSize s0 = BlockSize s" "WindowSize s0 = WindowSize s"
    "FirstBlockInWindow s0 = FirstBlockInWindow s" "CommSocket s0 = CommSocket s" "ReadDone s0 = ReadDone s"
    "BytesHandled s0 = BytesHandled s"
    using r by (simp_all add: s0_def ranges_ok_def)
  have ps0: "ps = window_payloads (nat (BlockSize s0)) (f_content (disk (next_call w)) f0) (nat (WindowSize s0)) m"
    using ps f0(3) s0 by simp
  have lim0: "within_limit sConf (BytesHandled s0) (total_length ps)" using lim s0 by simp
  from data_loop_ok [OF os(1) s0(1,2) f0(1) refl ps0 lim0, of 0] obtain f' k where
    dl: "data_loop os sConf (nat (WindowSize s0)) 0 f0 (next_call w) s0 =
      (True, (next_call w)\<lparr>calls := k, sends := sends (next_call w) @ window_sends (CommSocket s0) (FirstBlockInWindow s0 + 0) ps\<rparr>,
       s0\<lparr>hFile := Some f', ReadDone := if has_short (nat (BlockSize s0)) ps then 1 else ReadDone s0,
         BytesHandled := BytesHandled s0 + of_nat (total_length ps)\<rparr>)" and nm: "f_name f' = f_name f0"
    by blast
  have w: "(next_call w)\<lparr>calls := k, sends := sends (next_call w) @ x\<rparr> = w\<lparr>calls := k, sends := sends w @ x\<rparr>" for x
    by (simp add: next_call_def)
  show ?thesis
    using off os(2) dl nm f0(2)
    unfolding SMSG_DATA_unfold [OF f r] f0_def [symmetric] s0_def [symmetric] w Let_def s0
    by (intro exI [of _ f'] exI [of _ "Suc k"] exI [of _ "ucast (getTick (os_clock os k))"])
       (simp add: s0_def next_call_def)
qed

end
