(* ===== verification/Options.thy ===== *)
theory Options
  imports Send
begin

text \<open>
  \<^verbatim>\<open>ParseOptions\<close> of \<^verbatim>\<open>TFTP.cpp\<close>: the negotiation of the TFTP options a request may carry.

  The function reads the options through the pointer \<^verbatim>\<open>packet\<close>, a copy of the session's
  \<^verbatim>\<open>LastRecvPacket\<close>, and the option \<^verbatim>\<open>blksize\<close> reallocates that buffer. The model therefore
  keeps what the pointer sees: \<open>o_packet\<close> is the block it points to (\<open>None\<close> once it is
  freed), and \<open>o_alias\<close> says whether it is still the session's buffer.
\<close>

section \<open>The operation\<close>

record options_state =
  o_world :: world
  o_sess :: session
  o_packet :: "bytes option"
  o_alias :: bool
  o_read :: nat
  o_oack :: bytes
  o_added :: nat

text \<open>The string found at an offset of \<^verbatim>\<open>packet\<close>.\<close>

definition read_string :: "bytes option \<Rightarrow> nat \<Rightarrow> bytes res" where
  "read_string packet off =
     (case packet of
        None \<Rightarrow> Inl UseAfterFree
      | Some buf \<Rightarrow> bindR (strlen_at buf off) (\<lambda>n. Inr (take n (drop off buf))))"

text \<open>
  \<^verbatim>\<open>OackBytesAdded += snprintf(&OackContent[OackBytesAdded], sizeof(OackContent) - OackBytesAdded,
  "%s%c%d", OptionName, 0, v)\<close>. The count grows by the length of the whole text, without a
  final NUL, even when it did not fit; a count beyond the array makes the next address and the
  next size wrong.
\<close>

definition snprintf_option :: "bytes \<Rightarrow> int \<Rightarrow> options_state \<Rightarrow> options_state res" where
  "snprintf_option OptionName v st =
     (let text = OptionName @ [NUL] @ dec_int v;
          room = length (o_oack st) - o_added st;
          stored = (if room = 0 then [] else take (room - 1) text @ [NUL])
      in bindR (guardR OutOfBounds (o_added st \<le> length (o_oack st))) (\<lambda>_.
         Inr (st\<lparr>o_oack := store_at (o_added st) stored (o_oack st),
               o_added := o_added st + length text\<rparr>)))"

definition opt_tsize :: "bytes \<Rightarrow> bytes \<Rightarrow> options_state \<Rightarrow> options_state res" where
  "opt_tsize OptionName OptionValue st =
     (let ProposedSize = atoi OptionValue in
      case hFile (o_sess st) of
        Some f \<Rightarrow>
          if ProposedSize = 0 then
            let f = fseek_end (disk (o_world st)) f;
                ProposedSize = to_int (ftell f);
                f = fseek_set f 0
            in snprintf_option OptionName ProposedSize (st\<lparr>o_sess := (o_sess st)\<lparr>hFile := Some f\<rparr>\<rparr>)
          else snprintf_option OptionName ProposedSize st
      | None \<Rightarrow> snprintf_option OptionName ProposedSize st)"

definition opt_timeout :: "AppConfig \<Rightarrow> bytes \<Rightarrow> bytes \<Rightarrow> options_state \<Rightarrow> options_state res" where
  "opt_timeout sConf OptionName OptionValue st =
     (let ProposedSize = atoi OptionValue in
      if ProposedSize \<ge> 1 \<and> ProposedSize \<le> 255 then
        let ProposedSize = (if ProposedSize < ClientTimeoutSecMin sConf
                            then ClientTimeoutSecMin sConf else ProposedSize);
            ProposedSize = (if ProposedSize > ClientTimeoutSecMax sConf
                            then ClientTimeoutSecMax sConf else ProposedSize);
            st = st\<lparr>o_sess := (o_sess st)\<lparr>PacketTimeout := ProposedSize\<rparr>\<rparr>
        in snprintf_option OptionName ProposedSize st
      else Inr st)"

text \<open>
  \<^verbatim>\<open>sess->LastRecvPacket = realloc(sess->LastRecvPacket, n)\<close>: a failure leaves the old block
  alone but stores NULL, a move frees the block \<^verbatim>\<open>packet\<close> still points to.
\<close>

definition realloc_packet :: "os \<Rightarrow> nat \<Rightarrow> options_state \<Rightarrow> options_state" where
  "realloc_packet os n st =
     (let s = o_sess st; k = calls (o_world st);
          (answer, w) = sys_realloc os (o_world st);
          old = (case LastRecvPacket s of None \<Rightarrow> [] | Some b \<Rightarrow> b);
          new = resized os k old n;
          st = st\<lparr>o_world := w\<rparr>
      in case answer of
           Realloc_fails \<Rightarrow> st\<lparr>o_sess := s\<lparr>LastRecvPacket := None\<rparr>, o_alias := False\<rparr>
         | Realloc_in_place \<Rightarrow>
             st\<lparr>o_sess := s\<lparr>LastRecvPacket := Some new\<rparr>,
               o_packet := if o_alias st then Some new else o_packet st\<rparr>
         | Realloc_moves \<Rightarrow>
             st\<lparr>o_sess := s\<lparr>LastRecvPacket := Some new\<rparr>,
               o_packet := if o_alias st then None else o_packet st,
               o_alias := False\<rparr>)"

definition opt_blksize :: "os \<Rightarrow> nat \<Rightarrow> bytes \<Rightarrow> options_state \<Rightarrow> options_state res" where
  "opt_blksize os nameOff OptionValue st =
     (let ProposedSize = atoi OptionValue in
      if ProposedSize \<ge> 8 \<and> ProposedSize \<le> 65464 then
        let st = st\<lparr>o_sess := (o_sess st)\<lparr>BlockSize := ProposedSize\<rparr>\<rparr>;
            st = realloc_packet os (nat (ProposedSize + TFTP_HEADER_SIZE + TFTP_PACKET_SAFETY_PAD)) st
        in bindR (read_string (o_packet st) nameOff) (\<lambda>OptionName.
           snprintf_option OptionName ProposedSize st)
      else Inr st)"

definition opt_windowsize :: "AppConfig \<Rightarrow> bytes \<Rightarrow> bytes \<Rightarrow> options_state \<Rightarrow> options_state res" where
  "opt_windowsize sConf OptionName OptionValue st =
     (let ProposedSize = atoi OptionValue in
      if ProposedSize \<ge> 1 \<and> ProposedSize \<le> 65535 \<and> ProposedSize \<ge> WindowSizeMin sConf then
        let ProposedSize = (if ProposedSize > WindowSizeMax sConf
                            then WindowSizeMax sConf else ProposedSize);
            st = st\<lparr>o_sess := (o_sess st)\<lparr>WindowSize := ProposedSize\<rparr>\<rparr>
        in snprintf_option OptionName ProposedSize st
      else Inr st)"

text \<open>The chain of comparisons, in the order of the source.\<close>

definition opt_dispatch ::
    "os \<Rightarrow> AppConfig \<Rightarrow> nat \<Rightarrow> bytes \<Rightarrow> bytes \<Rightarrow> options_state \<Rightarrow> options_state res" where
  "opt_dispatch os sConf nameOff OptionName OptionValue st =
     (if AllowTSizeOption sConf = 1 \<and> stricmp TFTP_OPT_TSIZE OptionName = 0
      then opt_tsize OptionName OptionValue st
      else if stricmp TFTP_OPT_TIMEOUT OptionName = 0 then opt_timeout sConf OptionName OptionValue st
      else if stricmp TFTP_OPT_BLKSIZE OptionName = 0 then opt_blksize os nameOff OptionValue st
      else if stricmp TFTP_OPT_WINDOSIZE OptionName = 0 then opt_windowsize sConf OptionName OptionValue st
      else Inr st)"

text \<open>
  One turn of the loop. \<open>None\<close> is the early \<^verbatim>\<open>return -1\<close> of
  \<^verbatim>\<open>EnsureHaveEnoughPacketBytes\<close>, which has set the error; the state is the one it leaves.
\<close>

definition too_small :: "options_state \<Rightarrow> options_state" where
  "too_small st = st\<lparr>o_sess := (o_sess st)\<lparr>Error := TFTP_ERR_ILLEGAL_OPERATION\<rparr>\<rparr>"

definition option_turn :: "os \<Rightarrow> AppConfig \<Rightarrow> nat \<Rightarrow> options_state \<Rightarrow> (bool \<times> options_state) res" where
  "option_turn os sConf sz st =
     (if sz < o_read st + 1 then Inr (False, too_small st)
      else let nameOff = o_read st in
        bindR (read_string (o_packet st) nameOff) (\<lambda>OptionName.
        let st = st\<lparr>o_read := o_read st + (length OptionName + 1)\<rparr> in
        if sz < o_read st + 1 then Inr (False, too_small st)
        else bindR (read_string (o_packet st) (o_read st)) (\<lambda>OptionValue.
             let st = st\<lparr>o_read := o_read st + (length OptionValue + 1)\<rparr> in
             bindR (opt_dispatch os sConf nameOff OptionName OptionValue st) (\<lambda>st.
             Inr (True, st)))))"

lemma snprintf_option_read: "snprintf_option n v st = Inr st' \<Longrightarrow> o_read st' = o_read st"
  by (auto simp: snprintf_option_def Let_def bindR_eq_Inr)

lemma realloc_packet_read [simp]: "o_read (realloc_packet os n st) = o_read st"
  by (simp add: realloc_packet_def Let_def split: prod.splits realloc_answer.splits)

lemma opt_dispatch_read: "opt_dispatch os sConf k n v st = Inr st' \<Longrightarrow> o_read st' = o_read st"
  by (auto simp: opt_dispatch_def opt_tsize_def opt_timeout_def opt_blksize_def opt_windowsize_def
      Let_def bindR_eq_Inr dest!: snprintf_option_read split: if_splits option.splits)

lemma option_turn_progress:
  "option_turn os sConf sz st = Inr (True, st') \<Longrightarrow> o_read st < o_read st'"
  by (auto simp: option_turn_def Let_def bindR_eq_Inr dest!: opt_dispatch_read split: if_splits)

text \<open>The loop \<^verbatim>\<open>while (bytesRead < size)\<close>; the flag is \<open>False\<close> after an early return.\<close>

function option_loop :: "os \<Rightarrow> AppConfig \<Rightarrow> nat \<Rightarrow> options_state \<Rightarrow> (bool \<times> options_state) res" where
  "option_loop os sConf sz st =
     (if o_read st < sz then
        bindR (option_turn os sConf sz st) (\<lambda>r.
          case r of (True, st') \<Rightarrow> option_loop os sConf sz st' | (False, st') \<Rightarrow> Inr (False, st'))
      else Inr (True, st))"
  by pat_completeness auto
termination
  by (relation "measure (\<lambda>(os, sConf, sz, st). sz - o_read st)") (auto dest!: option_turn_progress)

declare option_loop.simps [simp del]

text \<open>
  The function. \<^verbatim>\<open>OackContent\<close> is an array on the stack that nothing initialises. The results
  are the returned code, the world, the session and \<^verbatim>\<open>bytesRead\<close>.
\<close>

definition ParseOptions ::
    "os \<Rightarrow> AppConfig \<Rightarrow> nat \<Rightarrow> nat \<Rightarrow> world \<Rightarrow> session \<Rightarrow> (int \<times> world \<times> session \<times> nat) res" where
  "ParseOptions os sConf sz bytesRead w s =
     bindR (option_loop os sConf sz
         \<lparr>o_world = w, o_sess = s, o_packet = LastRecvPacket s, o_alias = True,
          o_read = bytesRead, o_oack = fresh_bytes os (calls w) (nat TFTP_PACKET_FULL_SIZE_SAFE), o_added = 2\<rparr>) (\<lambda>(ok, st).
     if \<not> ok then Inr (- 1, o_world st, o_sess st, o_read st)
     else if o_added st \<noteq> 2
     then bindR (SMSG_OACK os (o_oack st) (o_added st) (o_world st) (o_sess st)) (\<lambda>w.
          Inr (0, w, o_sess st, o_read st))
     else Inr (0, o_world st, o_sess st, o_read st))"

section \<open>What the negotiation may change\<close>

text \<open>
  The frame: the world only counts calls, and the session changes in the position of its file,
  its three negotiated numbers, its buffer and its error.
\<close>

definition same_file :: "FILE option \<Rightarrow> FILE option \<Rightarrow> bool" where
  "same_file f g \<longleftrightarrow> f = g \<or> f = map_option (f_pos_update (\<lambda>_. 0)) g"

lemma same_file_refl [simp]: "same_file f f"
  by (simp add: same_file_def)

lemma same_file_rewind [simp]: "same_file (Some (fseek_set (fseek_end d f) 0)) (Some f)"
  by (simp add: same_file_def fseek_set_def fseek_end_def)

lemma same_file_trans: "same_file f g \<Longrightarrow> same_file g h \<Longrightarrow> same_file f h"
  by (cases h) (auto simp: same_file_def)

lemma same_file_name: "same_file f g \<Longrightarrow> map_option f_name f = map_option f_name g"
  by (cases g) (auto simp: same_file_def)

definition opt_frame :: "options_state \<Rightarrow> options_state \<Rightarrow> bool" where
  "opt_frame st st' \<longleftrightarrow>
     (\<exists>k. o_world st' = (o_world st)\<lparr>calls := k\<rparr>) \<and>
     (\<exists>f tm bs ws buf e. o_sess st' = (o_sess st)\<lparr>hFile := f, Error := e, LastRecvPacket := buf,
         BlockSize := bs, PacketTimeout := tm, WindowSize := ws\<rparr> \<and>
         same_file f (hFile (o_sess st))) \<and>
     length (o_oack st') = length (o_oack st)"

lemma opt_frame_refl [simp]: "opt_frame st st"
proof -
  have "o_sess st = (o_sess st)\<lparr>hFile := hFile (o_sess st), Error := Error (o_sess st),
      LastRecvPacket := LastRecvPacket (o_sess st), BlockSize := BlockSize (o_sess st),
      PacketTimeout := PacketTimeout (o_sess st), WindowSize := WindowSize (o_sess st)\<rparr>"
    and "o_world st = (o_world st)\<lparr>calls := calls (o_world st)\<rparr>" by simp_all
  then show ?thesis unfolding opt_frame_def by (blast intro: same_file_refl)
qed

lemma opt_frame_trans: "opt_frame st1 st2 \<Longrightarrow> opt_frame st2 st3 \<Longrightarrow> opt_frame st1 st3"
  unfolding opt_frame_def by (elim exE conjE) (simp, blast intro: same_file_trans)

lemma opt_frameI:
  assumes "o_world st' = (o_world st)\<lparr>calls := k\<rparr>"
    and "o_sess st' = (o_sess st)\<lparr>hFile := f, Error := e, LastRecvPacket := buf,
         BlockSize := bs, PacketTimeout := tm, WindowSize := ws\<rparr>"
    and "same_file f (hFile (o_sess st))"
    and "length (o_oack st') = length (o_oack st)"
  shows "opt_frame st st'"
  using assms unfolding opt_frame_def by blast

text \<open>The negotiated numbers, relative to the session the options started from.\<close>

definition negotiated :: "AppConfig \<Rightarrow> session \<Rightarrow> session \<Rightarrow> bool" where
  "negotiated sConf s0 s \<longleftrightarrow>
     (BlockSize s = BlockSize s0 \<or> 8 \<le> BlockSize s \<and> BlockSize s \<le> 65464) \<and>
     (PacketTimeout s = PacketTimeout s0 \<or> PacketTimeout s = ClientTimeoutSecMax sConf \<or>
      ClientTimeoutSecMin sConf \<le> PacketTimeout s \<and> PacketTimeout s \<le> ClientTimeoutSecMax sConf) \<and>
     (WindowSize s = WindowSize s0 \<or> WindowSize s = WindowSizeMax sConf \<and> WindowSize s < 65535 \<or>
      1 \<le> WindowSize s \<and> WindowSize s \<le> 65535 \<and>
      WindowSizeMin sConf \<le> WindowSize s \<and> WindowSize s \<le> WindowSizeMax sConf)"

lemma negotiated_refl [simp]: "negotiated sConf s s"
  by (simp add: negotiated_def)

text \<open>The buffer keeps its size in step with \<^verbatim>\<open>BlockSize\<close> unless \<^verbatim>\<open>realloc\<close> fails.\<close>

definition realloc_ok :: "os \<Rightarrow> bool" where
  "realloc_ok os \<longleftrightarrow> (\<forall>k. os_realloc os k \<noteq> Realloc_fails)"

lemma snprintf_option_length:
  assumes "snprintf_option n v st = Inr st'"
  shows "length (o_oack st') = length (o_oack st)"
    and "o_added st' = o_added st + length n + 1 + length (dec_int v)"
    and "o_world st' = o_world st" "o_sess st' = o_sess st" "o_packet st' = o_packet st"
    and "o_alias st' = o_alias st"
  using assms by (auto simp: snprintf_option_def Let_def bindR_eq_Inr)

lemma snprintf_option_frame:
  assumes "snprintf_option n v st = Inr st'" and "opt_frame st0 st"
  shows "opt_frame st0 st'"
  using snprintf_option_length [OF assms(1)] assms(2) by (simp add: opt_frame_def)

text \<open>One option that was handled: the frame, the ranges and the buffer.\<close>

definition opt_step_ok :: "os \<Rightarrow> AppConfig \<Rightarrow> options_state \<Rightarrow> options_state \<Rightarrow> bool" where
  "opt_step_ok os sConf st st' \<longleftrightarrow> opt_frame st st' \<and>
     (\<forall>s0. negotiated sConf s0 (o_sess st) \<longrightarrow> negotiated sConf s0 (o_sess st')) \<and>
     (realloc_ok os \<longrightarrow> buffer_ok (o_sess st) \<longrightarrow> buffer_ok (o_sess st'))"

lemma opt_step_ok_refl [simp]: "opt_step_ok os sConf st st"
  by (simp add: opt_step_ok_def)

lemma opt_step_ok_trans:
  "opt_step_ok os sConf st1 st2 \<Longrightarrow> opt_step_ok os sConf st2 st3 \<Longrightarrow> opt_step_ok os sConf st1 st3"
  unfolding opt_step_ok_def using opt_frame_trans by blast

lemma opt_step_ok_snprintf:
  assumes "snprintf_option n v st = Inr st'" and "opt_step_ok os sConf st0 st"
  shows "opt_step_ok os sConf st0 st'"
  using snprintf_option_frame [OF assms(1)] snprintf_option_length [OF assms(1)] assms(2)
  by (simp add: opt_step_ok_def)

text \<open>A change of the session alone.\<close>

lemma opt_step_ok_sess:
  assumes "s' = (o_sess st)\<lparr>hFile := f, Error := e, PacketTimeout := tm, WindowSize := ws\<rparr>"
    and "same_file f (hFile (o_sess st))"
    and "tm = PacketTimeout (o_sess st) \<or> tm = ClientTimeoutSecMax sConf \<or>
      ClientTimeoutSecMin sConf \<le> tm \<and> tm \<le> ClientTimeoutSecMax sConf"
    and "ws = WindowSize (o_sess st) \<or> ws = WindowSizeMax sConf \<and> ws < 65535 \<or>
      1 \<le> ws \<and> ws \<le> 65535 \<and> WindowSizeMin sConf \<le> ws \<and> ws \<le> WindowSizeMax sConf"
  shows "opt_step_ok os sConf st (st\<lparr>o_sess := s'\<rparr>)"
proof -
  have "opt_frame st (st\<lparr>o_sess := s'\<rparr>)"
    using assms(1,2) by (intro opt_frameI [where k = "calls (o_world st)" and f = f and e = e
        and buf = "LastRecvPacket (o_sess st)" and bs = "BlockSize (o_sess st)" and tm = tm and ws = ws]) simp_all
  then show ?thesis
    using assms(1,3,4) by (auto simp: opt_step_ok_def negotiated_def buffer_ok_def)
qed

lemma opt_tsize_ok: "opt_tsize n v st = Inr st' \<Longrightarrow> opt_step_ok os sConf st st'"
  unfolding opt_tsize_def Let_def
  by (auto split: option.splits if_splits elim!: opt_step_ok_snprintf
      intro!: opt_step_ok_sess [where f = "Some (fseek_set (fseek_end d f) 0)" for d f, where e = "Error (o_sess st)"
        and tm = "PacketTimeout (o_sess st)" and ws = "WindowSize (o_sess st)"])

lemma opt_timeout_ok: "opt_timeout sConf n v st = Inr st' \<Longrightarrow> opt_step_ok os sConf st st'"
  unfolding opt_timeout_def Let_def
  by (auto split: if_splits elim!: opt_step_ok_snprintf
      intro!: opt_step_ok_sess [where f = "hFile (o_sess st)" and e = "Error (o_sess st)"
        and ws = "WindowSize (o_sess st)"])

lemma opt_windowsize_ok: "opt_windowsize sConf n v st = Inr st' \<Longrightarrow> opt_step_ok os sConf st st'"
  unfolding opt_windowsize_def Let_def
  by (auto split: if_splits elim!: opt_step_ok_snprintf
      intro!: opt_step_ok_sess [where f = "hFile (o_sess st)" and e = "Error (o_sess st)"
        and tm = "PacketTimeout (o_sess st)"])

lemma opt_blksize_ok: "opt_blksize os k v st = Inr st' \<Longrightarrow> opt_step_ok os sConf st st'"
proof (cases "8 \<le> atoi v \<and> atoi v \<le> 65464")
  case True
  assume run: "opt_blksize os k v st = Inr st'"
  define st1 where "st1 = st\<lparr>o_sess := (o_sess st)\<lparr>BlockSize := atoi v\<rparr>\<rparr>"
  define st2 where "st2 = realloc_packet os (nat (atoi v + TFTP_HEADER_SIZE + TFTP_PACKET_SAFETY_PAD)) st1"
  have w: "o_world st2 = (o_world st)\<lparr>calls := Suc (calls (o_world st))\<rparr>"
    and oack: "o_oack st2 = o_oack st"
    by (simp_all add: st2_def st1_def realloc_packet_def sys_realloc_def next_call_def Let_def
        split: realloc_answer.splits)
  obtain buf where s: "o_sess st2 = (o_sess st)\<lparr>BlockSize := atoi v, LastRecvPacket := buf\<rparr>"
    and buf: "realloc_ok os \<Longrightarrow> \<exists>b. buf = Some b \<and> int (length b) = atoi v + TFTP_HEADER_SIZE + TFTP_PACKET_SAFETY_PAD"
    using True by (cases "os_realloc os (calls (o_world st1))")
      (auto simp: st2_def st1_def realloc_packet_def sys_realloc_def Let_def realloc_ok_def tftp_consts)
  have "opt_frame st st2"
    using w s oack by (intro opt_frameI [where f = "hFile (o_sess st)" and e = "Error (o_sess st)"
        and tm = "PacketTimeout (o_sess st)" and ws = "WindowSize (o_sess st)"
        and buf = buf and bs = "atoi v"]) simp_all
  then have "opt_step_ok os sConf st st2"
    using True buf by (auto simp: opt_step_ok_def negotiated_def buffer_ok_def s)
  moreover obtain nm where "snprintf_option nm (atoi v) st2 = Inr st'"
    using run True by (auto simp: opt_blksize_def Let_def bindR_eq_Inr st2_def st1_def)
  ultimately show ?thesis using opt_step_ok_snprintf by blast
qed (auto simp: opt_blksize_def)

lemma opt_dispatch_ok: "opt_dispatch os sConf k n v st = Inr st' \<Longrightarrow> opt_step_ok os sConf st st'"
  unfolding opt_dispatch_def
  by (auto split: if_splits intro: opt_tsize_ok opt_timeout_ok opt_windowsize_ok opt_blksize_ok)

lemma opt_step_ok_read [simp]: "opt_step_ok os sConf st (st\<lparr>o_read := n\<rparr>)"
  by (simp add: opt_step_ok_def opt_frame_def) (metis opt_frame_def opt_frame_refl)

lemma opt_step_ok_too_small: "opt_step_ok os sConf st (too_small st)"
  unfolding too_small_def
  by (rule opt_step_ok_sess [where f = "hFile (o_sess st)" and e = TFTP_ERR_ILLEGAL_OPERATION
        and tm = "PacketTimeout (o_sess st)" and ws = "WindowSize (o_sess st)"]) simp_all

lemma option_turn_ok:
  assumes "option_turn os sConf sz st = Inr (b, st')" shows "opt_step_ok os sConf st st'"
proof -
  have d: "opt_step_ok os sConf st st'" if "opt_dispatch os sConf k n v (st\<lparr>o_read := m\<rparr>) = Inr st'" for k n v m
    using opt_step_ok_trans [OF opt_step_ok_read opt_dispatch_ok [OF that]] .
  have t: "opt_step_ok os sConf st (too_small (st\<lparr>o_read := m\<rparr>))" for m
    using opt_step_ok_trans [OF opt_step_ok_read opt_step_ok_too_small] .
  show ?thesis
    using assms d t opt_step_ok_too_small
    by (auto simp: option_turn_def Let_def bindR_eq_Inr split: if_splits)
qed

lemma option_loop_ok:
  "option_loop os sConf sz st = Inr (b, st') \<Longrightarrow> opt_step_ok os sConf st st'"
proof (induction os sConf sz st arbitrary: rule: option_loop.induct)
  case (1 os sConf sz st)
  show ?case
  proof (cases "o_read st < sz")
    case True
    with "1.prems" obtain c st1 where t: "option_turn os sConf sz st = Inr (c, st1)"
      and r: "if c then option_loop os sConf sz st1 = Inr (b, st') else st' = st1"
      by (subst (asm) option_loop.simps) (auto simp: bindR_eq_Inr split: prod.splits bool.splits)
    note s1 = option_turn_ok [OF t]
    show ?thesis
    proof (cases c)
      case c: True
      then have "opt_step_ok os sConf st1 st'" using "1.IH" [OF True t] r by simp
      with s1 show ?thesis by (rule opt_step_ok_trans)
    qed (use r s1 in simp)
  next
    case False
    with "1.prems" show ?thesis by (subst (asm) option_loop.simps) simp
  qed
qed

text \<open>What \<open>ParseOptions\<close> as a whole may change, and what it may send.\<close>

definition options_frame ::
    "AppConfig \<Rightarrow> world \<Rightarrow> session \<Rightarrow> (int \<times> bytes \<times> int) list \<Rightarrow> world \<Rightarrow> session \<Rightarrow> bool" where
  "options_frame sConf w s new w' s' \<longleftrightarrow>
     (\<exists>k. w' = w\<lparr>calls := k, sends := sends w @ new\<rparr>) \<and>
     (\<exists>f tm bs ws buf e. s' = s\<lparr>hFile := f, Error := e, LastRecvPacket := buf,
         BlockSize := bs, PacketTimeout := tm, WindowSize := ws\<rparr> \<and>
         same_file f (hFile s)) \<and>
     negotiated sConf s s' \<and>
     (new = [] \<or> (\<exists>tail r. new = [(CommSocket s, htons_bytes (op_value OP_OACK) @ tail, r)]))"

lemma options_frame_simps:
  assumes "options_frame sConf w s new w' s'"
  shows "disk w' = disk w" "sends w' = sends w @ new" "sqs w' = sqs w" "open_fds w' = open_fds w"
    "NextPortToUse w' = NextPortToUse w"
    "SelectedOperation s' = SelectedOperation s" "CommSocket s' = CommSocket s"
    "FirstBlockInWindow s' = FirstBlockInWindow s" "TransferDone s' = TransferDone s"
    "ReadDone s' = ReadDone s" "BytesHandled s' = BytesHandled s" "Client s' = Client s"
    "BlockNrInWindowReceived s' = BlockNrInWindowReceived s" "LastRecvPktSize s' = LastRecvPktSize s"
    "ServerSocket s' = ServerSocket s" "PortPrefered s' = PortPrefered s"
    "WindowRetryCount s' = WindowRetryCount s"
    "map_option f_name (hFile s') = map_option f_name (hFile s)"
    "negotiated sConf s s'" "same_file (hFile s') (hFile s)"
  using assms same_file_name by (auto simp: options_frame_def)

lemma options_frameI:
  assumes "w' = w\<lparr>calls := k, sends := sends w @ new\<rparr>"
    and "s' = s\<lparr>hFile := f, Error := e, LastRecvPacket := buf,
         BlockSize := bs, PacketTimeout := tm, WindowSize := ws\<rparr>"
    and "same_file f (hFile s)" and "negotiated sConf s s'"
    and "new = [] \<or> (\<exists>tail r. new = [(CommSocket s, htons_bytes (op_value OP_OACK) @ tail, r)])"
  shows "options_frame sConf w s new w' s'"
  using assms unfolding options_frame_def by blast

lemma SMSG_OACK_eq:
  assumes "SMSG_OACK os oack len w s = Inr w'" and "2 \<le> len" and "2 \<le> length oack"
  shows "\<exists>tail r. w' = w\<lparr>calls := Suc (calls w),
    sends := sends w @ [(CommSocket s, htons_bytes (op_value OP_OACK) @ tail, r)]\<rparr>"
proof -
  have "take len (store_at 0 (htons_bytes (op_value OP_OACK)) oack)
      = htons_bytes (op_value OP_OACK) @ take (len - 2) (drop 2 oack)"
    using assms(2) by (simp add: store_at_def numeral_2_eq_2)
  then show ?thesis
    using assms(1) by (auto simp: SMSG_OACK_def bindR_eq_Inr sys_send_def next_call_def Let_def)
qed

lemma option_loop_added:
  "option_loop os sConf sz st = Inr (b, st') \<Longrightarrow> o_added st \<le> o_added st'"
proof (induction os sConf sz st arbitrary: rule: option_loop.induct)
  case (1 os sConf sz st)
  have d: "o_added st \<le> o_added st'" if "opt_dispatch os sConf k n v (st\<lparr>o_read := m\<rparr>) = Inr st'" for k n v m st'
    using that by (auto simp: opt_dispatch_def opt_tsize_def opt_timeout_def opt_blksize_def opt_windowsize_def
        realloc_packet_def Let_def bindR_eq_Inr split: if_splits option.splits prod.splits realloc_answer.splits
        dest!: snprintf_option_length(2))
  have t: "o_added st \<le> o_added st1" if "option_turn os sConf sz st = Inr (c, st1)" for c st1
    using that d by (auto simp: option_turn_def too_small_def Let_def bindR_eq_Inr split: if_splits)
  show ?case
  proof (cases "o_read st < sz")
    case True
    with "1.prems" obtain c st1 where t1: "option_turn os sConf sz st = Inr (c, st1)"
      and r: "if c then option_loop os sConf sz st1 = Inr (b, st') else st' = st1"
      by (subst (asm) option_loop.simps) (auto simp: bindR_eq_Inr split: prod.splits bool.splits)
    show ?thesis
    proof (cases c)
      case c: True
      then have "o_added st1 \<le> o_added st'" using "1.IH" [OF True t1] r by simp
      with t [OF t1] show ?thesis by simp
    qed (use r t [OF t1] in simp)
  next
    case False
    with "1.prems" show ?thesis by (subst (asm) option_loop.simps) simp
  qed
qed

lemma ParseOptions_frame:
  assumes run: "ParseOptions os sConf sz n w s = Inr (r, w', s', n')"
  shows "\<exists>new. options_frame sConf w s new w' s'" and "realloc_ok os \<Longrightarrow> buffer_ok s \<Longrightarrow> buffer_ok s'"
proof -
  define st where "st = \<lparr>o_world = w, o_sess = s, o_packet = LastRecvPacket s, o_alias = True,
      o_read = n, o_oack = fresh_bytes os (calls w) (nat TFTP_PACKET_FULL_SIZE_SAFE), o_added = 2\<rparr>"
  from run obtain ok st' where l: "option_loop os sConf sz st = Inr (ok, st')"
    and s': "s' = o_sess st'"
    and w': "w' = o_world st' \<or> SMSG_OACK os (o_oack st') (o_added st') (o_world st') s' = Inr w'"
    by (auto simp: ParseOptions_def st_def bindR_eq_Inr split: if_splits)
  have st: "o_world st = w" "o_sess st = s" "length (o_oack st) = 518" "o_added st = 2"
    by (simp_all add: st_def tftp_consts)
  note good = option_loop_ok [OF l, unfolded opt_step_ok_def st]
  show "buffer_ok s'" if "realloc_ok os" "buffer_ok s" using good that s' by blast
  from good obtain k f tm bs ws buf e where
    fr: "o_world st' = w\<lparr>calls := k\<rparr>" "o_sess st' = s\<lparr>hFile := f, Error := e, LastRecvPacket := buf,
         BlockSize := bs, PacketTimeout := tm, WindowSize := ws\<rparr>"
      "same_file f (hFile s)" "length (o_oack st') = 518"
    unfolding opt_frame_def st by blast
  have ng: "negotiated sConf s s'" using good s' by simp
  have "options_frame sConf w s [] w' s'" if "w' = o_world st'"
    using that fr s' ng by (intro options_frameI [where k = k and f = f and e = e and buf = buf and bs = bs and tm = tm and ws = ws]) simp_all
  moreover have "\<exists>new. options_frame sConf w s new w' s'"
    if "SMSG_OACK os (o_oack st') (o_added st') (o_world st') s' = Inr w'"
  proof -
    have "2 \<le> o_added st'" using option_loop_added [OF l] st by simp
    from SMSG_OACK_eq [OF that this] fr(4) obtain tail rr where
      "w' = (o_world st')\<lparr>calls := Suc (calls (o_world st')),
         sends := sends (o_world st') @ [(CommSocket s', htons_bytes (op_value OP_OACK) @ tail, rr)]\<rparr>" by auto
    with fr s' ng have "options_frame sConf w s
        [(CommSocket s, htons_bytes (op_value OP_OACK) @ tail, rr)] w' s'"
      by (intro options_frameI [where k = "Suc k" and f = f and e = e and buf = buf and bs = bs
            and tm = tm and ws = ws]) simp_all
    then show ?thesis ..
  qed
  ultimately show "\<exists>new. options_frame sConf w s new w' s'" using w' by blast
qed

end
