(* ===== verification/Comm.thy ===== *)
theory Comm
  imports Session
begin

text \<open>
  The sockets of the server: \<^verbatim>\<open>SetSocketTimeOut\<close> of \<^verbatim>\<open>pthread_win.cpp\<close>, \<^verbatim>\<open>CreateUDPSocket\<close>
  and \<^verbatim>\<open>CreateCommUDPSocket\<close> of \<^verbatim>\<open>TFTP.cpp\<close>, with the allocation of the port numbers.
\<close>

section \<open>The operations\<close>

definition SetSocketTimeOut :: "os \<Rightarrow> world \<Rightarrow> int \<times> world" where
  "SetSocketTimeOut os w = sys_setsockopt os w"

text \<open>\<open>CreateUDPSocket\<close>: the returned error, the socket stored through the pointer and the world.\<close>

definition CreateUDPSocket :: "os \<Rightarrow> u16 \<Rightarrow> world \<Rightarrow> int \<times> int \<times> world" where
  "CreateUDPSocket os port w =
     (let (sockfd, w) = sys_socket os w in
      if sockfd = INVALID_SOCKET_2 then (- 1, sockfd, w)
      else let (err, w) = SetSocketTimeOut os w;
               (err, w) = sys_setsockopt os w;
               (err, w) = sys_bind os w sockfd port
           in (err, sockfd, w))"

text \<open>
  The next port: the sum and the remainder are computed in \<^verbatim>\<open>int\<close> and converted back to
  \<^verbatim>\<open>unsigned short\<close>.
\<close>

definition next_port :: "AppConfig \<Rightarrow> u16 \<Rightarrow> u16 res" where
  "next_port sConf p =
     bindR (c_rem (uint p + 1) (CommPortEnd sConf)) (\<lambda>r.
     let q = word_of_int r :: u16 in
     if uint q < CommPortStart sConf then Inr (word_of_int (CommPortStart sConf)) else Inr q)"

text \<open>
  One turn of the loop, after the socket was made: the bind, the connection to the client and
  the choice of the next port.
\<close>

definition try_port :: "os \<Rightarrow> AppConfig \<Rightarrow> world \<Rightarrow> session \<Rightarrow> (int \<times> world \<times> session) res" where
  "try_port os sConf w s =
     (let (err, w) = SetSocketTimeOut os w;
          port = (if PortPrefered s \<noteq> 0 then PortPrefered s else NextPortToUse w);
          (err, w) = sys_bind os w (CommSocket s) port;
          (err, w) =
            (if err \<noteq> 0 then (err, closesocket (CommSocket s) w)
             else if sa_family (Client s) \<noteq> AF_MAX then
               (let (err, w) = sys_connect os w (CommSocket s) (Client s)
                in if err \<noteq> 0 then (err, closesocket (CommSocket s) w) else (err, w))
             else (err, w))
      in if PortPrefered s \<noteq> 0
         then Inr (err, w, if err \<noteq> 0 then s\<lparr>PortPrefered := 0\<rparr> else s)
         else bindR (next_port sConf (NextPortToUse w)) (\<lambda>p.
              Inr (err, w\<lparr>NextPortToUse := p\<rparr>, s)))"

text \<open>The \<^verbatim>\<open>do\<close> loop; \<open>n\<close> is \<^verbatim>\<open>MAX_RETRY_CREATE_SOCKET - RetryCount\<close>.\<close>

fun create_loop :: "os \<Rightarrow> AppConfig \<Rightarrow> nat \<Rightarrow> int \<Rightarrow> world \<Rightarrow> session \<Rightarrow> (int \<times> world \<times> session) res" where
  "create_loop os sConf 0 err w s = Inr (err, w, s)"
| "create_loop os sConf (Suc n) err w s =
     (let (fd, w) = sys_socket os w; s = s\<lparr>CommSocket := fd\<rparr> in
      if fd = INVALID_SOCKET_2 then Inr (- 1, w, s)
      else bindR (try_port os sConf w s) (\<lambda>(err, w, s).
           if err \<noteq> 0 then create_loop os sConf n err w s else Inr (err, w, s)))"

definition CreateCommUDPSocket :: "os \<Rightarrow> AppConfig \<Rightarrow> world \<Rightarrow> session \<Rightarrow> (int \<times> world \<times> session) res" where
  "CreateCommUDPSocket os sConf w s =
     (if ServerSocket s \<noteq> INVALID_SOCKET_2 then
        let s = s\<lparr>CommSocket := ServerSocket s\<rparr>;
            s = s\<lparr>ServerSocket := INVALID_SOCKET_2\<rparr>;
            (err, w) = sys_connect os w (CommSocket s) (Client s)
        in Inr (err, if err \<noteq> 0 then closesocket (CommSocket s) w else w, s)
      else create_loop os sConf MAX_RETRY_CREATE_SOCKET 0 w s)"

section \<open>The frame\<close>

text \<open>
  Creating the communication socket touches the socket, the preferred port and the server
  socket of the session, and the descriptors and the next port of the world.
\<close>

definition comm_frame :: "world \<Rightarrow> session \<Rightarrow> world \<Rightarrow> session \<Rightarrow> bool" where
  "comm_frame w s w' s' \<longleftrightarrow>
     (\<exists>k fds p. w' = w\<lparr>calls := k, open_fds := fds, NextPortToUse := p\<rparr>) \<and>
     (\<exists>fd pp ss. s' = s\<lparr>CommSocket := fd, PortPrefered := pp, ServerSocket := ss\<rparr>)"

lemma comm_frameI:
  assumes "w' = w\<lparr>calls := k, open_fds := fds, NextPortToUse := p\<rparr>"
    and "s' = s\<lparr>CommSocket := fd, PortPrefered := pp, ServerSocket := ss\<rparr>"
  shows "comm_frame w s w' s'"
  using assms unfolding comm_frame_def by blast

lemma comm_frame_refl [simp]: "comm_frame w s w s"
  by (rule comm_frameI [where k = "calls w" and fds = "open_fds w" and p = "NextPortToUse w"
        and fd = "CommSocket s" and pp = "PortPrefered s" and ss = "ServerSocket s"]) simp_all

lemma comm_frame_trans:
  "comm_frame w s w1 s1 \<Longrightarrow> comm_frame w1 s1 w2 s2 \<Longrightarrow> comm_frame w s w2 s2"
  unfolding comm_frame_def by (elim exE conjE) (simp, blast)

lemma comm_frame_simps:
  assumes "comm_frame w s w' s'"
  shows "disk w' = disk w" "sends w' = sends w" "sqs w' = sqs w"
    "SelectedOperation s' = SelectedOperation s" "FirstBlockInWindow s' = FirstBlockInWindow s"
    "LastRecvPacket s' = LastRecvPacket s" "LastRecvPktSize s' = LastRecvPktSize s"
    "TransferDone s' = TransferDone s" "ReadDone s' = ReadDone s" "BytesHandled s' = BytesHandled s"
    "Client s' = Client s" "BlockNrInWindowReceived s' = BlockNrInWindowReceived s"
    "hFile s' = hFile s" "Error s' = Error s" "BlockSize s' = BlockSize s" "WindowSize s' = WindowSize s"
    "PacketTimeout s' = PacketTimeout s" "WindowRetryCount s' = WindowRetryCount s"
  using assms by (auto simp: comm_frame_def)

lemma comm_frame_inv: "comm_frame w s w' s' \<Longrightarrow> session_inv s \<Longrightarrow> session_inv s'"
  by (auto simp: comm_frame_def session_inv_defs)

text \<open>One attempt, split at what the system answered.\<close>

definition attempt :: "os \<Rightarrow> world \<Rightarrow> session \<Rightarrow> int \<times> nat" where
  "attempt os w s =
     (let port = (if PortPrefered s \<noteq> 0 then PortPrefered s else NextPortToUse w);
          b = os_bind os (Suc (calls w)) (CommSocket s) port;
          c = os_connect os (Suc (Suc (calls w))) (CommSocket s) (Client s)
      in if b \<noteq> 0 then (b, Suc (Suc (calls w)))
         else if sa_family (Client s) \<noteq> AF_MAX then (c, Suc (Suc (Suc (calls w))))
         else (0, Suc (Suc (calls w))))"

lemma try_port_eq:
  "try_port os sConf w s =
     (case attempt os w s of (err, k) \<Rightarrow>
        let w = w\<lparr>calls := k, open_fds := if err \<noteq> 0 then removeAll (CommSocket s) (open_fds w) else open_fds w\<rparr> in
        if PortPrefered s \<noteq> 0 then Inr (err, w, if err \<noteq> 0 then s\<lparr>PortPrefered := 0\<rparr> else s)
        else bindR (next_port sConf (NextPortToUse w)) (\<lambda>p. Inr (err, w\<lparr>NextPortToUse := p\<rparr>, s)))"
  by (simp add: try_port_def attempt_def SetSocketTimeOut_def sys_defs closesocket_def Let_def)

lemma try_port_frame:
  assumes "try_port os sConf w s = Inr (err, w', s')"
  shows "comm_frame w s w' s'" and "CommSocket s' = CommSocket s" and "Client s' = Client s"
    and "open_fds w' = (if err \<noteq> 0 then removeAll (CommSocket s) (open_fds w) else open_fds w)"
    and "calls w' \<le> calls w + 3"
proof -
  obtain e k where a: "attempt os w s = (e, k)" by fastforce
  have k: "k \<le> calls w + 3" using a by (auto simp: attempt_def Let_def split: if_splits)
  define fds where "fds = (if e \<noteq> 0 then removeAll (CommSocket s) (open_fds w) else open_fds w)"
  from assms a have err: "err = e" and
    w': "\<exists>p. w' = w\<lparr>calls := k, open_fds := fds, NextPortToUse := p\<rparr>" and
    s': "\<exists>pp. s' = s\<lparr>PortPrefered := pp\<rparr>"
    unfolding try_port_eq fds_def
    by (auto simp: Let_def bindR_eq_Inr split: if_splits intro: exI [of _ "NextPortToUse w"] exI [of _ "PortPrefered s"])
  from s' obtain pp where "s' = s\<lparr>CommSocket := CommSocket s, PortPrefered := pp, ServerSocket := ServerSocket s\<rparr>"
    by auto
  with w' show "comm_frame w s w' s'" unfolding comm_frame_def by blast
  show "CommSocket s' = CommSocket s" "Client s' = Client s" using s' by auto
  show "open_fds w' = (if err \<noteq> 0 then removeAll (CommSocket s) (open_fds w) else open_fds w)"
    using w' by (auto simp: err fds_def)
  show "calls w' \<le> calls w + 3" using w' k by auto
qed

section \<open>Ports\<close>

definition port_config_ok :: "AppConfig \<Rightarrow> bool" where
  "port_config_ok sConf \<longleftrightarrow>
     0 \<le> CommPortStart sConf \<and> CommPortStart sConf < CommPortEnd sConf \<and> CommPortEnd sConf \<le> 65535"

definition port_in_range :: "AppConfig \<Rightarrow> u16 \<Rightarrow> bool" where
  "port_in_range sConf p \<longleftrightarrow> CommPortStart sConf \<le> uint p \<and> uint p < CommPortEnd sConf"

lemma uint_u16_id: "0 \<le> i \<Longrightarrow> i \<le> 65535 \<Longrightarrow> uint (word_of_int i :: u16) = i"
  by (simp add: unsigned_of_int take_bit_eq_mod)

lemma next_port_in_range:
  assumes "port_config_ok sConf"
  shows "\<exists>q. next_port sConf p = Inr q \<and> port_in_range sConf q"
proof -
  let ?S = "CommPortStart sConf" let ?E = "CommPortEnd sConf"
  let ?r = "(uint p + 1) mod ?E"
  have S: "0 \<le> ?S" "?S < ?E" "?E \<le> 65535" using assms by (simp_all add: port_config_ok_def)
  then have "0 \<le> ?r" "?r < ?E" by simp_all
  then have "uint (word_of_int ?r :: u16) = ?r" by (intro uint_u16_id) (use S in linarith)+
  moreover have "uint (word_of_int ?S :: u16) = ?S" using S by (intro uint_u16_id) simp_all
  ultimately show ?thesis
    using S \<open>?r < ?E\<close> by (simp add: next_port_def port_in_range_def c_rem_nonneg)
qed

text \<open>Within the range the ports are handed out one after the other, and start again at the bottom.\<close>

lemma next_port_cycle:
  assumes "port_config_ok sConf" and "port_in_range sConf p"
  shows "next_port sConf p =
    Inr (if uint p + 1 < CommPortEnd sConf then p + 1 else word_of_int (CommPortStart sConf))"
proof -
  let ?S = "CommPortStart sConf" let ?E = "CommPortEnd sConf"
  have S: "0 \<le> ?S" "?S < ?E" "?E \<le> 65535" "?S \<le> uint p" "uint p < ?E"
    using assms by (simp_all add: port_config_ok_def port_in_range_def)
  show ?thesis
  proof (cases "uint p + 1 < ?E")
    case True
    then have "(uint p + 1) mod ?E = uint p + 1" using S by simp
    moreover have "uint (word_of_int (uint p + 1) :: u16) = uint p + 1"
      using True S by (intro uint_u16_id) simp_all
    moreover have "word_of_int (uint p + 1) = p + 1" by (simp add: word_uint_eq_iff uint_word_ariths)
    ultimately show ?thesis using S True by (simp add: next_port_def c_rem_nonneg)
  next
    case False
    then have "uint p + 1 = ?E" using S by simp
    then show ?thesis using S by (simp add: next_port_def c_rem_nonneg)
  qed
qed

section \<open>The loop\<close>

text \<open>\<^verbatim>\<open>socket\<close> returns a descriptor that is not open.\<close>

definition fresh_fds :: "os \<Rightarrow> world \<Rightarrow> bool" where
  "fresh_fds os w \<longleftrightarrow> (\<forall>k. os_socket os k \<notin> set (open_fds w))"

text \<open>
  What a run of the loop leaves: on success one more open descriptor, the session's; on failure
  none, and the session's number, when there is one, names a descriptor that is closed.
\<close>

definition comm_result :: "world \<Rightarrow> int \<Rightarrow> world \<Rightarrow> session \<Rightarrow> bool" where
  "comm_result w err w' s' \<longleftrightarrow>
     (if err = 0 then open_fds w' = open_fds w @ [CommSocket s'] \<and> CommSocket s' \<noteq> INVALID_SOCKET_2
      else open_fds w' = open_fds w \<and> CommSocket s' \<notin> set (open_fds w'))"

lemma create_loop_Suc:
  assumes "create_loop os sConf (Suc n) e w s = Inr (err, w', s')"
  obtains (invalid) "os_socket os (calls w) = - 1" "err = - 1" "w' = next_call w" "s' = s\<lparr>CommSocket := - 1\<rparr>"
  | (tried) fd e1 w0 w1 s1 where "fd = os_socket os (calls w)" "fd \<noteq> - 1"
      "w0 = (next_call w)\<lparr>open_fds := open_fds w @ [fd]\<rparr>"
      "try_port os sConf w0 (s\<lparr>CommSocket := fd\<rparr>) = Inr (e1, w1, s1)"
      "if e1 \<noteq> 0 then create_loop os sConf n e1 w1 s1 = Inr (err, w', s') else (err, w', s') = (e1, w1, s1)"
proof (cases "os_socket os (calls w) = - 1")
  case True
  with assms show thesis by (intro invalid) (auto simp: sys_socket_def tftp_consts Let_def)
next
  case False
  define fd where "fd = os_socket os (calls w)"
  define w0 where "w0 = (next_call w)\<lparr>open_fds := open_fds w @ [fd]\<rparr>"
  from False assms obtain e1 w1 s1 where "try_port os sConf w0 (s\<lparr>CommSocket := fd\<rparr>) = Inr (e1, w1, s1)"
    and "if e1 \<noteq> 0 then create_loop os sConf n e1 w1 s1 = Inr (err, w', s') else (err, w', s') = (e1, w1, s1)"
    by (auto simp: sys_socket_def tftp_consts Let_def bindR_eq_Inr w0_def fd_def split: if_splits)
  then show thesis using False by (intro tried [of fd w0]) (simp_all add: fd_def w0_def)
qed

declare create_loop.simps(2) [simp del]

lemma create_loop_frame:
  assumes "create_loop os sConf n e w s = Inr (err, w', s')"
  shows "comm_frame w s w' s' \<and> calls w' \<le> calls w + 4 * n"
  using assms
proof (induction n arbitrary: e w s)
  case (Suc n)
  from Suc.prems show ?case
  proof (cases rule: create_loop_Suc)
    case invalid
    have "comm_frame w s w' s'"
      using invalid by (intro comm_frameI [where k = "Suc (calls w)" and fds = "open_fds w" and p = "NextPortToUse w"
          and fd = "- 1" and pp = "PortPrefered s" and ss = "ServerSocket s"]) (simp_all add: next_call_def)
    then show ?thesis using invalid by simp
  next
    case (tried fd e1 w0 w1 s1)
    have "comm_frame w s w0 (s\<lparr>CommSocket := fd\<rparr>)"
      using tried by (intro comm_frameI [where k = "Suc (calls w)" and fds = "open_fds w @ [fd]" and p = "NextPortToUse w"
          and fd = fd and pp = "PortPrefered s" and ss = "ServerSocket s"]) (simp_all add: next_call_def)
    then have f1: "comm_frame w s w1 s1" using try_port_frame(1) [OF tried(4)] by (rule comm_frame_trans)
    have c1: "calls w1 \<le> calls w + 4" using try_port_frame(5) [OF tried(4)] tried(3) by simp
    show ?thesis
    proof (cases "e1 = 0")
      case False
      with tried(5) Suc.IH have "comm_frame w1 s1 w' s' \<and> calls w' \<le> calls w1 + 4 * n" by simp
      with f1 c1 show ?thesis using comm_frame_trans by auto
    qed (use tried(5) f1 c1 in simp)
  qed
qed simp

lemma create_loop_result:
  assumes "create_loop os sConf n e w s = Inr (err, w', s')" and "fresh_fds os w"
    and "n = 0 \<Longrightarrow> e \<noteq> 0 \<and> CommSocket s \<notin> set (open_fds w)" and "- 1 \<notin> set (open_fds w)"
  shows "comm_result w err w' s'"
  using assms
proof (induction n arbitrary: e w s)
  case 0
  then show ?case by (auto simp: comm_result_def)
next
  case (Suc n)
  from Suc.prems(1) show ?case
  proof (cases rule: create_loop_Suc)
    case invalid
    then show ?thesis using Suc.prems(4) by (simp add: comm_result_def)
  next
    case (tried fd e1 w0 w1 s1)
    note fr = try_port_frame [OF tried(4)]
    have fd: "fd \<notin> set (open_fds w)" using Suc.prems(2) tried(1) by (simp add: fresh_fds_def)
    show ?thesis
    proof (cases "e1 = 0")
      case True
      with tried fr show ?thesis by (simp add: comm_result_def tftp_consts)
    next
      case False
      then have fds: "open_fds w1 = open_fds w" using fr(4) fd tried(3) by simp
      have "create_loop os sConf n e1 w1 s1 = Inr (err, w', s')" using tried(5) False by simp
      then have "comm_result w1 err w' s'"
        by (rule Suc.IH) (use Suc.prems(2,4) fds fd fr(2) False in \<open>simp_all add: fresh_fds_def\<close>)
      then show ?thesis using fds by (auto simp: comm_result_def split: if_splits)
    qed
  qed
qed

lemma create_loop_defined:
  "CommPortEnd sConf \<noteq> 0 \<Longrightarrow> \<exists>r. create_loop os sConf n e w s = Inr r"
proof (induction n arbitrary: e w s)
  case (Suc n)
  have t: "\<exists>e1 w1 s1. try_port os sConf w s = Inr (e1, w1, s1)" for w s
    using Suc.prems by (auto simp: try_port_eq next_port_def c_rem_def Let_def split: prod.splits)
  show ?case
    unfolding create_loop.simps using Suc.IH [OF Suc.prems] t
    by (auto simp: Let_def bindR_eq_Inr split: prod.splits) (metis prod_cases3)
qed simp

lemma try_port_ports:
  assumes "try_port os sConf w s = Inr (err, w', s')"
    and "port_config_ok sConf" and "port_in_range sConf (NextPortToUse w)"
  shows "port_in_range sConf (NextPortToUse w')"
proof -
  obtain e k where a: "attempt os w s = (e, k)" by fastforce
  obtain q where q: "next_port sConf (NextPortToUse w) = Inr q" "port_in_range sConf q"
    using next_port_in_range [OF assms(2)] by blast
  from assms(1,3) a q show ?thesis by (auto simp: try_port_eq Let_def split: if_splits)
qed

lemma create_loop_ports:
  assumes "create_loop os sConf n e w s = Inr (err, w', s')"
    and "port_config_ok sConf" and "port_in_range sConf (NextPortToUse w)"
  shows "port_in_range sConf (NextPortToUse w')"
  using assms
proof (induction n arbitrary: e w s)
  case (Suc n)
  from Suc.prems(1) show ?case
  proof (cases rule: create_loop_Suc)
    case (tried fd e1 w0 w1 s1)
    have "port_in_range sConf (NextPortToUse w1)"
      using tried(3) Suc.prems(2,3) by (intro try_port_ports [OF tried(4)]) simp_all
    with tried(5) Suc show ?thesis by (auto split: if_splits)
  qed (use Suc.prems in simp)
qed simp

section \<open>The whole operation\<close>

lemma CreateComm_frame:
  assumes "CreateCommUDPSocket os sConf w s = Inr (err, w', s')"
  shows "comm_frame w s w' s'" and "calls w' \<le> calls w + 400"
proof -
  have "comm_frame w s w' s' \<and> calls w' \<le> calls w + 400"
  proof (cases "ServerSocket s = - 1")
    case True
    with assms show ?thesis
      using create_loop_frame by (fastforce simp: CreateCommUDPSocket_def tftp_consts)
  next
    case False
    define fds where "fds = (if err \<noteq> 0 then removeAll (ServerSocket s) (open_fds w) else open_fds w)"
    from False assms have "s' = s\<lparr>CommSocket := ServerSocket s, PortPrefered := PortPrefered s, ServerSocket := - 1\<rparr>"
      and w': "w' = w\<lparr>calls := Suc (calls w), open_fds := fds, NextPortToUse := NextPortToUse w\<rparr>"
      by (auto simp: CreateCommUDPSocket_def tftp_consts sys_defs closesocket_def fds_def Let_def)
    then have "comm_frame w s w' s'" unfolding comm_frame_def by blast
    with w' show ?thesis by simp
  qed
  then show "comm_frame w s w' s'" "calls w' \<le> calls w + 400" by simp_all
qed

lemma CreateComm_defined:
  "CommPortEnd sConf \<noteq> 0 \<Longrightarrow> \<exists>err w' s'. CreateCommUDPSocket os sConf w s = Inr (err, w', s')"
  using create_loop_defined [of sConf os MAX_RETRY_CREATE_SOCKET 0 w s]
  by (auto simp: CreateCommUDPSocket_def Let_def split: prod.splits)

lemma CreateComm_result:
  assumes "CreateCommUDPSocket os sConf w s = Inr (err, w', s')" and "ServerSocket s = INVALID_SOCKET_2"
    and "fresh_fds os w" and "- 1 \<notin> set (open_fds w)"
  shows "comm_result w err w' s'"
  using assms create_loop_result [of os sConf MAX_RETRY_CREATE_SOCKET 0 w s]
  by (simp add: CreateCommUDPSocket_def tftp_consts)

lemma CreateComm_ports:
  assumes "CreateCommUDPSocket os sConf w s = Inr (err, w', s')"
    and "port_config_ok sConf" and "port_in_range sConf (NextPortToUse w)"
  shows "port_in_range sConf (NextPortToUse w')"
proof (cases "ServerSocket s = - 1")
  case True
  with assms create_loop_ports show ?thesis by (fastforce simp: CreateCommUDPSocket_def tftp_consts)
next
  case False
  with assms show ?thesis
    by (auto simp: CreateCommUDPSocket_def tftp_consts sys_defs closesocket_def Let_def)
qed

end
