(* ===== verification/Handlers.thy ===== *)
theory Handlers
  imports Options Comm
begin

text \<open>
  The packets the server understands: \<^verbatim>\<open>ParsePacket\<close> and the handlers \<^verbatim>\<open>CMSG_RRQ\<close>,
  \<^verbatim>\<open>CMSG_WRQ\<close>, \<^verbatim>\<open>CMSG_ACK\<close>, \<^verbatim>\<open>CMSG__DATA\<close> and \<^verbatim>\<open>CMSG_ERROR\<close> of \<^verbatim>\<open>TFTP.cpp\<close>. The only
  caller passes \<^verbatim>\<open>sess->LastRecvPacket\<close> and \<^verbatim>\<open>sess->LastRecvPktSize\<close>, so the packet is the
  buffer of the session and \<open>sz\<close> the number of bytes received. A handler returns its C result,
  the world and the session.
\<close>

type_synonym outcome = "(int \<times> world \<times> session) res"

section \<open>Reading the packet\<close>

definition packet_buf :: "session \<Rightarrow> bytes res" where
  "packet_buf s = (case LastRecvPacket s of None \<Rightarrow> Inl NullDereference | Some buf \<Rightarrow> Inr buf)"

text \<open>\<^verbatim>\<open>ntohs(*(unsigned short*)&packet[k])\<close>.\<close>

definition packet_u16 :: "session \<Rightarrow> nat \<Rightarrow> u16 res" where
  "packet_u16 s k = bindR (packet_buf s) (\<lambda>buf.
     bindR (guardR OutOfBounds (k + 2 \<le> length buf)) (\<lambda>_.
     Inr (ntohs_bytes (buf ! k) (buf ! (k + 1)))))"

text \<open>The string at \<^verbatim>\<open>&packet[k]\<close>, whose length \<^verbatim>\<open>strlen\<close> measures.\<close>

definition packet_str :: "session \<Rightarrow> nat \<Rightarrow> bytes res" where
  "packet_str s k = bindR (packet_buf s) (\<lambda>buf.
     bindR (strlen_at buf k) (\<lambda>n. Inr (take n (drop k buf))))"

text \<open>\<^verbatim>\<open>packet[size] = 0\<close>.\<close>

definition terminate_packet :: "nat \<Rightarrow> session \<Rightarrow> session res" where
  "terminate_packet sz s = bindR (packet_buf s) (\<lambda>buf.
     bindR (guardR OutOfBounds (sz < length buf)) (\<lambda>_.
     Inr (s\<lparr>LastRecvPacket := Some (buf[sz := NUL])\<rparr>)))"

text \<open>The failing branch of \<^verbatim>\<open>EnsureHaveEnoughPacketBytes\<close>.\<close>

definition EnsureHaveEnoughPacketBytes :: "nat \<Rightarrow> nat \<Rightarrow> world \<Rightarrow> session \<Rightarrow> (session \<Rightarrow> outcome) \<Rightarrow> outcome" where
  "EnsureHaveEnoughPacketBytes packetSize needSize w s continue =
     (if packetSize < needSize then Inr (- 1, w, s\<lparr>Error := TFTP_ERR_ILLEGAL_OPERATION\<rparr>)
      else continue s)"

text \<open>The loop over a list of allowed names, which stops at the first one that compares equal.\<close>

fun FileIsAllowed :: "(bytes \<Rightarrow> bytes \<Rightarrow> int) \<Rightarrow> bytes \<Rightarrow> bytes list \<Rightarrow> bool" where
  "FileIsAllowed compare FileName [] = False"
| "FileIsAllowed compare FileName (itr # rest) =
     (if compare FileName itr = 0 then True else FileIsAllowed compare FileName rest)"

section \<open>Requests\<close>

definition CMSG_RRQ :: "os \<Rightarrow> AppConfig \<Rightarrow> nat \<Rightarrow> world \<Rightarrow> session \<Rightarrow> outcome" where
  "CMSG_RRQ os sConf sz w s =
     (let bytesRead = 2 in
      if SelectedOperation s \<noteq> TFTP_OP_NOT_INITIALIZED then Inr (- 1, w, s)
      else bindR (terminate_packet sz s) (\<lambda>s.
      EnsureHaveEnoughPacketBytes sz (bytesRead + 1) w s (\<lambda>s.
      bindR (packet_str s bytesRead) (\<lambda>FileName.
      let bytesRead = bytesRead + (length FileName + 1) in
      EnsureHaveEnoughPacketBytes sz (bytesRead + 1) w s (\<lambda>s.
      bindR (packet_str s bytesRead) (\<lambda>Mode.
      let bytesRead = bytesRead + (length Mode + 1) in
      bindR (CreateCommUDPSocket os sConf w s) (\<lambda>(err, w, s).
      if \<not> FileIsAllowed stricmp FileName (DownloadableFileNames sConf)
      then Inr (- 1, w, s\<lparr>Error := TFTP_ERR_FILE_NOT_FOUND\<rparr>)
      else let (f, w) = sys_fopen_s os w FileName Mode_rb;
               s = s\<lparr>hFile := f\<rparr>
           in if f = None then Inr (- 1, w, s\<lparr>Error := TFTP_ERR_FILE_NOT_FOUND\<rparr>)
              else bindR (ParseOptions os sConf sz bytesRead w s) (\<lambda>(r, w, s, bytesRead).
                   let s = s\<lparr>SelectedOperation := TFTP_OP_SERVER_TO_CLIENT\<rparr>;
                       s = s\<lparr>FirstBlockInWindow := 1\<rparr>
                   in bindR (SMSG_DATA os sConf 0 w s) (\<lambda>(w, s). Inr (0, w, s))))))))))"

definition CMSG_WRQ :: "os \<Rightarrow> AppConfig \<Rightarrow> nat \<Rightarrow> world \<Rightarrow> session \<Rightarrow> outcome" where
  "CMSG_WRQ os sConf sz w s =
     (let bytesRead = 2 in
      if SelectedOperation s \<noteq> TFTP_OP_NOT_INITIALIZED then Inr (- 1, w, s)
      else bindR (terminate_packet sz s) (\<lambda>s.
      EnsureHaveEnoughPacketBytes sz (bytesRead + 1) w s (\<lambda>s.
      bindR (packet_str s bytesRead) (\<lambda>FileName.
      let bytesRead = bytesRead + (length FileName + 1) in
      EnsureHaveEnoughPacketBytes sz (bytesRead + 1) w s (\<lambda>s.
      bindR (packet_str s bytesRead) (\<lambda>Mode.
      let bytesRead = bytesRead + (length Mode + 1) in
      bindR (CreateCommUDPSocket os sConf w s) (\<lambda>(err, w, s).
      if \<not> FileIsAllowed strcmp FileName (UploadableFileNames sConf)
      then Inr (- 1, w, s\<lparr>Error := TFTP_ERR_FILE_NOT_FOUND\<rparr>)
      else let (w, s) =
                 (if NoFileWriteOnServer sConf = 0
                  then (let (f, w) = sys_fopen_s os w FileName Mode_wb in (w, s\<lparr>hFile := f\<rparr>))
                  else (w, s))
           in if NoFileWriteOnServer sConf = 0 \<and> hFile s = None
              then Inr (- 1, w, s\<lparr>Error := TFTP_ERR_FILE_NOT_FOUND\<rparr>)
              else bindR (ParseOptions os sConf sz bytesRead w s) (\<lambda>(r, w, s, bytesRead).
                   let s = s\<lparr>SelectedOperation := TFTP_OP_CLIENT_TO_SERVER\<rparr>;
                       (ok, w) = sys_malloc os w
                   in bindR (guardR NullDereference (ok \<and> 0 \<le> WindowSize s)) (\<lambda>_.
                   let s = s\<lparr>BlockNrInWindowReceived := Some (replicate (nat (WindowSize s)) 0)\<rparr>;
                       s = s\<lparr>FirstBlockInWindow := 0\<rparr>
                   in bindR (SMSG_ACK_Block os 1 w s) (\<lambda>(w, s). Inr (0, w, s)))))))))))"

section \<open>Transfer\<close>

definition CMSG_ACK :: "os \<Rightarrow> AppConfig \<Rightarrow> nat \<Rightarrow> world \<Rightarrow> session \<Rightarrow> outcome" where
  "CMSG_ACK os sConf sz w s =
     (if SelectedOperation s \<noteq> TFTP_OP_SERVER_TO_CLIENT
      then Inr (- 1, w, s\<lparr>Error := TFTP_ERR_ILLEGAL_OPERATION\<rparr>)
      else EnsureHaveEnoughPacketBytes sz 4 w s (\<lambda>s.
      bindR (packet_u16 s 2) (\<lambda>nr.
      let ACKBlockNr = uint nr in
      bindR (c_int (FirstBlockInWindow s + WindowSize s)) (\<lambda>k.
      bindR (c_int (k - 1)) (\<lambda>ExpectedACKBlockNr.
      if ACKBlockNr < FirstBlockInWindow s \<or> ACKBlockNr > ExpectedACKBlockNr then Inr (- 1, w, s)
      else let s = s\<lparr>FirstBlockInWindow := ACKBlockNr + 1\<rparr> in
           if ReadDone s = 1 then Inr (0, w, s\<lparr>TransferDone := 1\<rparr>)
           else bindR (SMSG_DATA os sConf 0 w s) (\<lambda>(w, s). Inr (0, w, s)))))))"

text \<open>Storing one block of an upload in the file, when there is one.\<close>

definition store_block :: "os \<Rightarrow> nat \<Rightarrow> int \<Rightarrow> world \<Rightarrow> session \<Rightarrow> (world \<times> session) res" where
  "store_block os sz BlockNr w s =
     (case hFile s of
        None \<Rightarrow> Inr (w, s)
      | Some f \<Rightarrow>
          bindR (if WindowSize s \<noteq> 1
                 then bindR (c_int ((BlockNr - 1) * BlockSize s)) (\<lambda>off. Inr (fseek_set f off))
                 else Inr f) (\<lambda>f.
          bindR (packet_buf s) (\<lambda>buf.
          bindR (guardR OutOfBounds (sz \<le> length buf)) (\<lambda>_.
          let (w, f) = sys_fwrite os w f (drop 4 (take sz buf))
          in Inr (w, s\<lparr>hFile := Some f\<rparr>)))))"

definition CMSG__DATA :: "os \<Rightarrow> AppConfig \<Rightarrow> nat \<Rightarrow> world \<Rightarrow> session \<Rightarrow> outcome" where
  "CMSG__DATA os sConf sz w s =
     (if SelectedOperation s \<noteq> TFTP_OP_CLIENT_TO_SERVER
      then Inr (- 1, w, s\<lparr>Error := TFTP_ERR_ILLEGAL_OPERATION\<rparr>)
      else EnsureHaveEnoughPacketBytes sz 4 w s (\<lambda>s.
      let s = s\<lparr>BytesHandled := BytesHandled s + of_nat sz\<rparr> in
      if BytesHandled s > word_of_int (KillConnectionAfterxBytesReceived sConf)
         \<and> KillConnectionAfterxBytesReceived sConf \<noteq> 0
      then Inr (- 1, w, s\<lparr>Error := TFTP_ERR_DISK_FULL\<rparr>)
      else bindR (packet_u16 s 2) (\<lambda>nr.
      let BlockNr = uint nr in
      if BlockNr \<le> FirstBlockInWindow s then Inr (- 1, w, s)
      else bindR (c_rem (BlockNr - 1) (WindowSize s)) (\<lambda>BlockIndexInWindow.
      bindR (window_array s) (\<lambda>arr.
      bindR (guardR OutOfBounds (0 \<le> BlockIndexInWindow \<and> nat BlockIndexInWindow < length arr)) (\<lambda>_.
      if arr ! nat BlockIndexInWindow \<noteq> 0 then Inr (- 1, w, s)
      else let s = s\<lparr>BlockNrInWindowReceived :=
                     Some (arr[nat BlockIndexInWindow := int sz - TFTP_HEADER_SIZE])\<rparr> in
           bindR (if int sz > TFTP_HEADER_SIZE
                  then bindR (store_block os sz BlockNr w s) (\<lambda>(w, s).
                       Inr (w, s\<lparr>WindowRetryCount := 0\<rparr>))
                  else Inr (w, s)) (\<lambda>(w, s).
           let s = (if int sz < BlockSize s + TFTP_HEADER_SIZE then s\<lparr>TransferDone := 1\<rparr> else s)
           in bindR (SMSG_ACK_Block os 0 w s) (\<lambda>(w, s). Inr (0, w, s)))))))))"

definition CMSG_ERROR :: "nat \<Rightarrow> world \<Rightarrow> session \<Rightarrow> outcome" where
  "CMSG_ERROR sz w s =
     (let bytesRead = 2 in
      EnsureHaveEnoughPacketBytes sz (bytesRead + 2) w s (\<lambda>s.
      bindR (packet_u16 s 2) (\<lambda>ErrorCode.
      let bytesRead = bytesRead + 2 in
      EnsureHaveEnoughPacketBytes sz (bytesRead + 1) w s (\<lambda>s.
      bindR (packet_str s 4) (\<lambda>ErrorMessage.
      bindR (err_cast ErrorCode) (\<lambda>e.
      Inr (0, w, s\<lparr>Error := e\<rparr>)))))))"

section \<open>Dispatch\<close>

definition ParsePacket :: "os \<Rightarrow> AppConfig \<Rightarrow> nat \<Rightarrow> world \<Rightarrow> session \<Rightarrow> outcome" where
  "ParsePacket os sConf sz w s =
     EnsureHaveEnoughPacketBytes sz 2 w s (\<lambda>s.
     bindR (packet_u16 s 0) (\<lambda>op.
     if op = op_value OP_RRQ then CMSG_RRQ os sConf sz w s
     else if op = op_value OP_WRQ then CMSG_WRQ os sConf sz w s
     else if op = op_value OP_ACK then CMSG_ACK os sConf sz w s
     else if op = op_value OP_DATA then CMSG__DATA os sConf sz w s
     else if op = op_value OP_ERROR then CMSG_ERROR sz w s
     else Inr (0, w, s\<lparr>Error := TFTP_ERR_UNDEFINED\<rparr>)))"

section \<open>Every packet keeps the session invariant\<close>

definition conf_ok :: "AppConfig \<Rightarrow> bool" where
  "conf_ok sConf \<longleftrightarrow> 1 \<le> WindowSizeMax sConf"

lemma session_inv_other [simp]:
  "session_inv (s\<lparr>Error := e\<rparr>) = session_inv s"
  "session_inv (s\<lparr>TransferDone := i\<rparr>) = session_inv s"
  "session_inv (s\<lparr>ReadDone := i\<rparr>) = session_inv s"
  "session_inv (s\<lparr>BytesHandled := b\<rparr>) = session_inv s"
  "session_inv (s\<lparr>WindowRetryCount := i\<rparr>) = session_inv s"
  "session_inv (s\<lparr>LastActivityStamp := t\<rparr>) = session_inv s"
  "session_inv (s\<lparr>LastRecvPktSize := i\<rparr>) = session_inv s"
  "session_inv (s\<lparr>CommSocket := i\<rparr>) = session_inv s"
  "session_inv (s\<lparr>ServerSocket := i\<rparr>) = session_inv s"
  "session_inv (s\<lparr>Client := a\<rparr>) = session_inv s"
  by (simp_all add: session_inv_defs)

lemma Ensure_cases:
  assumes "EnsureHaveEnoughPacketBytes p n w s k = Inr x"
  obtains (short) "p < n" "x = (- 1, w, s\<lparr>Error := TFTP_ERR_ILLEGAL_OPERATION\<rparr>)"
  | (enough) "n \<le> p" "k s = Inr x"
  using assms by (auto simp: EnsureHaveEnoughPacketBytes_def split: if_splits)

lemma terminate_packet_inv:
  "terminate_packet sz s = Inr s' \<Longrightarrow> session_inv s \<Longrightarrow> session_inv s'"
  by (auto simp: terminate_packet_def packet_buf_def bindR_eq_Inr session_inv_defs split: option.splits)

lemma ACK_Block_inv:
  assumes "SMSG_ACK_Block os resend w s = Inr (w', s')" and inv: "session_inv s"
    and up: "SelectedOperation s = TFTP_OP_CLIENT_TO_SERVER"
  shows "session_inv s'"
proof -
  obtain arr where arr: "BlockNrInWindowReceived s = Some arr" "int (length arr) = WindowSize s"
    using inv up by (auto simp: session_inv_defs)
  define nr where "nr = (word_of_int (FirstBlockInWindow s + received_prefix arr) :: u16)"
  have "uint nr < 65536" using unsigned_less [of nr, where ?'a = int] by simp
  then show ?thesis
    using assms(1) inv up arr(2)
    unfolding SMSG_ACK_Block_eq [OF arr] nr_def [symmetric]
    by (auto simp: sys_send_def sys_tick_def Let_def session_inv_defs split: if_splits)
qed

lemma SMSG_DATA_inv:
  assumes "SMSG_DATA os sConf resend w s = Inr (w', s')" and inv: "session_inv s"
    and pos: "1 \<le> FirstBlockInWindow s"
  shows "session_inv s'"
proof (cases "hFile s")
  case None
  with assms show ?thesis by simp
next
  case (Some f)
  have "ranges_ok s" using inv by (simp add: session_inv_def)
  with SMSG_DATA_frame [OF assms(1) Some _ pos] data_frame_inv inv show ?thesis by blast
qed

text \<open>The session right after its options were parsed.\<close>

lemma options_frame_ranges:
  assumes "options_frame sConf w s new w' s'" and "conf_ok sConf" and "ranges_ok s"
  shows "ranges_ok s'"
  using options_frame_simps(8,19) [OF assms(1)] assms(2,3)
  by (auto simp: negotiated_def ranges_ok_def conf_ok_def)

lemma ParseOptions_session:
  assumes "ParseOptions os sConf sz n w s = Inr (r, w', s', n')" and "session_inv s"
    and "conf_ok sConf" and "realloc_ok os"
  shows "buffer_ok s'" and "ranges_ok s'" and "hFile s' = None \<longleftrightarrow> hFile s = None"
proof -
  obtain new where fr: "options_frame sConf w s new w' s'"
    using ParseOptions_frame(1) [OF assms(1)] by blast
  show "buffer_ok s'" using ParseOptions_frame(2) [OF assms(1)] assms by (simp add: session_inv_def)
  show "ranges_ok s'" using options_frame_ranges [OF fr] assms by (simp add: session_inv_def)
  show "hFile s' = None \<longleftrightarrow> hFile s = None"
    using options_frame_simps(18) [OF fr] by (metis option.map_disc_iff)
qed

section \<open>Requests, split at what they found\<close>

text \<open>
  What a request that was accepted went through: the common prefix of \<open>CMSG_RRQ\<close> and
  \<open>CMSG_WRQ\<close>, with the name it read, the offset of its options and the state after the
  communication socket was created.
\<close>

definition request_prefix ::
    "os \<Rightarrow> AppConfig \<Rightarrow> nat \<Rightarrow> world \<Rightarrow> session \<Rightarrow> bytes \<Rightarrow> nat \<Rightarrow> int \<Rightarrow> world \<Rightarrow> session \<Rightarrow> bool" where
  "request_prefix os sConf sz w s FileName n err w1 s1 \<longleftrightarrow>
     SelectedOperation s = TFTP_OP_NOT_INITIALIZED \<and>
     (\<exists>s0 Mode. terminate_packet sz s = Inr s0 \<and> packet_str s0 2 = Inr FileName \<and>
        length FileName + 4 \<le> sz \<and> packet_str s0 (length FileName + 3) = Inr Mode \<and>
        n = length FileName + length Mode + 4 \<and>
        CreateCommUDPSocket os sConf w s0 = Inr (err, w1, s1))"

lemma request_prefix_inv:
  assumes "request_prefix os sConf sz w s FileName n err w1 s1" and "session_inv s"
  shows "session_inv s1"
  using assms CreateComm_frame(1) comm_frame_inv terminate_packet_inv
  unfolding request_prefix_def by blast

lemma terminate_packet_eq:
  "terminate_packet sz s = Inr s' \<longleftrightarrow> (\<exists>buf. LastRecvPacket s = Some buf \<and> sz < length buf \<and>
     s' = s\<lparr>LastRecvPacket := Some (buf[sz := NUL])\<rparr>)"
  by (auto simp: terminate_packet_def packet_buf_def bindR_eq_Inr split: option.splits)

lemma request_prefix_frame:
  assumes "request_prefix os sConf sz w s FileName n err w1 s1"
  shows "SelectedOperation s1 = TFTP_OP_NOT_INITIALIZED" "disk w1 = disk w" "sends w1 = sends w"
    "sqs w1 = sqs w" "hFile s1 = hFile s" "Error s1 = Error s" "BlockSize s1 = BlockSize s"
    "WindowSize s1 = WindowSize s" "BytesHandled s1 = BytesHandled s" "ReadDone s1 = ReadDone s"
    "TransferDone s1 = TransferDone s" "Client s1 = Client s" "LastRecvPktSize s1 = LastRecvPktSize s"
    "PacketTimeout s1 = PacketTimeout s" "WindowRetryCount s1 = WindowRetryCount s"
    "FirstBlockInWindow s1 = FirstBlockInWindow s"
  using assms comm_frame_simps [OF CreateComm_frame(1)]
  by (auto simp: request_prefix_def terminate_packet_eq)

text \<open>The prefix followed by the rest \<open>k\<close> of a handler.\<close>

definition request_then ::
    "os \<Rightarrow> AppConfig \<Rightarrow> nat \<Rightarrow> world \<Rightarrow> session \<Rightarrow> (bytes \<Rightarrow> nat \<Rightarrow> world \<Rightarrow> session \<Rightarrow> outcome) \<Rightarrow> outcome" where
  "request_then os sConf sz w s k =
     (if SelectedOperation s \<noteq> TFTP_OP_NOT_INITIALIZED then Inr (- 1, w, s)
      else bindR (terminate_packet sz s) (\<lambda>s.
      EnsureHaveEnoughPacketBytes sz 3 w s (\<lambda>s.
      bindR (packet_str s 2) (\<lambda>FileName.
      EnsureHaveEnoughPacketBytes sz (length FileName + 4) w s (\<lambda>s.
      bindR (packet_str s (length FileName + 3)) (\<lambda>Mode.
      bindR (CreateCommUDPSocket os sConf w s) (\<lambda>(err, w, s).
      k FileName (length FileName + length Mode + 4) w s)))))))"

lemma request_then_cases:
  assumes "request_then os sConf sz w s k = Inr x"
  obtains (busy) "SelectedOperation s \<noteq> TFTP_OP_NOT_INITIALIZED" "x = (- 1, w, s)"
  | (short) s0 where "terminate_packet sz s = Inr s0"
      "x = (- 1, w, s0\<lparr>Error := TFTP_ERR_ILLEGAL_OPERATION\<rparr>)"
  | (request) FileName n err w1 s1 where "request_prefix os sConf sz w s FileName n err w1 s1"
      "k FileName n w1 s1 = Inr x"
proof (cases "SelectedOperation s = TFTP_OP_NOT_INITIALIZED")
  case sel: True
  with assms obtain s0 where s0: "terminate_packet sz s = Inr s0"
    and run: "EnsureHaveEnoughPacketBytes sz 3 w s0 (\<lambda>s.
      bindR (packet_str s 2) (\<lambda>FileName.
      EnsureHaveEnoughPacketBytes sz (length FileName + 4) w s (\<lambda>s.
      bindR (packet_str s (length FileName + 3)) (\<lambda>Mode.
      bindR (CreateCommUDPSocket os sConf w s) (\<lambda>(err, w, s).
      k FileName (length FileName + length Mode + 4) w s))))) = Inr x"
    by (auto simp: request_then_def bindR_eq_Inr)
  from run show thesis
  proof (cases rule: Ensure_cases)
    case 1: enough
    then obtain FileName where fn: "packet_str s0 2 = Inr FileName"
      and run2: "EnsureHaveEnoughPacketBytes sz (length FileName + 4) w s0 (\<lambda>s.
        bindR (packet_str s (length FileName + 3)) (\<lambda>Mode.
        bindR (CreateCommUDPSocket os sConf w s) (\<lambda>(err, w, s).
        k FileName (length FileName + length Mode + 4) w s))) = Inr x"
      by (auto simp: bindR_eq_Inr)
    from run2 show thesis
    proof (cases rule: Ensure_cases)
      case 2: enough
      then obtain Mode err w1 s1 where "packet_str s0 (length FileName + 3) = Inr Mode"
        and "CreateCommUDPSocket os sConf w s0 = Inr (err, w1, s1)"
        and go: "k FileName (length FileName + length Mode + 4) w1 s1 = Inr x"
        by (auto simp: bindR_eq_Inr)
      then have "request_prefix os sConf sz w s FileName (length FileName + length Mode + 4) err w1 s1"
        using sel s0 fn 2(1) by (auto simp: request_prefix_def)
      then show thesis using go by (rule request)
    qed (use s0 in \<open>auto intro: short\<close>)
  qed (use s0 in \<open>auto intro: short\<close>)
qed (use assms in \<open>auto simp: request_then_def intro: busy\<close>)

lemma request_offsets:
  fixes a b :: nat
  shows "2 + 1 = (3 :: nat)" "2 + (a + 1) = a + 3" "a + 3 + 1 = a + 4" "a + 3 + (b + 1) = a + b + 4"
  by simp_all

lemma RRQ_eq: "CMSG_RRQ os sConf sz w s = request_then os sConf sz w s (\<lambda>FileName n w s.
  if \<not> FileIsAllowed stricmp FileName (DownloadableFileNames sConf)
  then Inr (- 1, w, s\<lparr>Error := TFTP_ERR_FILE_NOT_FOUND\<rparr>)
  else let (f, w) = sys_fopen_s os w FileName Mode_rb; s = s\<lparr>hFile := f\<rparr>
       in if f = None then Inr (- 1, w, s\<lparr>Error := TFTP_ERR_FILE_NOT_FOUND\<rparr>)
          else bindR (ParseOptions os sConf sz n w s) (\<lambda>(r, w, s, _).
               bindR (SMSG_DATA os sConf 0 w
                 (s\<lparr>SelectedOperation := TFTP_OP_SERVER_TO_CLIENT, FirstBlockInWindow := 1\<rparr>))
               (\<lambda>(w, s). Inr (0, w, s))))"
  unfolding CMSG_RRQ_def request_then_def Let_def request_offsets
  by (simp cong: if_cong)

text \<open>What a served read request went through, and the two ways to refuse one.\<close>

lemma RRQ_cases:
  assumes "CMSG_RRQ os sConf sz w s = Inr (r, w', s')"
  obtains (busy) "SelectedOperation s \<noteq> TFTP_OP_NOT_INITIALIZED" "(r, w', s') = (- 1, w, s)"
  | (short) s0 where "terminate_packet sz s = Inr s0"
      "(r, w', s') = (- 1, w, s0\<lparr>Error := TFTP_ERR_ILLEGAL_OPERATION\<rparr>)"
  | (denied) FileName n err w1 s1 where "request_prefix os sConf sz w s FileName n err w1 s1"
      "\<not> FileIsAllowed stricmp FileName (DownloadableFileNames sConf)"
      "(r, w', s') = (- 1, w1, s1\<lparr>Error := TFTP_ERR_FILE_NOT_FOUND\<rparr>)"
  | (missing) FileName n err w1 s1 where "request_prefix os sConf sz w s FileName n err w1 s1"
      "FileIsAllowed stricmp FileName (DownloadableFileNames sConf)"
      "sys_fopen_s os w1 FileName Mode_rb = (None, w')"
      "(r, s') = (- 1, s1\<lparr>hFile := None, Error := TFTP_ERR_FILE_NOT_FOUND\<rparr>)"
  | (served) FileName n err w1 s1 f w2 p w3 s3 n3 where
      "request_prefix os sConf sz w s FileName n err w1 s1"
      "FileIsAllowed stricmp FileName (DownloadableFileNames sConf)"
      "sys_fopen_s os w1 FileName Mode_rb = (Some f, w2)"
      "ParseOptions os sConf sz n w2 (s1\<lparr>hFile := Some f\<rparr>) = Inr (p, w3, s3, n3)"
      "SMSG_DATA os sConf 0 w3 (s3\<lparr>SelectedOperation := TFTP_OP_SERVER_TO_CLIENT, FirstBlockInWindow := 1\<rparr>)
         = Inr (w', s')" "r = 0"
  using assms unfolding RRQ_eq
proof (cases rule: request_then_cases)
  case (request FileName n err w1 s1)
  obtain f w2 where fo: "sys_fopen_s os w1 FileName Mode_rb = (f, w2)" by fastforce
  show thesis
  proof (cases "FileIsAllowed stricmp FileName (DownloadableFileNames sConf)")
    case False
    with request show thesis by (intro denied) auto
  next
    case al: True
    show thesis
    proof (cases f)
      case None
      with al request fo show thesis by (intro missing) auto
    next
      case (Some ff)
      with al request fo show thesis by (auto simp: bindR_eq_Inr intro: served)
    qed
  qed
qed (auto intro: busy short)

text \<open>The session of an upload at its start.\<close>

definition upload_start :: "session \<Rightarrow> session" where
  "upload_start s = s\<lparr>SelectedOperation := TFTP_OP_CLIENT_TO_SERVER,
     BlockNrInWindowReceived := Some (replicate (nat (WindowSize s)) 0), FirstBlockInWindow := 0\<rparr>"

lemma WRQ_eq: "CMSG_WRQ os sConf sz w s = request_then os sConf sz w s (\<lambda>FileName n w s.
  if \<not> FileIsAllowed strcmp FileName (UploadableFileNames sConf)
  then Inr (- 1, w, s\<lparr>Error := TFTP_ERR_FILE_NOT_FOUND\<rparr>)
  else let (w, s) =
             (if NoFileWriteOnServer sConf = 0
              then (let (f, w) = sys_fopen_s os w FileName Mode_wb in (w, s\<lparr>hFile := f\<rparr>))
              else (w, s))
       in if NoFileWriteOnServer sConf = 0 \<and> hFile s = None
          then Inr (- 1, w, s\<lparr>Error := TFTP_ERR_FILE_NOT_FOUND\<rparr>)
          else bindR (ParseOptions os sConf sz n w s) (\<lambda>(r, w, s, _).
               bindR (guardR NullDereference (os_malloc os (calls w) \<and> 0 \<le> WindowSize s)) (\<lambda>_.
               bindR (SMSG_ACK_Block os 1 (next_call w) (upload_start s)) (\<lambda>(w, s). Inr (0, w, s)))))"
  unfolding CMSG_WRQ_def request_then_def Let_def request_offsets upload_start_def sys_malloc_def
  by (simp cong: if_cong)

lemma WRQ_cases:
  assumes "CMSG_WRQ os sConf sz w s = Inr (r, w', s')"
  obtains (busy) "SelectedOperation s \<noteq> TFTP_OP_NOT_INITIALIZED" "(r, w', s') = (- 1, w, s)"
  | (short) s0 where "terminate_packet sz s = Inr s0"
      "(r, w', s') = (- 1, w, s0\<lparr>Error := TFTP_ERR_ILLEGAL_OPERATION\<rparr>)"
  | (denied) FileName n err w1 s1 where "request_prefix os sConf sz w s FileName n err w1 s1"
      "\<not> FileIsAllowed strcmp FileName (UploadableFileNames sConf)"
      "(r, w', s') = (- 1, w1, s1\<lparr>Error := TFTP_ERR_FILE_NOT_FOUND\<rparr>)"
  | (missing) FileName n err w1 s1 where "request_prefix os sConf sz w s FileName n err w1 s1"
      "FileIsAllowed strcmp FileName (UploadableFileNames sConf)" "NoFileWriteOnServer sConf = 0"
      "sys_fopen_s os w1 FileName Mode_wb = (None, w')"
      "(r, s') = (- 1, s1\<lparr>hFile := None, Error := TFTP_ERR_FILE_NOT_FOUND\<rparr>)"
  | (served) FileName n err w1 s1 w2 s2 p w3 s3 n3 where
      "request_prefix os sConf sz w s FileName n err w1 s1"
      "FileIsAllowed strcmp FileName (UploadableFileNames sConf)"
      "if NoFileWriteOnServer sConf = 0
       then \<exists>f. sys_fopen_s os w1 FileName Mode_wb = (Some f, w2) \<and> s2 = s1\<lparr>hFile := Some f\<rparr>
       else w2 = w1 \<and> s2 = s1"
      "ParseOptions os sConf sz n w2 s2 = Inr (p, w3, s3, n3)"
      "os_malloc os (calls w3)" "0 \<le> WindowSize s3"
      "SMSG_ACK_Block os 1 (next_call w3) (upload_start s3) = Inr (w', s')" "r = 0"
  using assms unfolding WRQ_eq
proof (cases rule: request_then_cases)
  case (request FileName n err w1 s1)
  obtain f w2 where fo: "sys_fopen_s os w1 FileName Mode_wb = (f, w2)" by fastforce
  show thesis
  proof (cases "FileIsAllowed strcmp FileName (UploadableFileNames sConf)")
    case False
    with request show thesis by (intro denied) auto
  next
    case al: True
    show thesis
    proof (cases "NoFileWriteOnServer sConf = 0")
      case wr: True
      show thesis
      proof (cases f)
        case None
        with al wr request fo show thesis by (intro missing) auto
      next
        case (Some ff)
        with al wr request fo show thesis
          by (auto simp: bindR_eq_Inr intro: served [of _ _ _ _ _ w2 "s1\<lparr>hFile := Some ff\<rparr>"])
      qed
    next
      case False
      with al request show thesis by (auto simp: bindR_eq_Inr intro: served [of _ _ _ w1 s1 w1 s1])
    qed
  qed
qed (auto intro: busy short)

lemma upload_start_inv:
  assumes "buffer_ok s" and "ranges_ok s" shows "session_inv (upload_start s)"
  using assms by (simp add: upload_start_def session_inv_defs)

section \<open>Every packet keeps the session invariant: the handlers\<close>

lemma RRQ_inv:
  assumes run: "CMSG_RRQ os sConf sz w s = Inr (r, w', s')"
    and inv: "session_inv s" and c: "conf_ok sConf" "realloc_ok os"
  shows "session_inv s'"
  using run
proof (cases rule: RRQ_cases)
  case (short s0)
  then show ?thesis using terminate_packet_inv inv by auto
next
  case (denied FileName n err w1 s1)
  then show ?thesis using request_prefix_inv inv by auto
next
  case (missing FileName n err w1 s1)
  have "session_inv s1" using request_prefix_inv missing(1) inv by auto
  then show ?thesis
    using missing(4) request_prefix_frame(1) [OF missing(1)] by (simp add: session_inv_defs)
next
  case (served FileName n err w1 s1 f w2 p w3 s3 n3)
  have "session_inv (s1\<lparr>hFile := Some f\<rparr>)"
    using request_prefix_inv [OF served(1) inv] by (simp add: session_inv_defs)
  note po = ParseOptions_session [OF served(4) this c]
  have "session_inv (s3\<lparr>SelectedOperation := TFTP_OP_SERVER_TO_CLIENT, FirstBlockInWindow := 1\<rparr>)"
    using po by (simp add: session_inv_defs)
  then show ?thesis by (rule SMSG_DATA_inv [OF served(5)]) simp
qed (use inv in simp)

lemma WRQ_inv:
  assumes run: "CMSG_WRQ os sConf sz w s = Inr (r, w', s')"
    and inv: "session_inv s" and c: "conf_ok sConf" "realloc_ok os"
  shows "session_inv s'"
  using run
proof (cases rule: WRQ_cases)
  case (short s0)
  then show ?thesis using terminate_packet_inv inv by auto
next
  case (denied FileName n err w1 s1)
  then show ?thesis using request_prefix_inv inv by auto
next
  case (missing FileName n err w1 s1)
  have "session_inv s1" using request_prefix_inv missing(1) inv by auto
  then show ?thesis
    using missing(5) request_prefix_frame(1) [OF missing(1)] by (simp add: session_inv_defs)
next
  case (served FileName n err w1 s1 w2 s2 p w3 s3 n3)
  have "session_inv s2"
    using request_prefix_inv [OF served(1) inv] served(3) by (auto simp: session_inv_defs split: if_splits)
  note po = ParseOptions_session [OF served(4) this c]
  have "session_inv (upload_start s3)" using po by (intro upload_start_inv)
  then show ?thesis by (rule ACK_Block_inv [OF served(7)]) (simp add: upload_start_def)
qed (use inv in simp)

text \<open>An acknowledgement in the window, and the three ways it is not one.\<close>

lemma ACK_cases:
  assumes "CMSG_ACK os sConf sz w s = Inr (r, w', s')"
  obtains (wrong) "SelectedOperation s \<noteq> TFTP_OP_SERVER_TO_CLIENT \<or> sz < 4"
      "(r, w', s') = (- 1, w, s\<lparr>Error := TFTP_ERR_ILLEGAL_OPERATION\<rparr>)"
  | (ignored) nr where "SelectedOperation s = TFTP_OP_SERVER_TO_CLIENT" "4 \<le> sz" "packet_u16 s 2 = Inr nr"
      "uint nr < FirstBlockInWindow s \<or> uint nr > FirstBlockInWindow s + WindowSize s - 1"
      "(r, w', s') = (- 1, w, s)"
  | (finished) nr where "SelectedOperation s = TFTP_OP_SERVER_TO_CLIENT" "4 \<le> sz" "packet_u16 s 2 = Inr nr"
      "FirstBlockInWindow s \<le> uint nr" "uint nr \<le> FirstBlockInWindow s + WindowSize s - 1" "ReadDone s = 1"
      "(r, w', s') = (0, w, s\<lparr>FirstBlockInWindow := uint nr + 1, TransferDone := 1\<rparr>)"
  | (continued) nr where "SelectedOperation s = TFTP_OP_SERVER_TO_CLIENT" "4 \<le> sz" "packet_u16 s 2 = Inr nr"
      "FirstBlockInWindow s \<le> uint nr" "uint nr \<le> FirstBlockInWindow s + WindowSize s - 1" "ReadDone s \<noteq> 1"
      "SMSG_DATA os sConf 0 w (s\<lparr>FirstBlockInWindow := uint nr + 1\<rparr>) = Inr (w', s')" "r = 0"
proof (cases "SelectedOperation s = TFTP_OP_SERVER_TO_CLIENT \<and> 4 \<le> sz")
  case False
  with assms show thesis by (intro wrong) (auto simp: CMSG_ACK_def EnsureHaveEnoughPacketBytes_def split: if_splits)
next
  case True
  with assms obtain nr where nr: "packet_u16 s 2 = Inr nr"
    by (auto simp: CMSG_ACK_def EnsureHaveEnoughPacketBytes_def bindR_eq_Inr)
  show thesis
  proof (cases "uint nr < FirstBlockInWindow s \<or> uint nr > FirstBlockInWindow s + WindowSize s - 1")
    case o: True
    with True nr assms show thesis
      by (intro ignored [of nr]) (auto simp: CMSG_ACK_def EnsureHaveEnoughPacketBytes_def bindR_eq_Inr c_int_eq_Inr Let_def split: if_splits)
  next
    case False
    show thesis
    proof (cases "ReadDone s = 1")
      case rd: True
      with False True nr assms show thesis
        by (intro finished [of nr]) (auto simp: CMSG_ACK_def EnsureHaveEnoughPacketBytes_def bindR_eq_Inr c_int_eq_Inr Let_def split: if_splits)
    next
      case rd: False
      with False True nr assms show thesis
        by (intro continued [of nr]) (auto simp: CMSG_ACK_def EnsureHaveEnoughPacketBytes_def bindR_eq_Inr c_int_eq_Inr Let_def split: if_splits)
    qed
  qed
qed

lemma ACK_inv:
  assumes run: "CMSG_ACK os sConf sz w s = Inr (r, w', s')" and inv: "session_inv s"
  shows "session_inv s'"
  using run
proof (cases rule: ACK_cases)
  case (finished nr)
  have "uint nr < 65536" using unsigned_less [of nr, where ?'a = int] by simp
  with finished inv show ?thesis by (auto simp: session_inv_defs)
next
  case (continued nr)
  have "uint nr < 65536" using unsigned_less [of nr, where ?'a = int] by simp
  with continued inv have "session_inv (s\<lparr>FirstBlockInWindow := uint nr + 1\<rparr>)" by (auto simp: session_inv_defs)
  then show ?thesis by (rule SMSG_DATA_inv [OF continued(7)]) simp
qed (use inv in simp_all)

text \<open>Storing a block: the file that is open may change, and its handle's position.\<close>

lemma sys_fwrite_frame:
  assumes "sys_fwrite os w f bs = (w', f')"
  shows "f_name f' = f_name f"
    and "\<exists>d. w' = w\<lparr>calls := Suc (calls w), disk := d\<rparr> \<and> (\<forall>n. n \<noteq> f_name f \<longrightarrow> d n = disk w n)"
proof -
  obtain d f1 where fw: "fwrite (os_fwrite os (calls w)) (disk w) f bs = (d, f1)" by fastforce
  with assms have r: "w' = w\<lparr>calls := Suc (calls w), disk := d\<rparr>" "f' = f1"
    by (simp_all add: sys_fwrite_def next_call_def)
  show "f_name f' = f_name f" using fwrite_name fw r(2) by (metis snd_conv)
  have "d n = disk w n" if "n \<noteq> f_name f" for n using fwrite_frame [OF that] fw by (metis fst_conv)
  with r(1) show "\<exists>d. w' = w\<lparr>calls := Suc (calls w), disk := d\<rparr> \<and> (\<forall>n. n \<noteq> f_name f \<longrightarrow> d n = disk w n)"
    by blast
qed

lemma store_block_frame:
  assumes "store_block os sz nr w s = Inr (w', s')"
  shows "\<exists>hf k d. s' = s\<lparr>hFile := hf\<rparr> \<and> map_option f_name hf = map_option f_name (hFile s) \<and>
    w' = w\<lparr>calls := k, disk := d\<rparr> \<and> (\<forall>n. Some n \<noteq> map_option f_name (hFile s) \<longrightarrow> d n = disk w n)"
proof (cases "hFile s")
  case None
  with assms have "s' = s\<lparr>hFile := None\<rparr>" "w' = w\<lparr>calls := calls w, disk := disk w\<rparr>"
    by (auto simp: store_block_def)
  then show ?thesis using None by fastforce
next
  case (Some f)
  then obtain f0 where
    f0: "(if WindowSize s \<noteq> 1 then bindR (c_int ((nr - 1) * BlockSize s)) (\<lambda>off. Inr (fseek_set f off))
          else Inr f) = Inr f0" and
    rest: "bindR (packet_buf s) (\<lambda>buf. bindR (guardR OutOfBounds (sz \<le> length buf)) (\<lambda>_.
          let (w, f) = sys_fwrite os w f0 (drop 4 (take sz buf)) in Inr (w, s\<lparr>hFile := Some f\<rparr>))) = Inr (w', s')"
    using assms unfolding store_block_def by (auto simp only: option.case bindR_eq_Inr)
  have nm: "f_name f0 = f_name f" using f0 by (auto simp: bindR_eq_Inr split: if_splits)
  obtain buf where buf: "packet_buf s = Inr buf" using rest by (cases "packet_buf s") simp_all
  obtain w1 f1 where fw: "sys_fwrite os w f0 (drop 4 (take sz buf)) = (w1, f1)" by fastforce
  have r: "w' = w1" "s' = s\<lparr>hFile := Some f1\<rparr>" using rest buf fw by (auto simp: bindR_eq_Inr)
  from sys_fwrite_frame [OF fw] r nm Some show ?thesis by (auto intro!: exI)
qed

text \<open>A data packet: not for this session, over the limit, stale, a duplicate, or stored.\<close>

definition counted :: "nat \<Rightarrow> session \<Rightarrow> session" where
  "counted sz s = s\<lparr>BytesHandled := BytesHandled s + of_nat sz\<rparr>"

definition marked :: "nat \<Rightarrow> nat \<Rightarrow> int list \<Rightarrow> session \<Rightarrow> session" where
  "marked sz i arr s = (counted sz s)\<lparr>BlockNrInWindowReceived := Some (arr[i := int sz - 4])\<rparr>"

text \<open>The stored block: what happens before the acknowledgement.\<close>

definition data_step :: "os \<Rightarrow> nat \<Rightarrow> int \<Rightarrow> world \<Rightarrow> session \<Rightarrow> (world \<times> session) res" where
  "data_step os sz BlockNr w s =
     (if 4 < sz then bindR (store_block os sz BlockNr w s) (\<lambda>(w, s). Inr (w, s\<lparr>WindowRetryCount := 0\<rparr>))
      else Inr (w, s))"

definition data_done :: "nat \<Rightarrow> session \<Rightarrow> session" where
  "data_done sz s = (if int sz < BlockSize s + 4 then s\<lparr>TransferDone := 1\<rparr> else s)"

lemma counted_simps [simp]:
  "BytesHandled (counted sz s) = BytesHandled s + of_nat sz" "WindowSize (counted sz s) = WindowSize s"
  "FirstBlockInWindow (counted sz s) = FirstBlockInWindow s" "BlockSize (counted sz s) = BlockSize s"
  "BlockNrInWindowReceived (counted sz s) = BlockNrInWindowReceived s"
  "SelectedOperation (counted sz s) = SelectedOperation s" "hFile (counted sz s) = hFile s"
  "LastRecvPacket (counted sz s) = LastRecvPacket s" "packet_u16 (counted sz s) k = packet_u16 s k"
  "CommSocket (counted sz s) = CommSocket s" "session_inv (counted sz s) = session_inv s"
  by (simp_all add: counted_def packet_u16_def packet_buf_def)

lemma DATA_eq:
  "CMSG__DATA os sConf sz w s =
     (if SelectedOperation s \<noteq> TFTP_OP_CLIENT_TO_SERVER \<or> sz < 4
      then Inr (- 1, w, s\<lparr>Error := TFTP_ERR_ILLEGAL_OPERATION\<rparr>)
      else if over_limit sConf (BytesHandled s + of_nat sz)
      then Inr (- 1, w, (counted sz s)\<lparr>Error := TFTP_ERR_DISK_FULL\<rparr>)
      else bindR (packet_u16 s 2) (\<lambda>nr.
      if uint nr \<le> FirstBlockInWindow s then Inr (- 1, w, counted sz s)
      else bindR (c_rem (uint nr - 1) (WindowSize s)) (\<lambda>k.
      bindR (window_array s) (\<lambda>arr.
      bindR (guardR OutOfBounds (0 \<le> k \<and> nat k < length arr)) (\<lambda>_.
      if arr ! nat k \<noteq> 0 then Inr (- 1, w, counted sz s)
      else bindR (data_step os sz (uint nr) w (marked sz (nat k) arr s)) (\<lambda>(w, s).
           bindR (SMSG_ACK_Block os 0 w (data_done sz s)) (\<lambda>(w, s). Inr (0, w, s))))))))"
proof -
  have b: "TFTP_HEADER_SIZE < int sz \<longleftrightarrow> 4 < sz" by (simp add: tftp_consts)
  have h: "TFTP_HEADER_SIZE = 4" by (simp add: tftp_consts)
  have pu: "packet_u16 (s\<lparr>BytesHandled := x\<rparr>) k = packet_u16 s k" for x k
    by (simp add: packet_u16_def packet_buf_def)
  have wa: "window_array (s\<lparr>BytesHandled := x\<rparr>) = window_array s" for x
    by (simp add: window_array_def)
  show ?thesis
    unfolding CMSG__DATA_def EnsureHaveEnoughPacketBytes_def Let_def b data_step_def data_done_def
      marked_def counted_def over_limit_def
    by (simp add: pu wa h cong: if_cong)
qed

lemma DATA_cases:
  assumes "CMSG__DATA os sConf sz w s = Inr (r, w', s')"
  obtains (wrong) "SelectedOperation s \<noteq> TFTP_OP_CLIENT_TO_SERVER \<or> sz < 4"
      "(r, w', s') = (- 1, w, s\<lparr>Error := TFTP_ERR_ILLEGAL_OPERATION\<rparr>)"
  | (too_much) "SelectedOperation s = TFTP_OP_CLIENT_TO_SERVER" "4 \<le> sz"
      "over_limit sConf (BytesHandled s + of_nat sz)"
      "(r, w', s') = (- 1, w, (counted sz s)\<lparr>Error := TFTP_ERR_DISK_FULL\<rparr>)"
  | (dropped) nr where "SelectedOperation s = TFTP_OP_CLIENT_TO_SERVER" "4 \<le> sz" "packet_u16 s 2 = Inr nr"
      "(r, w', s') = (- 1, w, counted sz s)"
  | (stored) nr k arr w1 s1 where "SelectedOperation s = TFTP_OP_CLIENT_TO_SERVER" "4 \<le> sz"
      "\<not> over_limit sConf (BytesHandled s + of_nat sz)" "packet_u16 s 2 = Inr nr"
      "FirstBlockInWindow s < uint nr"
      "c_rem (uint nr - 1) (WindowSize s) = Inr k" "BlockNrInWindowReceived s = Some arr"
      "0 \<le> k" "nat k < length arr" "arr ! nat k = 0"
      "data_step os sz (uint nr) w (marked sz (nat k) arr s) = Inr (w1, s1)"
      "SMSG_ACK_Block os 0 w1 (data_done sz s1) = Inr (w', s')" "r = 0"
  using assms unfolding DATA_eq
  by (auto simp: bindR_eq_Inr window_array_def split: if_splits option.splits intro: wrong too_much dropped stored)

lemma data_step_frame:
  assumes "data_step os sz nr w s = Inr (w', s')"
  shows "\<exists>hf k d rc. s' = s\<lparr>hFile := hf, WindowRetryCount := rc\<rparr> \<and>
    map_option f_name hf = map_option f_name (hFile s) \<and>
    w' = w\<lparr>calls := k, disk := d\<rparr> \<and> (\<forall>n. Some n \<noteq> map_option f_name (hFile s) \<longrightarrow> d n = disk w n)"
proof (cases "4 < sz")
  case True
  with assms obtain s1 where st: "store_block os sz nr w s = Inr (w', s1)"
    and s': "s' = s1\<lparr>WindowRetryCount := 0\<rparr>"
    by (auto simp: data_step_def bindR_eq_Inr)
  from store_block_frame [OF st] s' show ?thesis by (elim exE conjE) (auto intro!: exI)
next
  case False
  with assms have "s' = s\<lparr>hFile := hFile s, WindowRetryCount := WindowRetryCount s\<rparr>"
    "w' = w\<lparr>calls := calls w, disk := disk w\<rparr>" by (simp_all add: data_step_def)
  then show ?thesis by blast
qed

lemma DATA_inv:
  assumes run: "CMSG__DATA os sConf sz w s = Inr (r, w', s')" and inv: "session_inv s"
  shows "session_inv s'"
  using run
proof (cases rule: DATA_cases)
  case (stored nr k arr w1 s1)
  obtain hf rc where s1: "s1 = (marked sz (nat k) arr s)\<lparr>hFile := hf, WindowRetryCount := rc\<rparr>"
    using data_step_frame [OF stored(11)] by blast
  have "session_inv (data_done sz s1)"
    using inv stored(1,7) by (auto simp: s1 data_done_def marked_def counted_def session_inv_defs)
  moreover have "SelectedOperation (data_done sz s1) = TFTP_OP_CLIENT_TO_SERVER"
    using stored(1) by (simp add: s1 data_done_def marked_def)
  ultimately show ?thesis using ACK_Block_inv [OF stored(12)] by blast
qed (use inv in simp_all)

lemma ERROR_cases:
  assumes "CMSG_ERROR sz w s = Inr (r, w', s')"
  shows "w' = w \<and> (\<exists>e. s' = s\<lparr>Error := e\<rparr>)"
  using assms
  by (auto simp: CMSG_ERROR_def EnsureHaveEnoughPacketBytes_def Let_def bindR_eq_Inr split: if_splits)

lemma ParsePacket_cases:
  assumes "ParsePacket os sConf sz w s = Inr (r, w', s')"
  obtains (rrq) "CMSG_RRQ os sConf sz w s = Inr (r, w', s')"
  | (wrq) "CMSG_WRQ os sConf sz w s = Inr (r, w', s')"
  | (ack) "CMSG_ACK os sConf sz w s = Inr (r, w', s')"
  | (data) "CMSG__DATA os sConf sz w s = Inr (r, w', s')"
  | (error) e where "w' = w" "s' = s\<lparr>Error := e\<rparr>"
  using assms ERROR_cases [of sz w s r w' s'] unfolding ParsePacket_def EnsureHaveEnoughPacketBytes_def
  by (auto simp: bindR_eq_Inr split: if_splits)

lemma ParsePacket_inv:
  assumes "ParsePacket os sConf sz w s = Inr (r, w', s')" and "session_inv s"
    and "conf_ok sConf" and "realloc_ok os"
  shows "session_inv s'"
  using assms(1)
proof (cases rule: ParsePacket_cases)
  case rrq
  then show ?thesis by (rule RRQ_inv) (use assms in auto)
next
  case wrq
  then show ?thesis by (rule WRQ_inv) (use assms in auto)
next
  case ack
  then show ?thesis by (rule ACK_inv) (use assms in auto)
next
  case data
  then show ?thesis by (rule DATA_inv) (use assms in auto)
qed (use assms in simp)

end
