(* ===== verification/Safety.thy ===== *)
theory Safety
  imports Handlers
begin

text \<open>
  What a packet can make the server do to its surroundings: which files it may read, which it
  may change and what it sends. The abstract contract is \<open>effect_ok\<close>; every handler of
  \<^verbatim>\<open>TFTP.cpp\<close> meets it, and so does any sequence of packets.
\<close>

section \<open>The contract\<close>

lemma FileIsAllowed_iff: "FileIsAllowed cmp n l \<longleftrightarrow> (\<exists>x \<in> set l. cmp n x = 0)"
  by (induction cmp n l rule: FileIsAllowed.induct) auto

definition may_download :: "AppConfig \<Rightarrow> bytes \<Rightarrow> bool" where
  "may_download sConf n \<longleftrightarrow> (\<exists>x \<in> set (DownloadableFileNames sConf). stricmp n x = 0)"

definition may_upload :: "AppConfig \<Rightarrow> bytes \<Rightarrow> bool" where
  "may_upload sConf n \<longleftrightarrow> NoFileWriteOnServer sConf = 0 \<and>
     (\<exists>x \<in> set (UploadableFileNames sConf). strcmp n x = 0)"

text \<open>The open file of a session is one its operation may touch.\<close>

definition file_ok :: "AppConfig \<Rightarrow> session \<Rightarrow> bool" where
  "file_ok sConf s \<longleftrightarrow> (\<forall>f. hFile s = Some f \<longrightarrow>
     (SelectedOperation s = TFTP_OP_SERVER_TO_CLIENT \<and> may_download sConf (f_name f)) \<or>
     (SelectedOperation s = TFTP_OP_CLIENT_TO_SERVER \<and> may_upload sConf (f_name f)))"

definition disk_safe :: "AppConfig \<Rightarrow> disk \<Rightarrow> disk \<Rightarrow> bool" where
  "disk_safe sConf d d' \<longleftrightarrow> (\<forall>n. d' n \<noteq> d n \<longrightarrow> may_upload sConf n)"

text \<open>
  A datagram the server may send: an acknowledgement, an acknowledgement of options, or a block
  of a file that may be downloaded.
\<close>

definition reply_ok :: "AppConfig \<Rightarrow> disk \<Rightarrow> int \<Rightarrow> int \<times> bytes \<times> int \<Rightarrow> bool" where
  "reply_ok sConf d fd x \<longleftrightarrow> fst x = fd \<and>
     ((\<exists>n. fst (snd x) = ack_packet n) \<or>
      (\<exists>opts. fst (snd x) = htons_bytes (op_value OP_OACK) @ opts) \<or>
      (\<exists>name nr b k. may_download sConf name \<and>
         fst (snd x) = data_packet nr (file_block b (case d name of None \<Rightarrow> [] | Some c \<Rightarrow> c) k)))"

definition effect_ok :: "AppConfig \<Rightarrow> world \<Rightarrow> world \<Rightarrow> session \<Rightarrow> bool" where
  "effect_ok sConf w w' s' \<longleftrightarrow> file_ok sConf s' \<and> disk_safe sConf (disk w) (disk w') \<and>
     (\<exists>new. sends w' = sends w @ new \<and> (\<forall>x \<in> set new. reply_ok sConf (disk w) (CommSocket s') x))"

lemma disk_safe_refl [simp]: "disk_safe sConf d d"
  by (simp add: disk_safe_def)

lemma disk_safe_trans: "disk_safe sConf d1 d2 \<Longrightarrow> disk_safe sConf d2 d3 \<Longrightarrow> disk_safe sConf d1 d3"
  unfolding disk_safe_def by metis

lemma effect_okI:
  assumes "file_ok sConf s'" and "disk_safe sConf (disk w) (disk w')" and "sends w' = sends w @ new"
    and "\<And>x. x \<in> set new \<Longrightarrow> reply_ok sConf (disk w) (CommSocket s') x"
  shows "effect_ok sConf w w' s'"
  using assms unfolding effect_ok_def by blast

lemma file_ok_same:
  "hFile s' = hFile s \<Longrightarrow> SelectedOperation s' = SelectedOperation s \<Longrightarrow> file_ok sConf s' = file_ok sConf s"
  by (simp add: file_ok_def)

lemma file_ok_other [simp]:
  "file_ok sConf (s\<lparr>Error := e\<rparr>) = file_ok sConf s"
  "file_ok sConf (s\<lparr>TransferDone := i\<rparr>) = file_ok sConf s"
  "file_ok sConf (s\<lparr>FirstBlockInWindow := i\<rparr>) = file_ok sConf s"
  "file_ok sConf (s\<lparr>LastRecvPktSize := i\<rparr>) = file_ok sConf s"
  "file_ok sConf (s\<lparr>LastRecvPacket := b\<rparr>) = file_ok sConf s"
  "file_ok sConf (s\<lparr>LastActivityStamp := t\<rparr>) = file_ok sConf s"
  "file_ok sConf (s\<lparr>WindowRetryCount := i\<rparr>) = file_ok sConf s"
  "file_ok sConf (counted sz s) = file_ok sConf s"
  by (simp_all add: file_ok_def)

lemma effect_ok_quiet: "file_ok sConf s' \<Longrightarrow> effect_ok sConf w w s'"
  by (rule effect_okI [where new = "[]"]) simp_all

section \<open>The senders\<close>

lemma DATA_effect:
  assumes "SMSG_DATA os sConf resend w s = Inr (w', s')" and "ranges_ok s" and "1 \<le> FirstBlockInWindow s"
    and sel: "SelectedOperation s = TFTP_OP_SERVER_TO_CLIENT"
    and ok: "\<And>f. hFile s = Some f \<Longrightarrow> may_download sConf (f_name f)"
  shows "effect_ok sConf w w' s' \<and> CommSocket s' = CommSocket s"
proof (cases "hFile s")
  case None
  with assms show ?thesis by (auto simp: file_ok_def intro: effect_ok_quiet)
next
  case (Some f)
  obtain new where fr: "data_frame w s new w' s'"
    and new: "\<forall>x \<in> set new. window_send s 0 (f_content (disk w) f)
        (nat (FirstBlockInWindow s - 1)) (nat (WindowSize s)) x"
    using SMSG_DATA_frame [OF assms(1) Some assms(2,3)] by blast
  note fs = data_frame_simps [OF fr]
  have "file_ok sConf s'" using fs(19) ok Some fs(7) sel by (auto simp: file_ok_def)
  moreover have "reply_ok sConf (disk w) (CommSocket s') x" if "x \<in> set new" for x
    using new that ok Some unfolding window_send_def reply_ok_def fs(10) f_content_def by blast
  ultimately show ?thesis using fs(1,2,10) by (auto intro: effect_okI)
qed

lemma ACK_frame:
  assumes "SMSG_ACK_Block os resend w s = Inr (w', s')" and "session_inv s"
    and "SelectedOperation s = TFTP_OP_CLIENT_TO_SERVER"
  shows "disk w' = disk w" and "CommSocket s' = CommSocket s"
    and "file_ok sConf s' = file_ok sConf s" and "\<exists>n r. sends w' = sends w @ [(CommSocket s, ack_packet n, r)]"
proof -
  obtain arr where arr: "BlockNrInWindowReceived s = Some arr" "int (length arr) = WindowSize s"
    using assms(2,3) by (auto simp: session_inv_defs)
  define nr where "nr = (word_of_int (FirstBlockInWindow s + received_prefix arr) :: u16)"
  note eq = assms(1) [unfolded SMSG_ACK_Block_eq [OF arr] nr_def [symmetric]]
  show "disk w' = disk w" "CommSocket s' = CommSocket s" "file_ok sConf s' = file_ok sConf s"
    and "\<exists>n r. sends w' = sends w @ [(CommSocket s, ack_packet n, r)]"
    using eq by (auto simp: sys_send_def sys_tick_def Let_def file_ok_def split: if_splits)
qed

lemma effect_ok_after:
  assumes "sends w1 = sends w @ n1" and "disk w1 = disk w"
    and "\<forall>x \<in> set n1. reply_ok sConf (disk w) (CommSocket s2) x" and "effect_ok sConf w1 w2 s2"
  shows "effect_ok sConf w w2 s2"
proof -
  from assms(4) obtain n2 where n2: "sends w2 = sends w1 @ n2"
    "\<forall>x \<in> set n2. reply_ok sConf (disk w) (CommSocket s2) x" and "file_ok sConf s2"
    and "disk_safe sConf (disk w) (disk w2)"
    using assms(2) by (auto simp: effect_ok_def)
  moreover have "\<forall>x \<in> set (n1 @ n2). reply_ok sConf (disk w) (CommSocket s2) x"
    using assms(3) n2(2) by (metis Un_iff set_append)
  ultimately show ?thesis
    using assms(1) by (intro effect_okI [where new = "n1 @ n2"]) auto
qed

lemma options_reply_ok:
  assumes "options_frame sConf w s new w' s'"
  shows "\<forall>x \<in> set new. reply_ok sConf d (CommSocket s) x"
  using assms unfolding options_frame_def reply_ok_def by auto

section \<open>The handlers\<close>

lemma fopen_rb_frame:
  assumes "sys_fopen_s os w n Mode_rb = (f, w')"
  shows "disk w' = disk w" "sends w' = sends w" and "f = Some ff \<Longrightarrow> f_name ff = n"
  using assms by (auto simp: sys_fopen_s_def fopen_s_def fopen_def Let_def split: if_splits prod.splits)

lemma fopen_wb_frame:
  assumes "sys_fopen_s os w n Mode_wb = (f, w')"
  shows "m \<noteq> n \<Longrightarrow> disk w' m = disk w m" "sends w' = sends w" and "f = Some ff \<Longrightarrow> f_name ff = n"
  using assms by (auto simp: sys_fopen_s_def fopen_s_def fopen_def Let_def split: if_splits prod.splits)

lemma RRQ_effect:
  assumes run: "CMSG_RRQ os sConf sz w s = Inr (r, w', s')"
    and inv: "session_inv s" "file_ok sConf s" and c: "conf_ok sConf" "realloc_ok os"
  shows "effect_ok sConf w w' s'"
  using run
proof (cases rule: RRQ_cases)
  case busy
  then show ?thesis using inv by (auto intro: effect_ok_quiet)
next
  case (short s0)
  then show ?thesis using inv by (auto simp: terminate_packet_eq intro: effect_ok_quiet)
next
  case (denied FileName n err w1 s1)
  note fr = request_prefix_frame [OF denied(1)]
  have "SelectedOperation s = TFTP_OP_NOT_INITIALIZED" using denied(1) by (simp add: request_prefix_def)
  then have "file_ok sConf s'" using denied(3) fr(1,5) inv(2) by (simp add: file_ok_def)
  then show ?thesis using denied(3) fr by (intro effect_okI [where new = "[]"]) simp_all
next
  case (missing FileName n err w1 s1)
  note fr = request_prefix_frame [OF missing(1)] and fo = fopen_rb_frame [OF missing(3)]
  have "file_ok sConf s'" using missing(4) by (simp add: file_ok_def)
  then show ?thesis using fr fo by (intro effect_okI [where new = "[]"]) simp_all
next
  case (served FileName n err w1 s1 f w2 p w3 s3 n3)
  note fr = request_prefix_frame [OF served(1)] and fo = fopen_rb_frame [OF served(3)]
  let ?s1 = "s1\<lparr>hFile := Some f\<rparr>"
  let ?s4 = "s3\<lparr>SelectedOperation := TFTP_OP_SERVER_TO_CLIENT, FirstBlockInWindow := 1\<rparr>"
  have "session_inv ?s1" using request_prefix_inv [OF served(1) inv(1)] by (simp add: session_inv_defs)
  note po = ParseOptions_session [OF served(4) this c]
  obtain new where of: "options_frame sConf w2 ?s1 new w3 s3" using ParseOptions_frame(1) [OF served(4)] by blast
  note os = options_frame_simps [OF of]
  have name: "f_name g = FileName" if "hFile ?s4 = Some g" for g
    using os(18) that fo(3) by simp
  have al: "may_download sConf FileName" using served(2) by (simp add: may_download_def FileIsAllowed_iff)
  have "effect_ok sConf w3 w' s' \<and> CommSocket s' = CommSocket ?s4"
    using name al po(2) by (intro DATA_effect [OF served(5)]) (simp_all add: ranges_ok_def)
  moreover have "sends w3 = sends w @ new" "disk w3 = disk w" using os(1,2) fr(2,3) fo(1,2) by simp_all
  ultimately show ?thesis
    using options_reply_ok [OF of] os(7) by (intro effect_ok_after [of w3 w new]) simp_all
qed

lemma effect_ok_upload:
  assumes ack: "SMSG_ACK_Block os resend w1 s1 = Inr (w', s')" and "session_inv s1"
    and "SelectedOperation s1 = TFTP_OP_CLIENT_TO_SERVER" and "file_ok sConf s1"
    and "disk_safe sConf (disk w) (disk w1)" and "sends w1 = sends w @ new"
    and "\<forall>x \<in> set new. reply_ok sConf (disk w) (CommSocket s1) x"
  shows "effect_ok sConf w w' s'"
proof -
  note af = ACK_frame [OF ack assms(2,3)]
  obtain n r where sd: "sends w' = sends w1 @ [(CommSocket s1, ack_packet n, r)]" using af(4) by blast
  have "reply_ok sConf (disk w) (CommSocket s') x" if "x \<in> set (new @ [(CommSocket s1, ack_packet n, r)])" for x
  proof (cases "x \<in> set new")
    case False
    with that have "x = (CommSocket s1, ack_packet n, r)" by auto
    then show ?thesis by (auto simp: af(2) reply_ok_def)
  qed (use assms(7) af(2) in simp)
  with sd assms(4-6) af(1,3) show ?thesis
    by (intro effect_okI [where new = "new @ [(CommSocket s1, ack_packet n, r)]"]) simp_all
qed

lemma WRQ_effect:
  assumes run: "CMSG_WRQ os sConf sz w s = Inr (r, w', s')"
    and inv: "session_inv s" "file_ok sConf s" and c: "conf_ok sConf" "realloc_ok os"
  shows "effect_ok sConf w w' s'"
  using run
proof (cases rule: WRQ_cases)
  case busy
  then show ?thesis using inv by (auto intro: effect_ok_quiet)
next
  case (short s0)
  then show ?thesis using inv by (auto simp: terminate_packet_eq intro: effect_ok_quiet)
next
  case (denied FileName n err w1 s1)
  note fr = request_prefix_frame [OF denied(1)]
  have "SelectedOperation s = TFTP_OP_NOT_INITIALIZED" using denied(1) by (simp add: request_prefix_def)
  then have "file_ok sConf s'" using denied(3) fr(1,5) inv(2) by (simp add: file_ok_def)
  then show ?thesis using denied(3) fr by (intro effect_okI [where new = "[]"]) simp_all
next
  case (missing FileName n err w1 s1)
  note fr = request_prefix_frame [OF missing(1)] and fo = fopen_wb_frame [OF missing(4)]
  have al: "may_upload sConf FileName" using missing(2,3) by (simp add: may_upload_def FileIsAllowed_iff)
  have "disk_safe sConf (disk w) (disk w')" using fo(1) fr(2) al unfolding disk_safe_def by metis
  moreover have "file_ok sConf s'" using missing(5) by (simp add: file_ok_def)
  ultimately show ?thesis using fr fo by (intro effect_okI [where new = "[]"]) simp_all
next
  case (served FileName n err w1 s1 w2 s2 p w3 s3 n3)
  note fr = request_prefix_frame [OF served(1)]
  have "SelectedOperation s = TFTP_OP_NOT_INITIALIZED" using served(1) by (simp add: request_prefix_def)
  then have none: "hFile s1 = None" using inv(2) fr(5) by (cases "hFile s") (auto simp: file_ok_def)
  have open_ok: "session_inv s2 \<and> sends w2 = sends w \<and> disk_safe sConf (disk w) (disk w2) \<and>
      (\<forall>g. hFile s2 = Some g \<longrightarrow> may_upload sConf (f_name g))"
  proof (cases "NoFileWriteOnServer sConf = 0")
    case True
    with served(3) obtain f where fo: "sys_fopen_s os w1 FileName Mode_wb = (Some f, w2)"
      and s2: "s2 = s1\<lparr>hFile := Some f\<rparr>" by auto
    have al: "may_upload sConf FileName" using served(2) True by (simp add: may_upload_def FileIsAllowed_iff)
    show ?thesis
    proof (intro conjI)
      show "disk_safe sConf (disk w) (disk w2)"
        using fopen_wb_frame(1) [OF fo] al fr(2) unfolding disk_safe_def by metis
    qed (use fopen_wb_frame(2,3) [OF fo] s2 al fr(3) request_prefix_inv [OF served(1) inv(1)]
          request_prefix_frame(1) [OF served(1)] in \<open>auto simp: session_inv_defs\<close>)
  next
    case False
    with served(3) show ?thesis using none fr(2,3) request_prefix_inv [OF served(1) inv(1)] by simp
  qed
  then have "session_inv s2" by simp
  note po = ParseOptions_session [OF served(4) this c]
  obtain new where of: "options_frame sConf w2 s2 new w3 s3" using ParseOptions_frame(1) [OF served(4)] by blast
  note ofs = options_frame_simps [OF of]
  have "may_upload sConf (f_name g)" if "hFile s3 = Some g" for g
    using ofs(18) that open_ok by (cases "hFile s2") auto
  then have "file_ok sConf (upload_start s3)" by (simp add: file_ok_def upload_start_def)
  moreover have "session_inv (upload_start s3)" using po by (intro upload_start_inv)
  moreover have "sends (next_call w3) = sends w @ new" using ofs(2) open_ok by simp
  moreover have "disk_safe sConf (disk w) (disk (next_call w3))" using ofs(1) open_ok by simp
  ultimately show ?thesis
    using options_reply_ok [OF of] ofs(7)
    by (intro effect_ok_upload [OF served(7), of sConf w new]) (simp_all add: upload_start_def)
qed

lemma CMSG_ACK_effect:
  assumes run: "CMSG_ACK os sConf sz w s = Inr (r, w', s')"
    and inv: "session_inv s" "file_ok sConf s"
  shows "effect_ok sConf w w' s'"
  using run
proof (cases rule: ACK_cases)
  case (continued nr)
  have "may_download sConf (f_name f)" if "hFile s = Some f" for f
    using inv(2) that continued(1) by (simp add: file_ok_def)
  moreover have "ranges_ok (s\<lparr>FirstBlockInWindow := uint nr + 1\<rparr>)"
    using inv(1) unsigned_less [of nr, where ?'a = int] by (simp add: session_inv_def ranges_ok_def)
  ultimately show ?thesis
    using continued(1) DATA_effect [OF continued(7)] by simp
qed (use inv in \<open>auto intro: effect_ok_quiet simp: file_ok_def\<close>)

lemma CMSG_DATA_effect:
  assumes run: "CMSG__DATA os sConf sz w s = Inr (r, w', s')"
    and inv: "session_inv s" "file_ok sConf s"
  shows "effect_ok sConf w w' s'"
  using run
proof (cases rule: DATA_cases)
  case (stored nr k arr w1 s1)
  from data_step_frame [OF stored(11)] obtain hf rc k' d where
    s1: "s1 = (marked sz (nat k) arr s)\<lparr>hFile := hf, WindowRetryCount := rc\<rparr>"
    and nm: "map_option f_name hf = map_option f_name (hFile s)"
    and w1: "w1 = w\<lparr>calls := k', disk := d\<rparr>"
    and d: "\<forall>n. Some n \<noteq> map_option f_name (hFile s) \<longrightarrow> d n = disk w n"
    by (auto simp: marked_def)
  have up: "\<forall>f. hFile s = Some f \<longrightarrow> may_upload sConf (f_name f)"
    using inv(2) stored(1) by (auto simp: file_ok_def)
  have "disk_safe sConf (disk w) (disk w1)"
    unfolding disk_safe_def
  proof (intro allI impI)
    fix n assume "disk w1 n \<noteq> disk w n"
    with d w1 have "Some n = map_option f_name (hFile s)" by auto
    with up show "may_upload sConf n" by (cases "hFile s") auto
  qed
  moreover have "file_ok sConf (data_done sz s1)"
    using nm up stored(1) by (cases hf; cases "hFile s") (auto simp: file_ok_def s1 data_done_def marked_def)
  moreover have "session_inv (data_done sz s1)"
    using inv(1) stored(1,7) by (auto simp: s1 data_done_def marked_def counted_def session_inv_defs)
  moreover have "SelectedOperation (data_done sz s1) = TFTP_OP_CLIENT_TO_SERVER"
    using stored(1) by (simp add: s1 data_done_def marked_def)
  ultimately show ?thesis
    using w1 by (intro effect_ok_upload [OF stored(12), of sConf w "[]"]) simp_all
qed (use inv in \<open>auto intro: effect_ok_quiet\<close>)

lemma ParsePacket_effect:
  assumes "ParsePacket os sConf sz w s = Inr (r, w', s')" and "session_inv s" "file_ok sConf s"
    and "conf_ok sConf" "realloc_ok os"
  shows "effect_ok sConf w w' s'"
  using assms(1)
proof (cases rule: ParsePacket_cases)
  case rrq
  then show ?thesis by (rule RRQ_effect) (use assms in auto)
next
  case wrq
  then show ?thesis by (rule WRQ_effect) (use assms in auto)
next
  case ack
  then show ?thesis by (rule CMSG_ACK_effect) (use assms in auto)
next
  case data
  then show ?thesis by (rule CMSG_DATA_effect) (use assms in auto)
qed (use assms in \<open>auto intro: effect_ok_quiet\<close>)

end
