(* ===== verification/Thread.thy ===== *)
theory Thread
  imports Safety
begin

text \<open>
  \<^verbatim>\<open>ThreadDirectComm\<close> of \<^verbatim>\<open>TFTP.cpp\<close>: the life of one session, a loop that handles the
  packet received last, reports it, waits for the next and resends on a timeout. The
  registration in the list of active clients is in the theory of the server.
\<close>

section \<open>The operations\<close>

text \<open>The callback to the AWS backend, with the answers it gets from the system.\<close>

definition report_packet :: "os \<Rightarrow> world \<Rightarrow> session \<Rightarrow> world res" where
  "report_packet os w s =
     (let k = calls w; w = w\<lparr>calls := k + 3\<rparr> in
      bindR (AWS_SQS_OnPacketArrived (os_malloc os k) (os_malloc os (k + 1)) (os_guid os (k + 2))
               (LastRecvPacket s) (LastRecvPktSize s) (CommSocket s)
               (Some (os_ntoa os (Client s))) (sqs w)) (\<lambda>q.
      Inr (w\<lparr>sqs := q\<rparr>)))"

text \<open>
  \<^verbatim>\<open>recv(sess->CommSocket, sess->LastRecvPacket, sess->BlockSize + TFTP_HEADER_SIZE, 0)\<close>:
  a datagram longer than the size is cut, an error or a timeout is -1. The kernel refuses a NULL
  buffer.
\<close>

definition receive :: "os \<Rightarrow> world \<Rightarrow> session \<Rightarrow> (world \<times> session) res" where
  "receive os w s =
     (let (answer, w) = sys_recv os w (CommSocket s) in
      case (answer, LastRecvPacket s) of
        (Some dgram, Some buf) \<Rightarrow>
          let data = take (nat (BlockSize s + TFTP_HEADER_SIZE)) dgram in
          bindR (guardR OutOfBounds (length data \<le> length buf)) (\<lambda>_.
          Inr (w, s\<lparr>LastRecvPacket := Some (store_at 0 data buf), LastRecvPktSize := int (length data)\<rparr>))
      | _ \<Rightarrow> Inr (w, s\<lparr>LastRecvPktSize := - 1\<rparr>))"

text \<open>
  What happens when nothing was received. The flag is \<open>False\<close> when the session is given up.
  \<^verbatim>\<open>TimePassed\<close> is the difference of a 32 bit tick and a 64 bit stamp, read as signed.
\<close>

definition on_silence :: "os \<Rightarrow> AppConfig \<Rightarrow> world \<Rightarrow> session \<Rightarrow> (bool \<times> world \<times> session) res" where
  "on_silence os sConf w s =
     (let (t, w) = sys_tick os w;
          TimePassed = sint ((ucast t :: u64) - LastActivityStamp s)
      in bindR (c_int (PacketTimeout s * 1000)) (\<lambda>limit.
         if TimePassed \<ge> limit then
           bindR (c_int (WindowRetryCount s + 1)) (\<lambda>n.
           let s = s\<lparr>WindowRetryCount := n\<rparr> in
           if WindowRetryCount s \<ge> RetryResendPacketMax sConf then Inr (False, w, s)
           else if SelectedOperation s = TFTP_OP_SERVER_TO_CLIENT
           then bindR (SMSG_DATA os sConf 1 w s) (\<lambda>(w, s). Inr (True, w, s))
           else if SelectedOperation s = TFTP_OP_CLIENT_TO_SERVER
           then bindR (SMSG_ACK_Block os 1 w s) (\<lambda>(w, s). Inr (True, w, s))
           else Inr (True, w, s))
         else Inr (True, w, s)))"

text \<open>One turn of the loop: \<open>False\<close> when it leaves the loop.\<close>

definition thread_turn :: "os \<Rightarrow> AppConfig \<Rightarrow> world \<Rightarrow> session \<Rightarrow> (bool \<times> world \<times> session) res" where
  "thread_turn os sConf w s =
     bindR (if LastRecvPktSize s > 0 then ParsePacket os sConf (nat (LastRecvPktSize s)) w s
            else Inr (0, w, s)) (\<lambda>(err, w, s).
     bindR (report_packet os w s) (\<lambda>w.
     if CommSocket s = INVALID_SOCKET_2 then Inr (False, w, s)
     else if Error s \<noteq> TFTP_ERR_NO_ERROR then
       let (w, s) = SMSG_Error os w s in Inr (False, w, s)
     else if TransferDone s = 1 then Inr (False, w, s)
     else bindR (receive os w s) (\<lambda>(w, s).
          if LastRecvPktSize s \<le> 0 then on_silence os sConf w s else Inr (True, w, s))))"

text \<open>
  The loop, with fuel because a client can keep it busy for ever: \<open>None\<close> when the fuel is used
  up. \<^verbatim>\<open>ServerIsRunning\<close> is never cleared by the program.
\<close>

fun thread_loop :: "os \<Rightarrow> AppConfig \<Rightarrow> nat \<Rightarrow> world \<Rightarrow> session \<Rightarrow> (world \<times> session) option res" where
  "thread_loop os sConf 0 w s = Inr None"
| "thread_loop os sConf (Suc fuel) w s =
     bindR (thread_turn os sConf w s) (\<lambda>(on, w, s).
     if on then thread_loop os sConf fuel w s else Inr (Some (w, s)))"

section \<open>Properties a turn keeps\<close>

text \<open>
  The states a loop passes through, the one it starts from included; \<open>turn\<close> is its turn, and the
  flag says whether the loop goes on from there.
\<close>

inductive turn_reached :: "('w \<Rightarrow> 's \<Rightarrow> (bool \<times> 'w \<times> 's) res) \<Rightarrow> 'w \<Rightarrow> 's \<Rightarrow> bool \<Rightarrow> 'w \<Rightarrow> 's \<Rightarrow> bool"
  for turn w s where
  start: "turn_reached turn w s True w s"
| step: "turn_reached turn w s True w1 s1 \<Longrightarrow> turn w1 s1 = Inr (go, w2, s2) \<Longrightarrow> turn_reached turn w s go w2 s2"

text \<open>
  A property of the world and the session that every turn of a loop keeps holds in all of them.
\<close>

locale turn_invariant =
  fixes P :: "'w \<Rightarrow> 's \<Rightarrow> bool"
    and turn :: "'w \<Rightarrow> 's \<Rightarrow> (bool \<times> 'w \<times> 's) res"
  assumes turn_P: "P w s \<Longrightarrow> turn w s = Inr (go, w', s') \<Longrightarrow> P w' s'"
begin

lemma reached_P: "turn_reached turn w s go w' s' \<Longrightarrow> P w s \<Longrightarrow> P w' s'"
  by (induction rule: turn_reached.induct) (auto intro: turn_P)

end

section \<open>What a turn keeps\<close>

lemma report_packet_frame:
  assumes "report_packet os w s = Inr w'"
  shows "disk w' = disk w" "sends w' = sends w" "open_fds w' = open_fds w" "NextPortToUse w' = NextPortToUse w"
    "calls w' = calls w + 3"
  using assms by (auto simp: report_packet_def Let_def bindR_eq_Inr)

lemma receive_frame:
  assumes "receive os w s = Inr (w', s')"
  shows "w' = next_call w"
    and "\<exists>buf n. s' = s\<lparr>LastRecvPacket := buf, LastRecvPktSize := n\<rparr> \<and>
      map_option length buf = map_option length (LastRecvPacket s)"
proof -
  show "w' = next_call w"
    using assms by (auto simp: receive_def sys_recv_def Let_def bindR_eq_Inr split: option.splits)
  show "\<exists>buf n. s' = s\<lparr>LastRecvPacket := buf, LastRecvPktSize := n\<rparr> \<and>
      map_option length buf = map_option length (LastRecvPacket s)"
  proof (cases "os_recv os (calls w) (CommSocket s) = None \<or> LastRecvPacket s = None")
    case True
    then have "s' = s\<lparr>LastRecvPacket := LastRecvPacket s, LastRecvPktSize := - 1\<rparr>"
      using assms by (auto simp: receive_def sys_recv_def Let_def split: option.splits)
    then show ?thesis by blast
  next
    case False
    then obtain dgram buf where db: "os_recv os (calls w) (CommSocket s) = Some dgram" "LastRecvPacket s = Some buf"
      by (cases "os_recv os (calls w) (CommSocket s)"; cases "LastRecvPacket s") auto
    define data where "data = take (nat (BlockSize s + TFTP_HEADER_SIZE)) dgram"
    have "length data \<le> length buf" "s' = s\<lparr>LastRecvPacket := Some (store_at 0 data buf), LastRecvPktSize := int (length data)\<rparr>"
      using assms db unfolding receive_def sys_recv_def Let_def data_def by (auto simp: bindR_eq_Inr)
    then show ?thesis using db(2) by (intro exI [of _ "Some (store_at 0 data buf)"] exI) auto
  qed
qed

lemma receive_inv:
  assumes "receive os w s = Inr (w', s')"
  shows "session_inv s' = session_inv s" and "file_ok sConf s' = file_ok sConf s"
proof -
  obtain buf n where s': "s' = s\<lparr>LastRecvPacket := buf, LastRecvPktSize := n\<rparr>"
    and len: "map_option length buf = map_option length (LastRecvPacket s)"
    using receive_frame(2) [OF assms] by blast
  from len have "buffer_ok s' = buffer_ok s"
    by (cases buf; cases "LastRecvPacket s") (simp_all add: s' buffer_ok_def)
  then show "session_inv s' = session_inv s" by (simp add: session_inv_defs s')
  show "file_ok sConf s' = file_ok sConf s" by (simp add: file_ok_def s')
qed

lemma on_silence_cases:
  assumes "on_silence os sConf w s = Inr (go, w', s')"
  obtains (waiting) "go" "w' = next_call w" "s' = s"
  | (given_up) n where "\<not> go" "w' = next_call w" "s' = s\<lparr>WindowRetryCount := n\<rparr>"
      "RetryResendPacketMax sConf \<le> n" "n = WindowRetryCount s + 1"
  | (data) n where "go" "SelectedOperation s = TFTP_OP_SERVER_TO_CLIENT" "n < RetryResendPacketMax sConf"
      "SMSG_DATA os sConf 1 (next_call w) (s\<lparr>WindowRetryCount := n\<rparr>) = Inr (w', s')"
  | (ack) n where "go" "SelectedOperation s = TFTP_OP_CLIENT_TO_SERVER" "n < RetryResendPacketMax sConf"
      "SMSG_ACK_Block os 1 (next_call w) (s\<lparr>WindowRetryCount := n\<rparr>) = Inr (w', s')"
      "n = WindowRetryCount s + 1"
  | (neither) n where "go" "w' = next_call w" "s' = s\<lparr>WindowRetryCount := n\<rparr>"
      "SelectedOperation s = TFTP_OP_NOT_INITIALIZED" "n < RetryResendPacketMax sConf"
      "n = WindowRetryCount s + 1"
proof -
  define late where
    "late \<longleftrightarrow> sint ((ucast (getTick (os_clock os (calls w))) :: u64) - LastActivityStamp s) \<ge> PacketTimeout s * 1000"
  have run: "(if late then
       bindR (c_int (WindowRetryCount s + 1)) (\<lambda>n.
       if n \<ge> RetryResendPacketMax sConf then Inr (False, next_call w, s\<lparr>WindowRetryCount := n\<rparr>)
       else if SelectedOperation s = TFTP_OP_SERVER_TO_CLIENT
       then bindR (SMSG_DATA os sConf 1 (next_call w) (s\<lparr>WindowRetryCount := n\<rparr>)) (\<lambda>(w, s). Inr (True, w, s))
       else if SelectedOperation s = TFTP_OP_CLIENT_TO_SERVER
       then bindR (SMSG_ACK_Block os 1 (next_call w) (s\<lparr>WindowRetryCount := n\<rparr>)) (\<lambda>(w, s). Inr (True, w, s))
       else Inr (True, next_call w, s\<lparr>WindowRetryCount := n\<rparr>))
     else Inr (True, next_call w, s)) = Inr (go, w', s')"
    using assms by (cases "int_ok (PacketTimeout s * 1000)")
      (simp_all add: on_silence_def sys_tick_def Let_def c_int_def late_def cong: if_cong)
  show thesis
  proof (cases late)
    case False
    with run show thesis by (intro waiting) simp_all
  next
    case True
    with run obtain n where n: "n = WindowRetryCount s + 1" by simp
    show thesis
    proof (cases "RetryResendPacketMax sConf \<le> n")
      case mx: True
      with True run n show thesis by (intro given_up [of n]) (auto simp: bindR_eq_Inr c_int_eq_Inr)
    next
      case mx: False
      with True run n show thesis
        by (cases "SelectedOperation s")
          (auto simp: bindR_eq_Inr c_int_eq_Inr intro: neither [of n] data [of n] ack [of n])
    qed
  qed
qed

text \<open>The error packet: the text and the code it carries for each error of the session.\<close>

definition error_text :: "TFTP_ERROR_CODES \<Rightarrow> bytes" where
  "error_text e =
     (if e = TFTP_ERR_FILE_NOT_FOUND then ''ERROR: File name and/or directory could not be resolved''
      else if e = TFTP_ERR_DISK_FULL then ''ERROR: Uploading files is not supported on this TFTP Server''
      else ''ERROR'')"

definition reported :: "TFTP_ERROR_CODES \<Rightarrow> TFTP_ERROR_CODES" where
  "reported e = (if e = TFTP_ERR_DISK_FULL then TFTP_ERR_UNDEFINED else e)"

lemma SMSG_Error_eq:
  "SMSG_Error os w s =
     (let pkt = error_packet (err_value (reported (Error s))) (error_text (Error s));
          k = calls w
      in (w\<lparr>calls := k + 2, sends := sends w @ [(CommSocket s, pkt, os_send os k (CommSocket s) pkt)]\<rparr>,
          s\<lparr>Error := reported (Error s), LastActivityStamp := ucast (getTick (os_clock os (Suc k)))\<rparr>))"
  by (auto simp: SMSG_Error_def error_text_def reported_def sys_send_def sys_tick_def next_call_def Let_def
      intro!: session.equality)

lemma SMSG_Error_frame:
  assumes "SMSG_Error os w s = (w', s')"
  shows "disk w' = disk w" and "\<exists>e t. s' = s\<lparr>Error := e, LastActivityStamp := t\<rparr>"
  using assms by (auto simp: SMSG_Error_eq Let_def)

lemma thread_turn_cases:
  assumes "thread_turn os sConf w s = Inr (go, w', s')"
  obtains w1 s1 w2 where
    "if LastRecvPktSize s > 0
     then \<exists>r. ParsePacket os sConf (nat (LastRecvPktSize s)) w s = Inr (r, w1, s1)
     else w1 = w \<and> s1 = s"
    "report_packet os w1 s1 = Inr w2"
    "(go, w', s') = (False, w2, s1) \<and> (CommSocket s1 = - 1 \<or> Error s1 = TFTP_ERR_NO_ERROR \<and> TransferDone s1 = 1)
     \<or> \<not> go \<and> SMSG_Error os w2 s1 = (w', s') \<and> Error s1 \<noteq> TFTP_ERR_NO_ERROR
     \<or> (\<exists>w3 s3. receive os w2 s1 = Inr (w3, s3) \<and>
          CommSocket s1 \<noteq> - 1 \<and> Error s1 = TFTP_ERR_NO_ERROR \<and> TransferDone s1 \<noteq> 1 \<and>
          (if LastRecvPktSize s3 \<le> 0 then on_silence os sConf w3 s3 = Inr (go, w', s')
           else (go, w', s') = (True, w3, s3)))"
proof -
  from assms obtain w1 s1 w2 where 1: "if LastRecvPktSize s > 0
     then \<exists>r. ParsePacket os sConf (nat (LastRecvPktSize s)) w s = Inr (r, w1, s1)
     else w1 = w \<and> s1 = s" and 2: "report_packet os w1 s1 = Inr w2"
    and rest: "(if CommSocket s1 = INVALID_SOCKET_2 then Inr (False, w2, s1)
     else if Error s1 \<noteq> TFTP_ERR_NO_ERROR then
       let (w, s) = SMSG_Error os w2 s1 in Inr (False, w, s)
     else if TransferDone s1 = 1 then Inr (False, w2, s1)
     else bindR (receive os w2 s1) (\<lambda>(w, s).
          if LastRecvPktSize s \<le> 0 then on_silence os sConf w s else Inr (True, w, s))) = Inr (go, w', s')"
    unfolding thread_turn_def by (auto simp: bindR_eq_Inr split: if_splits)
  show thesis
    by (rule that [OF 1 2], insert rest)
      (auto simp: INVALID_SOCKET_2_def bindR_eq_Inr split: if_splits prod.splits)
qed

definition thread_P :: "os \<Rightarrow> AppConfig \<Rightarrow> disk \<Rightarrow> world \<Rightarrow> session \<Rightarrow> bool" where
  "thread_P os sConf d0 w s \<longleftrightarrow> conf_ok sConf \<and> realloc_ok os \<and>
     session_inv s \<and> file_ok sConf s \<and> disk_safe sConf d0 (disk w)"

lemma ParsePacket_P:
  assumes "ParsePacket os sConf sz w s = Inr (r, w', s')" and "thread_P os sConf d0 w s"
  shows "thread_P os sConf d0 w' s'"
proof -
  from assms(2) have c: "conf_ok sConf" "realloc_ok os" and i: "session_inv s" "file_ok sConf s"
    and d: "disk_safe sConf d0 (disk w)" by (simp_all add: thread_P_def)
  have "effect_ok sConf w w' s'" by (rule ParsePacket_effect [OF assms(1) i c])
  then have "file_ok sConf s'" "disk_safe sConf d0 (disk w')"
    using disk_safe_trans [OF d] by (auto simp: effect_ok_def)
  with ParsePacket_inv [OF assms(1) i(1) c] c show ?thesis by (simp add: thread_P_def)
qed

lemma on_silence_P:
  assumes "on_silence os sConf w s = Inr (go, w', s')" and P: "thread_P os sConf d0 w s"
  shows "thread_P os sConf d0 w' s'"
  using assms(1)
proof (cases rule: on_silence_cases)
  case (data n)
  let ?s = "s\<lparr>WindowRetryCount := n\<rparr>"
  have inv: "session_inv ?s" using P by (simp add: thread_P_def)
  have pos: "1 \<le> FirstBlockInWindow ?s" using P data(2) by (simp add: thread_P_def session_inv_defs)
  have "effect_ok sConf (next_call w) w' s' \<and> CommSocket s' = CommSocket ?s"
    using P data(2) pos inv
    by (intro DATA_effect [OF data(4)]) (auto simp: thread_P_def file_ok_def session_inv_def)
  with SMSG_DATA_inv [OF data(4) inv pos] P show ?thesis
    using disk_safe_trans by (fastforce simp: thread_P_def effect_ok_def)
next
  case (ack n)
  let ?s = "s\<lparr>WindowRetryCount := n\<rparr>"
  have inv: "session_inv ?s" and up: "SelectedOperation ?s = TFTP_OP_CLIENT_TO_SERVER"
    using P ack(2) by (simp_all add: thread_P_def)
  show ?thesis
    using ACK_frame [OF ack(4) inv up] ACK_Block_inv [OF ack(4) inv up] P by (simp add: thread_P_def)
qed (use P in \<open>auto simp: thread_P_def\<close>)

lemma thread_turn_P:
  assumes "thread_P os sConf d0 w s" and "thread_turn os sConf w s = Inr (go, w', s')"
  shows "thread_P os sConf d0 w' s'"
  using assms(2)
proof (cases rule: thread_turn_cases)
  case (1 w1 s1 w2)
  have P1: "thread_P os sConf d0 w1 s1"
    using 1(1) assms(1) ParsePacket_P by (auto split: if_splits)
  then have P2: "thread_P os sConf d0 w2 s1" using report_packet_frame [OF 1(2)] by (simp add: thread_P_def)
  from 1(3) consider "(w', s') = (w2, s1)" | "SMSG_Error os w2 s1 = (w', s')"
    | w3 s3 where "receive os w2 s1 = Inr (w3, s3)"
      "on_silence os sConf w3 s3 = Inr (go, w', s') \<or> (w', s') = (w3, s3)"
    by (auto split: if_splits)
  then show ?thesis
  proof cases
    case 2
    from SMSG_Error_frame [OF this] P2 show ?thesis by (auto simp: thread_P_def)
  next
    case 3
    have "thread_P os sConf d0 w3 s3"
      using P2 receive_inv [OF 3(1)] receive_frame(1) [OF 3(1)] by (simp add: thread_P_def)
    with 3(2) on_silence_P show ?thesis by auto
  qed (use P2 in simp)
qed

interpretation thread: turn_invariant "thread_P os sConf d0" "thread_turn os sConf" for os sConf d0
  by unfold_locales (rule thread_turn_P)

text \<open>
  The loop and the states it passes through: what it returns is reached, with the flag \<open>False\<close>, and
  with enough fuel every state reached with that flag is returned.
\<close>

lemma thread_loop_reached:
  assumes "thread_loop os sConf fuel w s = Inr (Some (w', s'))" and "turn_reached (thread_turn os sConf) w0 s0 True w s"
  shows "turn_reached (thread_turn os sConf) w0 s0 False w' s'"
  using assms
proof (induction fuel arbitrary: w s)
  case (Suc fuel)
  then obtain go w1 s1 where t: "thread_turn os sConf w s = Inr (go, w1, s1)"
    and r: "if go then thread_loop os sConf fuel w1 s1 = Inr (Some (w', s')) else w1 = w' \<and> s1 = s'"
    by (auto simp: bindR_eq_Inr split: if_splits)
  have "turn_reached (thread_turn os sConf) w0 s0 go w1 s1" by (rule turn_reached.step [OF Suc.prems(2) t])
  then show ?case using r Suc.IH by (cases go) auto
qed simp

text \<open>The loop from a state it passes through is the rest of the loop.\<close>

lemma reached_thread_loop:
  assumes "turn_reached (thread_turn os sConf) w s go w' s'"
  shows "\<exists>n. \<forall>fuel. thread_loop os sConf (n + fuel) w s =
    (if go then thread_loop os sConf fuel w' s' else Inr (Some (w', s')))"
  using assms
proof (induction rule: turn_reached.induct)
  case start
  show ?case by (intro exI [of _ 0]) simp
next
  case (step w1 s1 go w2 s2)
  then obtain n where n: "\<forall>fuel. thread_loop os sConf (n + fuel) w s = thread_loop os sConf fuel w1 s1" by auto
  have "thread_loop os sConf (Suc n + fuel) w s = (if go then thread_loop os sConf fuel w2 s2 else Inr (Some (w2, s2)))" for fuel
    using n [rule_format, of "Suc fuel"] step(2) by simp
  then show ?case by blast
qed

text \<open>More fuel than enough changes nothing.\<close>

lemma thread_loop_more:
  "thread_loop os sConf fuel w s = Inr (Some r) \<Longrightarrow> fuel \<le> fuel' \<Longrightarrow> thread_loop os sConf fuel' w s = Inr (Some r)"
proof (induction fuel arbitrary: fuel' w s)
  case (Suc fuel)
  then obtain n where "fuel' = Suc n" "fuel \<le> n" by (cases fuel') auto
  with Suc show ?case by (auto simp: bindR_eq_Inr split: if_splits)
qed simp

end
