(* ===== verification/Delivery.thy ===== *)
theory Delivery
  imports Thread
begin

text \<open>
  Whole transfers: a session of the server and a client that behaves, on a network that loses
  nothing. \<open>serve\<close> is the loop of \<^verbatim>\<open>ThreadDirectComm\<close> for the datagrams it receives.
\<close>

section \<open>A session fed with datagrams\<close>

text \<open>The datagram \<open>dgram\<close> in the buffer, as \<^verbatim>\<open>recv\<close> and \<^verbatim>\<open>recvfrom\<close> leave it.\<close>

definition deliver :: "bytes \<Rightarrow> session \<Rightarrow> session res" where
  "deliver dgram s =
     bindR (packet_buf s) (\<lambda>buf.
     let data = take (nat (BlockSize s + TFTP_HEADER_SIZE)) dgram in
     bindR (guardR OutOfBounds (length data \<le> length buf)) (\<lambda>_.
     Inr (s\<lparr>LastRecvPacket := Some (store_at 0 data buf), LastRecvPktSize := int (length data)\<rparr>)))"

text \<open>
  The turn of the loop from its start to \<^verbatim>\<open>recv\<close>: the packet is parsed and reported, and an error is
  sent. The flag says whether the session then waits for the next packet.
\<close>

definition handle_packet :: "os \<Rightarrow> AppConfig \<Rightarrow> world \<Rightarrow> session \<Rightarrow> (bool \<times> world \<times> session) res" where
  "handle_packet os sConf w s =
     bindR (if LastRecvPktSize s > 0 then ParsePacket os sConf (nat (LastRecvPktSize s)) w s
            else Inr (0, w, s)) (\<lambda>(err, w, s).
     bindR (report_packet os w s) (\<lambda>w.
     if CommSocket s = INVALID_SOCKET_2 then Inr (False, w, s)
     else if Error s \<noteq> TFTP_ERR_NO_ERROR then
       let (w, s) = SMSG_Error os w s in Inr (False, w, s)
     else Inr (TransferDone s \<noteq> 1, w, s)))"

text \<open>The loop as long as datagrams come: those of the list, of which \<^verbatim>\<open>recv\<close> takes one in every turn.\<close>

fun serve :: "os \<Rightarrow> AppConfig \<Rightarrow> bytes list \<Rightarrow> world \<Rightarrow> session \<Rightarrow> (world \<times> session) res" where
  "serve os sConf [] w s = Inr (w, s)"
| "serve os sConf (p # ps) w s =
     bindR (deliver p s) (\<lambda>s.
     bindR (handle_packet os sConf w s) (\<lambda>(on, w, s).
     if on then serve os sConf ps (next_call w) s else Inr (w, s)))"

lemma receive_deliver:
  assumes "os_recv os (calls w) (CommSocket s) = Some dgram" and "LastRecvPacket s \<noteq> None"
  shows "receive os w s = bindR (deliver dgram s) (\<lambda>s. Inr (next_call w, s))"
  using assms by (auto simp: receive_def deliver_def packet_buf_def sys_recv_def Let_def bindR_assoc)

lemma thread_turn_handle:
  "thread_turn os sConf w s =
    bindR (handle_packet os sConf w s) (\<lambda>(on, w, s).
    if on then bindR (receive os w s) (\<lambda>(w, s). if LastRecvPktSize s \<le> 0 then on_silence os sConf w s else Inr (True, w, s))
    else Inr (False, w, s))"
  unfolding thread_turn_def handle_packet_def bindR_assoc
  by (rule bindR_cong [OF refl]) (auto simp: bindR_assoc Let_def split: prod.splits intro!: bindR_cong)

text \<open>What the report needs: the buffer holds as many bytes as were received.\<close>

definition packet_held :: "session \<Rightarrow> bool" where
  "packet_held s \<longleftrightarrow> (\<exists>buf. LastRecvPacket s = Some buf \<and> nat (LastRecvPktSize s) \<le> length buf)"

lemma session_held:
  assumes "buffer_ok s" and "LastRecvPktSize s \<le> BlockSize s + 6" shows "packet_held s"
  using assms by (auto simp: buffer_ok_def packet_held_def tftp_consts)

lemma report_held:
  assumes "sqs_inv (sqs w)" and "packet_held s"
  obtains q where "report_packet os w s = Inr (w\<lparr>calls := calls w + 3, sqs := q\<rparr>)" "sqs_inv q"
proof -
  have "\<forall>buf. LastRecvPacket s = Some buf \<longrightarrow> nat (LastRecvPktSize s) \<le> length buf"
    using assms(2) by (auto simp: packet_held_def)
  from OnPacketArrived_inv [OF assms(1) this] obtain q where
    "AWS_SQS_OnPacketArrived (os_malloc os (calls w)) (os_malloc os (calls w + 1)) (os_guid os (calls w + 2))
       (LastRecvPacket s) (LastRecvPktSize s) (CommSocket s) (Some (os_ntoa os (Client s))) (sqs w) = Inr q" "sqs_inv q"
    by blast
  then show thesis by (intro that [of q]) (simp_all add: report_packet_def Let_def)
qed

text \<open>
  One packet: what the handlers made of it, and after the report the end of the session or the wait
  for the next packet. The report and the wait touch neither the disk nor the network.
\<close>

lemma serve_step:
  assumes d: "deliver p s = Inr d" "0 < LastRecvPktSize d"
    and run: "ParsePacket os sConf (nat (LastRecvPktSize d)) w d = Inr (r, w1, s1)"
    and q: "sqs_inv (sqs w1)" "packet_held s1"
  obtains w2 where "disk w2 = disk w1" "sends w2 = sends w1" "sqs_inv (sqs w2)"
    "serve os sConf (p # ps) w s =
      (if CommSocket s1 = - 1 then Inr (w2, s1)
       else if Error s1 \<noteq> TFTP_ERR_NO_ERROR then Inr (SMSG_Error os w2 s1)
       else if TransferDone s1 = 1 then Inr (w2, s1) else serve os sConf ps (next_call w2) s1)"
proof -
  from report_held [OF q] obtain q where rp: "report_packet os w1 s1 = Inr (w1\<lparr>calls := calls w1 + 3, sqs := q\<rparr>)" "sqs_inv q" .
  show thesis
    by (rule that [of "w1\<lparr>calls := calls w1 + 3, sqs := q\<rparr>"])
      (use d run rp in \<open>simp_all add: handle_packet_def INVALID_SOCKET_2_def split: prod.split\<close>)
qed

text \<open>The delivered packet as the handlers read it.\<close>

definition delivered_session :: "bytes \<Rightarrow> session \<Rightarrow> session" where
  "delivered_session p s = s\<lparr>LastRecvPacket := map_option (store_at 0 p) (LastRecvPacket s),
     LastRecvPktSize := int (length p)\<rparr>"

lemma deliver_eq:
  assumes "session_inv s" and "int (length p) \<le> BlockSize s + 4"
  shows "deliver p s = Inr (delivered_session p s)"
proof -
  obtain buf where buf: "LastRecvPacket s = Some buf" "int (length buf) = BlockSize s + 6"
    using assms(1) by (auto simp: session_inv_defs tftp_consts)
  have "take (nat (BlockSize s + 4)) p = p" using assms(2) by simp
  then show ?thesis
    using buf assms(2) by (simp add: deliver_def packet_buf_def delivered_session_def tftp_consts)
qed

lemma delivered_simps [simp]:
  "hFile (delivered_session p s) = hFile s" "SelectedOperation (delivered_session p s) = SelectedOperation s"
  "BytesHandled (delivered_session p s) = BytesHandled s" "Error (delivered_session p s) = Error s"
  "CommSocket (delivered_session p s) = CommSocket s" "ReadDone (delivered_session p s) = ReadDone s"
  "TransferDone (delivered_session p s) = TransferDone s" "BlockSize (delivered_session p s) = BlockSize s"
  "WindowSize (delivered_session p s) = WindowSize s"
  "FirstBlockInWindow (delivered_session p s) = FirstBlockInWindow s"
  "BlockNrInWindowReceived (delivered_session p s) = BlockNrInWindowReceived s"
  "LastRecvPktSize (delivered_session p s) = int (length p)"
  by (simp_all add: delivered_session_def)

lemma delivered_inv:
  assumes "session_inv s" and "int (length p) \<le> BlockSize s + 4"
  shows "session_inv (delivered_session p s)"
proof -
  obtain buf where buf: "LastRecvPacket s = Some buf" "int (length buf) = BlockSize s + 6"
    using assms(1) by (auto simp: session_inv_defs tftp_consts)
  then have "length (store_at 0 p buf) = length buf" using assms(2) by simp
  then show ?thesis using assms(1) buf by (simp add: session_inv_defs delivered_session_def tftp_consts)
qed

lemma delivered_buf:
  assumes "session_inv s" and "int (length p) \<le> BlockSize s + 4"
  shows "\<exists>buf. LastRecvPacket (delivered_session p s) = Some buf \<and> take (length p) buf = p \<and>
    int (length buf) = BlockSize s + 6"
proof -
  obtain buf where buf: "LastRecvPacket s = Some buf" "int (length buf) = BlockSize s + 6"
    using assms(1) by (auto simp: session_inv_defs tftp_consts)
  have "take (length p) (store_at 0 p buf) = p" by (simp add: store_at_def)
  moreover have "length (store_at 0 p buf) = length buf" using assms(2) buf(2) by simp
  ultimately show ?thesis using buf by (simp add: delivered_session_def)
qed

lemma delivered_u16:
  assumes "session_inv s" and "int (length rest) \<le> BlockSize s"
  shows "packet_u16 (delivered_session (packet4 op n @ rest) s) 0 = Inr (op_value op)"
    and "packet_u16 (delivered_session (packet4 op n @ rest) s) 2 = Inr n"
proof -
  let ?p = "packet4 op n @ rest"
  have "int (length ?p) \<le> BlockSize s + 4" using assms(2) by simp
  from delivered_buf [OF assms(1) this] obtain buf where
    buf: "LastRecvPacket (delivered_session ?p s) = Some buf" "take (length ?p) buf = ?p"
      "int (length buf) = BlockSize s + 6" by blast
  have len: "4 \<le> length buf" using buf(3) assms(1) by (simp add: session_inv_def ranges_ok_def)
  have nth: "buf ! i = ?p ! i" if "i < 4" for i
    using that nth_take [of i "length ?p" buf] by (simp only: buf(2)) simp
  have p: "?p ! 0 = htons_bytes (op_value op) ! 0" "?p ! 1 = htons_bytes (op_value op) ! 1"
    "?p ! 2 = htons_bytes n ! 0" "?p ! 3 = htons_bytes n ! 1"
    by (simp_all add: packet4_def nth_append)
  have "packet_u16 (delivered_session ?p s) 0 = Inr (ntohs_bytes (buf ! 0) (buf ! 1))"
    using len by (simp add: packet_u16_def packet_buf_def buf(1))
  then show "packet_u16 (delivered_session ?p s) 0 = Inr (op_value op)"
    using nth [of 0] nth [of 1] p ntohs_htons [of "op_value op"] by simp
  have "packet_u16 (delivered_session ?p s) 2 = Inr (ntohs_bytes (buf ! 2) (buf ! 3))"
    using len by (simp add: packet_u16_def packet_buf_def buf(1))
  then show "packet_u16 (delivered_session ?p s) 2 = Inr n"
    using nth [of 2] nth [of 3] p ntohs_htons [of n] by simp
qed

section \<open>The blocks of a file\<close>

text \<open>A file of \<open>l\<close> bytes is sent in \<open>l div b + 1\<close> blocks, of which only the last is short.\<close>

definition blocks :: "nat \<Rightarrow> bytes \<Rightarrow> nat" where
  "blocks b c = length c div b + 1"

lemma block_short_iff: "0 < b \<Longrightarrow> k < blocks b c \<Longrightarrow> length (file_block b c k) < b \<longleftrightarrow> Suc k = blocks b c"
proof -
  assume b: "0 < b" and k: "k < blocks b c"
  have "length c < blocks b c * b" using b by (simp add: blocks_def dividend_less_div_times)
  moreover have "(blocks b c - 1) * b \<le> length c" by (simp add: blocks_def)
  moreover have "Suc k * b \<le> (blocks b c - 1) * b" if "Suc k \<noteq> blocks b c"
    using that k by (intro mult_le_mono1) simp
  ultimately show ?thesis
  proof (cases "Suc k = blocks b c")
    case True
    then have "length c < k * b + b" using \<open>length c < blocks b c * b\<close> True [symmetric] by simp
    then have "length c - k * b < b" using b by linarith
    with True show ?thesis by (simp add: length_file_block)
  next
    case False
    then have "k * b + b \<le> length c"
      using \<open>Suc k \<noteq> blocks b c \<Longrightarrow> Suc k * b \<le> (blocks b c - 1) * b\<close> \<open>(blocks b c - 1) * b \<le> length c\<close>
      by simp
    with False show ?thesis by (simp add: length_file_block)
  qed
qed

lemma concat_blocks: "0 < b \<Longrightarrow> concat (map (file_block b c) [0..<blocks b c]) = c"
  using dividend_less_div_times [of b "length c"] unfolding concat_file_blocks by (simp add: blocks_def)

lemma window_payloads_eq:
  assumes "0 < b" and "k < blocks b c"
  shows "window_payloads b c n k = map (file_block b c) [k..<min (k + n) (blocks b c)]"
  using assms
proof (induction n arbitrary: k)
  case (Suc n)
  have short: "length (file_block b c k) < b \<longleftrightarrow> Suc k = blocks b c"
    using Suc.prems by (rule block_short_iff)
  show ?case
  proof (cases "Suc k = blocks b c")
    case True
    have "min (k + Suc n) (Suc k) = Suc k" by simp
    then show ?thesis using short unfolding True [symmetric] by (simp add: Let_def)
  next
    case False
    then have "Suc k < blocks b c" using Suc.prems by simp
    moreover have "[k..<min (k + Suc n) (blocks b c)] = k # [Suc k..<min (Suc k + n) (blocks b c)]"
      using \<open>Suc k < blocks b c\<close> by (simp add: upt_conv_Cons)
    ultimately show ?thesis using Suc.IH [OF Suc.prems(1), of "Suc k"] short False by (simp add: Let_def)
  qed
qed (use assms in simp)

lemma has_short_window:
  assumes "0 < b" and "k < blocks b c" and "0 < n"
  shows "has_short b (map (file_block b c) [k..<min (k + n) (blocks b c)]) \<longleftrightarrow> blocks b c \<le> k + n"
proof
  assume "has_short b (map (file_block b c) [k..<min (k + n) (blocks b c)])"
  then obtain j where "k \<le> j" "j < k + n" "j < blocks b c" "length (file_block b c j) < b"
    by (auto simp: has_short_def)
  with block_short_iff [OF assms(1)] show "blocks b c \<le> k + n" by fastforce
next
  assume "blocks b c \<le> k + n"
  moreover have "length (file_block b c (blocks b c - 1)) < b"
    using block_short_iff [OF assms(1), of "blocks b c - 1" c] assms(2) by simp
  ultimately show "has_short b (map (file_block b c) [k..<min (k + n) (blocks b c)])"
    using assms(2) unfolding has_short_def by (auto intro!: bexI [of _ "blocks b c - 1"])
qed

lemma total_length_concat: "total_length ps = length (concat ps)"
  by (induction ps) (simp_all add: total_length_def)

lemma total_blocks: "total_length (map (file_block b c) [0..<m]) = min (m * b) (length c)"
  by (simp add: total_length_concat concat_file_blocks)

lemma window_sends_append:
  "window_sends fd i (ps @ qs) = window_sends fd i ps @ window_sends fd (i + int (length ps)) qs"
proof -
  have "window_packets i (ps @ qs) = window_packets i ps @ window_packets (i + int (length ps)) qs"
    by (induction i ps rule: window_packets.induct) (simp_all add: algebra_simps)
  then show ?thesis by (simp add: window_sends_def)
qed

lemma within_limit_of_nat:
  assumes "KillConnectionAfterxBytesReceived sConf = 0 \<or>
    (0 < KillConnectionAfterxBytesReceived sConf \<and> int_ok (KillConnectionAfterxBytesReceived sConf) \<and>
     int (x + y) \<le> KillConnectionAfterxBytesReceived sConf)"
  shows "within_limit sConf (of_nat x) y"
proof (cases "KillConnectionAfterxBytesReceived sConf = 0")
  case False
  with assms have "int (x + y) \<le> 2147483647" by (simp add: int_ok_def INT_MAX_def)
  then have "x < 18446744073709551616" by linarith
  then have "unat (of_nat x :: u64) = x" by (simp add: unsigned_of_nat take_bit_nat_eq_self)
  with False assms show ?thesis by (simp add: within_limit_def)
qed (simp add: within_limit_def)

section \<open>A download\<close>

definition lossless :: "os \<Rightarrow> bool" where
  "lossless os \<longleftrightarrow> sends_ok os \<and> (\<forall>k. os_malloc os k)"

text \<open>The file fits the block numbers, the offsets and the configured limit.\<close>

definition size_ok :: "AppConfig \<Rightarrow> nat \<Rightarrow> bytes \<Rightarrow> bool" where
  "size_ok sConf b c \<longleftrightarrow> blocks b c \<le> 65535 \<and> blocks b c * b \<le> 2147483647 \<and>
     (KillConnectionAfterxBytesReceived sConf = 0 \<or>
      (0 < KillConnectionAfterxBytesReceived sConf \<and> int_ok (KillConnectionAfterxBytesReceived sConf) \<and>
       int (length c) \<le> KillConnectionAfterxBytesReceived sConf))"

text \<open>
  The session when the window of \<open>W\<close> blocks of \<open>b\<close> bytes that starts after block \<open>k\<close> is about
  to be sent, and when it has been sent.
\<close>

definition serving :: "nat \<Rightarrow> nat \<Rightarrow> bytes \<Rightarrow> int \<Rightarrow> nat \<Rightarrow> world \<Rightarrow> session \<Rightarrow> bool" where
  "serving b W c fd k w s \<longleftrightarrow> session_inv s \<and> (\<exists>f. hFile s = Some f \<and> f_content (disk w) f = c) \<and>
     SelectedOperation s = TFTP_OP_SERVER_TO_CLIENT \<and> Error s = TFTP_ERR_NO_ERROR \<and> TransferDone s = 0 \<and>
     CommSocket s = fd \<and> BlockSize s = int b \<and> WindowSize s = int W \<and> FirstBlockInWindow s = int k + 1"

definition ready :: "nat \<Rightarrow> nat \<Rightarrow> bytes \<Rightarrow> int \<Rightarrow> nat \<Rightarrow> world \<Rightarrow> session \<Rightarrow> bool" where
  "ready b W c fd k w s \<longleftrightarrow> serving b W c fd k w s \<and> k < blocks b c \<and> ReadDone s = 0 \<and>
     BytesHandled s = of_nat (min (k * b) (length c))"

definition window_sent :: "nat \<Rightarrow> nat \<Rightarrow> bytes \<Rightarrow> int \<Rightarrow> nat \<Rightarrow> world \<Rightarrow> session \<Rightarrow> bool" where
  "window_sent b W c fd k w s \<longleftrightarrow> serving b W c fd k w s \<and> k < blocks b c \<and>
     ReadDone s = (if blocks b c \<le> k + W then 1 else 0) \<and>
     BytesHandled s = of_nat (min (min (k + W) (blocks b c) * b) (length c))"

lemma servingD:
  assumes "serving b W c fd k w s"
  shows "0 < b" "0 < W" "8 \<le> b" "session_inv s" "ranges_ok s"
  using assms by (auto simp: serving_def session_inv_def ranges_ok_def)

lemma total_window:
  assumes "0 < b" and "k < blocks b c"
  shows "min (k * b) (length c) + total_length (map (file_block b c) [k..<min (k + W) (blocks b c)]) =
    min (min (k + W) (blocks b c) * b) (length c)"
proof -
  have le: "k \<le> min (k + W) (blocks b c)" using assms by simp
  have "[0..<min (k + W) (blocks b c)] = [0..<k] @ [k..<min (k + W) (blocks b c)]"
    using upt_add_eq_append [of 0 k "min (k + W) (blocks b c) - k"] le by simp
  then have "total_length (map (file_block b c) [0..<min (k + W) (blocks b c)]) =
      total_length (map (file_block b c) [0..<k]) + total_length (map (file_block b c) [k..<min (k + W) (blocks b c)])"
    by (simp add: total_length_def)
  then show ?thesis by (simp only: total_blocks)
qed

lemma send_window:
  assumes os: "lossless os" and sz: "size_ok sConf b c" and rd: "ready b W c fd k w s"
  shows "\<exists>w' s'. SMSG_DATA os sConf resend w s = Inr (w', s') \<and> window_sent b W c fd k w' s' \<and>
    sends w' = sends w @ window_sends fd (int k + 1) (map (file_block b c) [k..<min (k + W) (blocks b c)]) \<and>
    disk w' = disk w \<and> sqs w' = sqs w \<and> LastRecvPktSize s' = LastRecvPktSize s"
proof -
  have sv: "serving b W c fd k w s" and k: "k < blocks b c" using rd by (simp_all add: ready_def)
  note D = servingD [OF sv]
  from sv obtain f where f: "hFile s = Some f" "f_content (disk w) f = c" by (auto simp: serving_def)
  have s: "FirstBlockInWindow s = int k + 1" "CommSocket s = fd" "BlockSize s = int b" "WindowSize s = int W"
    using sv by (simp_all add: serving_def)
  have off: "int_ok (data_offset s)"
  proof -
    have "data_offset s = int (k * b)" by (simp add: data_offset_def s)
    moreover have "k * b \<le> blocks b c * b" using k by (intro mult_le_mono1) simp
    then have "k * b \<le> 2147483647" using sz unfolding size_ok_def by linarith
    then have "int (k * b) \<le> 2147483647" by (metis of_nat_le_iff of_nat_numeral)
    ultimately show ?thesis by (intro int_okI) linarith+
  qed
  define ps where "ps = map (file_block b c) [k..<min (k + W) (blocks b c)]"
  have ps: "ps = window_payloads (nat (BlockSize s)) (f_content (disk w) f) (nat (WindowSize s)) k"
    using window_payloads_eq [OF D(1) k] by (simp add: ps_def s f)
  have tot: "min (k * b) (length c) + total_length ps = min (min (k + W) (blocks b c) * b) (length c)"
    using total_window [OF D(1) k] by (simp add: ps_def)
  have lim: "within_limit sConf (BytesHandled s) (total_length ps)"
    using sz rd tot by (auto simp: ready_def size_ok_def intro!: within_limit_of_nat)
  have "os_malloc os (calls w)" "sends_ok os" using os by (simp_all add: lossless_def)
  from SMSG_DATA_ok [OF this(2,1) f(1) D(5) s(1) off ps lim, of resend] obtain f' kk ts where
    run: "SMSG_DATA os sConf resend w s =
      Inr (w\<lparr>calls := kk, sends := sends w @ window_sends (CommSocket s) (FirstBlockInWindow s) ps\<rparr>,
        s\<lparr>hFile := Some f', ReadDone := if has_short (nat (BlockSize s)) ps then 1 else ReadDone s,
          BytesHandled := BytesHandled s + of_nat (total_length ps), WindowRetryCount := 0, LastActivityStamp := ts\<rparr>)"
    and nm: "f_name f' = f_name f" by blast
  define s' where "s' = s\<lparr>hFile := Some f', ReadDone := if has_short (nat (BlockSize s)) ps then 1 else ReadDone s,
      BytesHandled := BytesHandled s + of_nat (total_length ps), WindowRetryCount := 0, LastActivityStamp := ts\<rparr>"
  define w' where "w' = w\<lparr>calls := kk, sends := sends w @ window_sends (CommSocket s) (FirstBlockInWindow s) ps\<rparr>"
  have "session_inv s'" using D(4) by (simp add: s'_def session_inv_defs)
  moreover have "f_content (disk w') f' = c" using nm f(2) by (simp add: w'_def f_content_def)
  ultimately have "serving b W c fd k w' s'" using sv by (simp add: serving_def s'_def)
  moreover have "has_short b ps \<longleftrightarrow> blocks b c \<le> k + W"
    using has_short_window [OF D(1) k D(2)] by (simp add: ps_def)
  moreover have "BytesHandled s' = of_nat (min (min (k + W) (blocks b c) * b) (length c))"
    using rd unfolding tot [symmetric] by (simp add: ready_def s'_def)
  ultimately have "window_sent b W c fd k w' s'"
    using k rd s by (simp add: window_sent_def s'_def ready_def)
  then show ?thesis
    using run by (intro exI [of _ w'] exI [of _ s']) (simp add: s'_def w'_def s ps_def)
qed

text \<open>An acknowledgement on its way through \<open>ParsePacket\<close>.\<close>

lemma ParsePacket_ack:
  assumes "session_inv s"
  shows "ParsePacket os sConf 4 w (delivered_session (ack_packet n) s) =
    CMSG_ACK os sConf 4 w (delivered_session (ack_packet n) s)"
  using delivered_u16(1) [OF assms, of "[]" OP_ACK n] assms
  by (simp add: ParsePacket_def EnsureHaveEnoughPacketBytes_def ack_packet_def session_inv_def ranges_ok_def)

lemma deliver_ack:
  assumes "session_inv s"
  shows "deliver (ack_packet n) s = Inr (delivered_session (ack_packet n) s)"
  using assms by (intro deliver_eq) (simp_all add: session_inv_def ranges_ok_def)

lemma serve_ack:
  assumes inv: "session_inv s" and run: "CMSG_ACK os sConf 4 w (delivered_session (ack_packet n) s) = Inr (r, w1, s1)"
    and q: "sqs_inv (sqs w1)" and s1: "session_inv s1" "LastRecvPktSize s1 = 4"
  obtains w2 where "disk w2 = disk w1" "sends w2 = sends w1" "sqs_inv (sqs w2)"
    "serve os sConf (ack_packet n # ps) w s =
      (if CommSocket s1 = - 1 then Inr (w2, s1)
       else if Error s1 \<noteq> TFTP_ERR_NO_ERROR then Inr (SMSG_Error os w2 s1)
       else if TransferDone s1 = 1 then Inr (w2, s1) else serve os sConf ps (next_call w2) s1)"
proof -
  let ?d = "delivered_session (ack_packet n) s"
  have pp: "ParsePacket os sConf (nat (LastRecvPktSize ?d)) w ?d = Inr (r, w1, s1)"
    using run by (simp add: ParsePacket_ack [OF inv])
  have ph: "packet_held s1" using s1 by (intro session_held) (simp_all add: session_inv_def ranges_ok_def)
  show thesis by (rule serve_step [OF deliver_ack [OF inv] _ pp q ph, of ps]) (simp, rule that)
qed

lemma CMSG_ACK_in_window:
  assumes inv: "session_inv s" and sel: "SelectedOperation s = TFTP_OP_SERVER_TO_CLIENT"
    and lo: "FirstBlockInWindow s \<le> uint n" and hi: "uint n \<le> FirstBlockInWindow s + WindowSize s - 1"
  shows "CMSG_ACK os sConf 4 w (delivered_session (ack_packet n) s) =
    (let s' = (delivered_session (ack_packet n) s)\<lparr>FirstBlockInWindow := uint n + 1\<rparr> in
     if ReadDone s = 1 then Inr (0, w, s'\<lparr>TransferDone := 1\<rparr>)
     else bindR (SMSG_DATA os sConf 0 w s') (\<lambda>(w, s). Inr (0, w, s)))"
proof -
  have r: "0 \<le> FirstBlockInWindow s" "FirstBlockInWindow s \<le> 65536" "1 \<le> WindowSize s" "WindowSize s \<le> 65535"
    using inv by (simp_all add: session_inv_def ranges_ok_def)
  then have c: "c_int (FirstBlockInWindow s + WindowSize s) = Inr (FirstBlockInWindow s + WindowSize s)"
    "c_int (FirstBlockInWindow s + WindowSize s - 1) = Inr (FirstBlockInWindow s + WindowSize s - 1)"
    by (auto intro!: c_int_ok int_okI)
  have "packet_u16 (delivered_session (ack_packet n) s) 2 = Inr n"
    using delivered_u16(2) [OF inv, of "[]" OP_ACK n] r inv
    by (simp add: ack_packet_def session_inv_def ranges_ok_def)
  then show ?thesis
    using sel lo hi c by (simp add: CMSG_ACK_def EnsureHaveEnoughPacketBytes_def Let_def not_less)
qed

text \<open>
  The client acknowledges the last block of every window: these are its packets from window
  \<open>j\<close> on, for a file of \<open>n\<close> blocks.
\<close>

definition windows :: "nat \<Rightarrow> nat \<Rightarrow> nat" where
  "windows W n = (n - 1) div W + 1"

definition client_acks :: "nat \<Rightarrow> nat \<Rightarrow> nat \<Rightarrow> bytes list" where
  "client_acks W n j = map (\<lambda>i. ack_packet (of_nat (min (i * W + W) n))) [j..<windows W n]"

lemma window_before:
  assumes "0 < W" and "0 < n" shows "j < windows W n \<longleftrightarrow> j * W < n"
  using assms less_eq_div_iff_mult_less_eq [of W j "n - 1"] by (auto simp: windows_def)

lemma uint_of_nat_u16: "k \<le> 65535 \<Longrightarrow> uint (of_nat k :: u16) = int k"
  by (simp add: unsigned_of_nat take_bit_nat_eq_self)

lemma ready_after_ack:
  assumes "window_sent b W c fd k w s" and more: "k + W < blocks b c"
    and that: "int (length p) \<le> BlockSize s + 4" "blocks b c \<le> 65535"
  shows "ready b W c fd (k + W) w
    ((delivered_session p s)\<lparr>FirstBlockInWindow := int (k + W) + 1\<rparr>)"
proof -
  let ?s = "delivered_session p s"
  have sv: "serving b W c fd k w s" using assms(1) by (simp add: window_sent_def)
  have "session_inv ?s" using delivered_inv [OF servingD(4) [OF sv] that(1)] .
  then have "session_inv (?s\<lparr>FirstBlockInWindow := int (k + W) + 1\<rparr>)"
    using that(2) more by (simp add: session_inv_defs)
  then have "serving b W c fd (k + W) w (?s\<lparr>FirstBlockInWindow := int (k + W) + 1\<rparr>)"
    using sv by (simp add: serving_def)
  then show ?thesis using assms by (simp add: ready_def window_sent_def)
qed

text \<open>The rest of a download, from the acknowledgement of window \<open>j\<close> on.\<close>

lemma serve_windows:
  assumes os: "lossless os" and sz: "size_ok sConf b c"
    and fd: "fd \<noteq> - 1" and sent: "window_sent b W c fd (j * W) w s" and q: "sqs_inv (sqs w)"
  shows "\<exists>w' s'. serve os sConf (client_acks W (blocks b c) j) w s = Inr (w', s') \<and>
    TransferDone s' = 1 \<and> Error s' = TFTP_ERR_NO_ERROR \<and> disk w' = disk w \<and>
    sends w' = sends w @ window_sends fd (int (min (j * W + W) (blocks b c)) + 1)
      (map (file_block b c) [min (j * W + W) (blocks b c)..<blocks b c])"
  using sent q
proof (induction "windows W (blocks b c) - j" arbitrary: j w s)
  case (0 j w s)
  have sv: "serving b W c fd (j * W) w s" and k: "j * W < blocks b c" using "0.prems"(1) by (simp_all add: window_sent_def)
  have "j < windows W (blocks b c)" using window_before k servingD(2) [OF sv] by simp
  with "0.hyps" show ?case by simp
next
  case (Suc x j w s)
  let ?n = "blocks b c" let ?k = "j * W"
  have sv: "serving b W c fd ?k w s" and k: "?k < ?n" using Suc.prems(1) by (simp_all add: window_sent_def)
  note D = servingD [OF sv]
  have j: "j < windows W ?n" using window_before k D(2) by simp
  let ?a = "min (?k + W) ?n"
  define nr where "nr = (of_nat ?a :: u16)"
  have nr: "uint nr = int ?a" using sz unfolding nr_def by (intro uint_of_nat_u16) (simp add: size_ok_def min.coboundedI2)
  have acks: "client_acks W ?n j = ack_packet nr # client_acks W ?n (Suc j)"
    using j by (simp add: client_acks_def upt_conv_Cons nr_def)
  have fb: "FirstBlockInWindow s = int ?k + 1" "WindowSize s = int W" "SelectedOperation s = TFTP_OP_SERVER_TO_CLIENT"
    "Error s = TFTP_ERR_NO_ERROR" "TransferDone s = 0" "BlockSize s = int b" "CommSocket s = fd"
    using sv by (simp_all add: serving_def)
  let ?d = "delivered_session (ack_packet nr) s"
  have "?k + 1 \<le> ?a" "?a \<le> ?k + W" using D(2) k by simp_all
  then have lo: "FirstBlockInWindow s \<le> uint nr" and hi: "uint nr \<le> FirstBlockInWindow s + WindowSize s - 1"
    unfolding fb nr by linarith+
  note step = CMSG_ACK_in_window [OF D(4) fb(3) lo hi, of os sConf w]
  have "int (length (ack_packet nr)) \<le> BlockSize s + 4" by (simp add: fb)
  then have inv_d: "session_inv ?d" by (rule delivered_inv [OF D(4)])
  show ?case
  proof (cases "?n \<le> ?k + W")
    case True
    let ?e = "?d\<lparr>FirstBlockInWindow := uint nr + 1, TransferDone := 1\<rparr>"
    have "ReadDone s = 1" using True Suc.prems(1) by (simp add: window_sent_def)
    then have run: "CMSG_ACK os sConf 4 w ?d = Inr (0, w, ?e)" using step by (simp add: Let_def)
    have "?a \<le> 65535" using sz by (simp add: size_ok_def min.coboundedI2)
    then have "session_inv ?e" using inv_d nr by (simp add: session_inv_defs)
    from serve_ack [OF D(4) run Suc.prems(2) this, of "client_acks W ?n (Suc j)"] obtain w2 where
      "disk w2 = disk w" "sends w2 = sends w" "serve os sConf (client_acks W ?n j) w s = Inr (w2, ?e)"
      using fb fd by (auto simp: acks simp del: serve.simps)
    then show ?thesis using True fb(4) by (simp add: window_sends_def)
  next
    case False
    then have rd: "ReadDone s = 0" and a: "?a = ?k + W" using Suc.prems(1) by (simp_all add: window_sent_def)
    have "int (length (ack_packet nr)) \<le> BlockSize s + 4" by (simp add: fb)
    from ready_after_ack [OF Suc.prems(1) _ this] False sz
    have rdy: "ready b W c fd (?k + W) w (?d\<lparr>FirstBlockInWindow := uint nr + 1\<rparr>)"
      by (simp add: nr a size_ok_def)
    from send_window [OF os sz rdy, of 0] obtain w1 s1 where
      run: "SMSG_DATA os sConf 0 w (?d\<lparr>FirstBlockInWindow := uint nr + 1\<rparr>) = Inr (w1, s1)"
      and ws: "window_sent b W c fd (?k + W) w1 s1" and d1: "disk w1 = disk w"
      and sd: "sends w1 = sends w @ window_sends fd (int (?k + W) + 1)
          (map (file_block b c) [?k + W..<min (?k + W + W) ?n])" and q1: "sqs w1 = sqs w"
      and l1: "LastRecvPktSize s1 = 4" by (auto simp: delivered_session_def)
    have run1: "CMSG_ACK os sConf 4 w ?d = Inr (0, w1, s1)" using step run rd by (simp add: Let_def)
    have s1: "Error s1 = TFTP_ERR_NO_ERROR" "TransferDone s1 = 0" "CommSocket s1 = fd" "session_inv s1"
      using ws by (simp_all add: window_sent_def serving_def)
    from serve_ack [OF D(4) run1 _ s1(4) l1, of "client_acks W ?n (Suc j)"] obtain w2 where
      w2: "disk w2 = disk w1" "sends w2 = sends w1" "sqs_inv (sqs w2)"
      and go: "serve os sConf (client_acks W ?n j) w s = serve os sConf (client_acks W ?n (Suc j)) (next_call w2) s1"
      using s1 fd q1 Suc.prems(2) by (auto simp: acks simp del: serve.simps)
    have "x = windows W ?n - Suc j" using Suc.hyps(2) by simp
    moreover have "window_sent b W c fd (Suc j * W) (next_call w2) s1"
      using ws w2(1) by (simp add: add.commute window_sent_def serving_def f_content_def)
    moreover have "sqs_inv (sqs (next_call w2))" using w2(3) by simp
    ultimately obtain w' s' where ih: "serve os sConf (client_acks W ?n (Suc j)) (next_call w2) s1 = Inr (w', s')"
      "TransferDone s' = 1" "Error s' = TFTP_ERR_NO_ERROR" "disk w' = disk w1"
      "sends w' = sends w1 @ window_sends fd (int (min (Suc j * W + W) ?n) + 1)
        (map (file_block b c) [min (Suc j * W + W) ?n..<?n])"
      using Suc.hyps(1) [of "Suc j" "next_call w2" s1] w2(1,2) by auto
    let ?m = "min (?k + W + W) ?n"
    have m: "min (Suc j * W + W) ?n = ?m" by (simp add: add.commute)
    have km: "?k + W \<le> ?m" using False by simp
    have "[?k + W..<?n] = [?k + W..<?m] @ [?m..<?n]"
      using km upt_add_eq_append [of "?k + W" ?m "?n - ?m"] by simp
    moreover have "int (?k + W) + 1 + int (length (map (file_block b c) [?k + W..<?m])) = int ?m + 1"
      using km by simp
    ultimately have "sends w' = sends w @ window_sends fd (int (?k + W) + 1) (map (file_block b c) [?k + W..<?n])"
      using ih(5) sd unfolding m by (simp only: map_append window_sends_append append_assoc)
    then show ?thesis using go ih d1 a by simp
  qed
qed

text \<open>What the packets of a download carry, put together, is the file.\<close>

lemma download_ready:
  assumes os: "lossless os" and sz: "size_ok sConf b c" and fd: "fd \<noteq> - 1" and rd: "ready b W c fd 0 w s"
  obtains w1 s1 where "SMSG_DATA os sConf 0 w s = Inr (w1, s1)" "window_sent b W c fd 0 w1 s1"
    "sqs w1 = sqs w" "LastRecvPktSize s1 = LastRecvPktSize s"
    "\<And>w2. disk w2 = disk w1 \<Longrightarrow> sends w2 = sends w1 \<Longrightarrow> sqs_inv (sqs w2) \<Longrightarrow>
      \<exists>w' s'. serve os sConf (client_acks W (blocks b c) 0) w2 s1 = Inr (w', s') \<and>
        TransferDone s' = 1 \<and> Error s' = TFTP_ERR_NO_ERROR \<and> disk w' = disk w \<and>
        sends w' = sends w @ window_sends fd 1 (map (file_block b c) [0..<blocks b c])"
proof -
  let ?n = "blocks b c"
  from send_window [OF os sz rd, of 0] obtain w1 s1 where
    1: "SMSG_DATA os sConf 0 w s = Inr (w1, s1)" "window_sent b W c fd 0 w1 s1" "disk w1 = disk w"
      "sends w1 = sends w @ window_sends fd 1 (map (file_block b c) [0..<min W ?n])"
    and 2: "sqs w1 = sqs w" "LastRecvPktSize s1 = LastRecvPktSize s" by auto
  show thesis
  proof (rule that [OF 1(1,2) 2])
    fix w2 :: world assume w2: "disk w2 = disk w1" "sends w2 = sends w1" "sqs_inv (sqs w2)"
    have "window_sent b W c fd (0 * W) w2 s1"
      using 1(2) w2(1) by (simp add: window_sent_def serving_def f_content_def)
    from serve_windows [OF os sz fd this w2(3)] obtain w' s' where
      3: "serve os sConf (client_acks W ?n 0) w2 s1 = Inr (w', s')" "TransferDone s' = 1"
        "Error s' = TFTP_ERR_NO_ERROR" "disk w' = disk w1"
        "sends w' = sends w1 @ window_sends fd (int (min W ?n) + 1) (map (file_block b c) [min W ?n..<?n])" by (auto simp: w2)
    have "[0..<?n] = [0..<min W ?n] @ [min W ?n..<?n]"
      using upt_add_eq_append [of 0 "min W ?n" "?n - min W ?n"] by simp
    then have "sends w' = sends w @ window_sends fd 1 (map (file_block b c) [0..<?n])"
      using 1(4) 3(5) by (simp add: window_sends_append add.commute)
    with 1(3) 3 show "\<exists>w' s'. serve os sConf (client_acks W ?n 0) w2 s1 = Inr (w', s') \<and>
        TransferDone s' = 1 \<and> Error s' = TFTP_ERR_NO_ERROR \<and> disk w' = disk w \<and>
        sends w' = sends w @ window_sends fd 1 (map (file_block b c) [0..<?n])" by simp
  qed
qed

section \<open>The loop of the thread\<close>

text \<open>
  \<open>serve\<close> is the loop: when every \<^verbatim>\<open>recv\<close> of a session brings a datagram, the whole run of its thread
  is the one \<open>serve\<close> gives for the datagrams that came.
\<close>

lemma receive_data:
  assumes inv: "session_inv s" and r: "receive os w s = Inr (w', s')" and d: "os_recv os (calls w) (CommSocket s) = Some p" "p \<noteq> []"
  shows "w' = next_call w \<and> deliver p s = Inr s' \<and> 0 < LastRecvPktSize s'"
proof -
  have "LastRecvPacket s \<noteq> None" "0 < BlockSize s" using inv by (auto simp: session_inv_defs)
  with r d show ?thesis
    by (auto simp: receive_deliver bindR_eq_Inr) (auto simp: deliver_def Let_def bindR_eq_Inr TFTP_HEADER_SIZE_def)
qed

lemma handle_packet_inv:
  assumes h: "handle_packet os sConf w s = Inr (True, w', s')" and P: "thread_P os sConf d0 w s"
  shows "session_inv s'"
proof (cases "LastRecvPktSize s > 0")
  case True
  with h obtain r w1 where "ParsePacket os sConf (nat (LastRecvPktSize s)) w s = Inr (r, w1, s')"
    by (auto simp: handle_packet_def bindR_eq_Inr split: if_splits prod.splits)
  from ParsePacket_P [OF this P] show ?thesis by (simp add: thread_P_def)
next
  case False
  with h P show ?thesis by (auto simp: handle_packet_def thread_P_def bindR_eq_Inr split: if_splits prod.splits)
qed

lemma thread_loop_serves:
  assumes "\<And>k fd. \<exists>p. os_recv os k fd = Some p \<and> p \<noteq> []"
  shows "thread_loop os sConf fuel w d = Inr (Some (w', s')) \<Longrightarrow> deliver p s = Inr d \<Longrightarrow> thread_P os sConf d0 w d \<Longrightarrow>
    \<exists>ps. serve os sConf (p # ps) w s = Inr (w', s')"
proof (induction fuel arbitrary: w d p s)
  case (Suc fuel)
  from Suc.prems(1) obtain go w1 s1 where t: "thread_turn os sConf w d = Inr (go, w1, s1)"
    and rest: "if go then thread_loop os sConf fuel w1 s1 = Inr (Some (w', s')) else (w', s') = (w1, s1)"
    by (auto simp: bindR_eq_Inr split: if_splits)
  from t obtain on w2 s2 where h: "handle_packet os sConf w d = Inr (on, w2, s2)"
    and t2: "(if on then bindR (receive os w2 s2) (\<lambda>(w, s). if LastRecvPktSize s \<le> 0 then on_silence os sConf w s else Inr (True, w, s))
      else Inr (False, w2, s2)) = Inr (go, w1, s1)"
    by (auto simp: thread_turn_handle bindR_eq_Inr)
  show ?case
  proof (cases on)
    case False
    with t2 rest h Suc.prems(2) show ?thesis by (intro exI [of _ "[]"]) simp
  next
    case True
    then obtain w3 s3 where rc: "receive os w2 s2 = Inr (w3, s3)"
      and t3: "(if LastRecvPktSize s3 \<le> 0 then on_silence os sConf w3 s3 else Inr (True, w3, s3)) = Inr (go, w1, s1)"
      using t2 by (auto simp: bindR_eq_Inr)
    obtain q where q: "os_recv os (calls w2) (CommSocket s2) = Some q" "q \<noteq> []" using assms by blast
    have "session_inv s2" using handle_packet_inv [OF _ Suc.prems(3)] h True by simp
    from receive_data [OF this rc q] have r: "w3 = next_call w2" "deliver q s2 = Inr s3" "0 < LastRecvPktSize s3" by simp_all
    then have go: "go" "w1 = w3" "s1 = s3" using t3 by (auto split: if_splits)
    have "thread_P os sConf d0 w1 s1" using thread_turn_P [OF Suc.prems(3) t] .
    with Suc.IH [of w1 s1 q s2] rest go r obtain ps where "serve os sConf (q # ps) (next_call w2) s2 = Inr (w', s')" by auto
    then show ?thesis using h True Suc.prems(2) by (intro exI [of _ "q # ps"]) (simp del: serve.simps(2) add: serve.simps(2) [of os sConf p])
  qed
qed simp

end
