(* ===== verification/Negotiate.thy ===== *)
theory Negotiate
  imports Options
begin

text \<open>
  What option negotiation promises: a specification over the list of options of a request, and
  the refinement of \<^verbatim>\<open>ParseOptions\<close> to it.
\<close>

section \<open>The specification\<close>

record params =
  p_blksize :: int
  p_timeout :: int
  p_window :: int
  p_reply :: bytes

definition reply :: "bytes \<Rightarrow> int \<Rightarrow> params \<Rightarrow> params" where
  "reply n v q = q\<lparr>p_reply := p_reply q @ n @ [NUL] @ dec_int v\<rparr>"

text \<open>One option against the configuration and the size of the requested file, if there is one.\<close>

definition negotiate_one :: "AppConfig \<Rightarrow> nat option \<Rightarrow> bytes \<times> bytes \<Rightarrow> params \<Rightarrow> params" where
  "negotiate_one sConf fsize opt q =
     (case opt of (n, txt) \<Rightarrow>
      let v = atoi txt in
      if AllowTSizeOption sConf = 1 \<and> stricmp TFTP_OPT_TSIZE n = 0 then
        reply n (case fsize of Some l \<Rightarrow> if v = 0 then to_int (int l) else v | None \<Rightarrow> v) q
      else if stricmp TFTP_OPT_TIMEOUT n = 0 then
        if 1 \<le> v \<and> v \<le> 255 then
          let t = min (max v (ClientTimeoutSecMin sConf)) (ClientTimeoutSecMax sConf)
          in reply n t (q\<lparr>p_timeout := t\<rparr>)
        else q
      else if stricmp TFTP_OPT_BLKSIZE n = 0 then
        if 8 \<le> v \<and> v \<le> 65464 then reply n v (q\<lparr>p_blksize := v\<rparr>) else q
      else if stricmp TFTP_OPT_WINDOSIZE n = 0 then
        if 1 \<le> v \<and> v \<le> 65535 \<and> WindowSizeMin sConf \<le> v then
          let k = min v (WindowSizeMax sConf) in reply n k (q\<lparr>p_window := k\<rparr>)
        else q
      else q)"

definition negotiate :: "AppConfig \<Rightarrow> nat option \<Rightarrow> (bytes \<times> bytes) list \<Rightarrow> params \<Rightarrow> params" where
  "negotiate sConf fsize opts q = fold (negotiate_one sConf fsize) opts q"

definition encode_option :: "bytes \<times> bytes \<Rightarrow> bytes" where
  "encode_option opt = fst opt @ [NUL] @ snd opt @ [NUL]"

definition encode_options :: "(bytes \<times> bytes) list \<Rightarrow> bytes" where
  "encode_options opts = concat (map encode_option opts)"

section \<open>The abstraction\<close>

definition abs_params :: "options_state \<Rightarrow> params" where
  "abs_params st = \<lparr>p_blksize = BlockSize (o_sess st), p_timeout = PacketTimeout (o_sess st),
     p_window = WindowSize (o_sess st), p_reply = take (o_added st - 2) (drop 2 (o_oack st))\<rparr>"

definition file_size :: "options_state \<Rightarrow> nat option" where
  "file_size st = map_option (\<lambda>f. length (f_content (disk (o_world st)) f)) (hFile (o_sess st))"

text \<open>
  The states in which the refinement holds: the packet \<open>p\<close> and its final NUL are in the buffer
  of the session, to which \<^verbatim>\<open>packet\<close> still points, and the text of the answer has room.
\<close>

definition opts_wf :: "bytes \<Rightarrow> options_state \<Rightarrow> bool" where
  "opts_wf p st \<longleftrightarrow> length (o_oack st) = 518 \<and> 2 \<le> o_added st \<and> o_added st \<le> 518 \<and> o_alias st \<and>
     (\<exists>buf. o_packet st = Some buf \<and> LastRecvPacket (o_sess st) = Some buf \<and> length p < length buf \<and> take (length p + 1) buf = p @ [NUL] \<and>
            int (length buf) = BlockSize (o_sess st) + 6)"

text \<open>An option the state can take: proper strings, and a block size that keeps the packet.\<close>

definition option_fits :: "bytes \<Rightarrow> bytes \<times> bytes \<Rightarrow> bool" where
  "option_fits p opt \<longleftrightarrow> NUL \<notin> set (fst opt) \<and> NUL \<notin> set (snd opt) \<and>
     (stricmp TFTP_OPT_BLKSIZE (fst opt) = 0 \<and> 8 \<le> atoi (snd opt) \<longrightarrow> int (length p) < atoi (snd opt) + 6)"

definition in_place :: "os \<Rightarrow> bool" where
  "in_place os \<longleftrightarrow> (\<forall>k. os_realloc os k = Realloc_in_place)"

text \<open>The room an answer still has.\<close>

definition room_for :: "params \<Rightarrow> bool" where
  "room_for q \<longleftrightarrow> length (p_reply q) \<le> 515"

lemma p_reply_grows:
  "\<exists>t. p_reply (negotiate_one sConf fs opt q) = p_reply q @ t"
  by (cases opt) (simp add: negotiate_one_def reply_def Let_def)

lemma negotiate_grows: "\<exists>t. p_reply (negotiate sConf fs opts q) = p_reply q @ t"
proof (induction opts arbitrary: q)
  case (Cons opt opts)
  obtain t where "p_reply (negotiate_one sConf fs opt q) = p_reply q @ t" using p_reply_grows by blast
  moreover obtain u where "p_reply (negotiate sConf fs opts (negotiate_one sConf fs opt q)) =
      p_reply (negotiate_one sConf fs opt q) @ u" using Cons.IH by blast
  ultimately show ?case by (simp add: negotiate_def)
qed (simp add: negotiate_def)

lemma room_for_mono:
  "room_for (negotiate sConf fs opts (negotiate_one sConf fs opt q)) \<Longrightarrow> room_for (negotiate_one sConf fs opt q)"
  using negotiate_grows [of sConf fs opts "negotiate_one sConf fs opt q"] by (auto simp: room_for_def)

section \<open>Writing an answer\<close>

lemma snprintf_option_refines:
  assumes wf: "opts_wf p st" and room: "room_for (reply n v (abs_params st))"
  shows "\<exists>st'. snprintf_option n v st = Inr st' \<and> opts_wf p st' \<and>
    abs_params st' = reply n v (abs_params st) \<and> o_read st' = o_read st \<and>
    o_world st' = o_world st \<and> o_sess st' = o_sess st"
proof -
  define ans where "ans = n @ [NUL] @ dec_int v"
  have len: "length (o_oack st) = 518" "2 \<le> o_added st" "o_added st \<le> 518" using wf by (simp_all add: opts_wf_def)
  have rl: "length (p_reply (abs_params st)) = o_added st - 2" using len by (simp add: abs_params_def)
  then have fits: "o_added st + length ans \<le> 517"
    using room len by (simp add: room_for_def reply_def ans_def)
  define st' where "st' = st\<lparr>o_oack := store_at (o_added st) (ans @ [NUL]) (o_oack st),
      o_added := o_added st + length ans\<rparr>"
  have run: "snprintf_option n v st = Inr st'"
    using fits len by (simp add: snprintf_option_def Let_def ans_def [symmetric] st'_def del: append.simps)
  have "take (o_added st + length ans) (o_oack st') = take (o_added st) (o_oack st) @ ans"
    using fits len by (simp add: st'_def store_at_def)
  then have "drop 2 (take (o_added st + length ans) (o_oack st')) = drop 2 (take (o_added st) (o_oack st)) @ ans"
    using len by simp
  then have "take (o_added st' - 2) (drop 2 (o_oack st')) = take (o_added st - 2) (drop 2 (o_oack st)) @ ans"
    by (simp add: drop_take st'_def)
  then have "abs_params st' = reply n v (abs_params st)"
    by (simp add: abs_params_def reply_def st'_def ans_def)
  moreover have "opts_wf p st'"
    using wf fits len by (auto simp: opts_wf_def st'_def)
  ultimately show ?thesis using run by (intro exI [of _ st']) (simp add: st'_def)
qed

section \<open>Reading the packet\<close>

lemma cstr_split:
  assumes "NUL \<notin> set s" shows "strlen_at (pre @ s @ NUL # post) (length pre) = Inr (length s)"
proof -
  have "takeWhile (\<lambda>c. c \<noteq> NUL) (s @ NUL # post) = s" using assms by (induction s) auto
  then show ?thesis by (simp add: strlen_at_def strlen_from_eq)
qed

lemma read_string_ready:
  assumes buf: "take (length p + 1) buf = p @ [NUL]" and p: "p @ [NUL] = pre @ s @ NUL # post" and s: "NUL \<notin> set s"
  shows "read_string (Some buf) (length pre) = Inr s"
proof -
  have "buf = pre @ s @ NUL # (post @ drop (length p + 1) buf)"
    using buf p append_take_drop_id [of "length p + 1" buf] by simp
  then obtain rest where "buf = pre @ s @ NUL # rest" by blast
  then show ?thesis using cstr_split [OF s, of pre rest] by (simp add: read_string_def)
qed

lemma read_string_wf:
  assumes "opts_wf p st" and "p @ [NUL] = pre @ s @ NUL # post" and "NUL \<notin> set s"
  shows "read_string (o_packet st) (length pre) = Inr s"
proof -
  from assms(1) obtain buf where "o_packet st = Some buf" "take (length p + 1) buf = p @ [NUL]"
    unfolding opts_wf_def by blast
  with read_string_ready [OF this(2) assms(2,3)] show ?thesis by simp
qed

section \<open>One option\<close>

text \<open>What the refinement of one option has to deliver.\<close>

definition refined :: "bytes \<Rightarrow> params \<Rightarrow> options_state \<Rightarrow> options_state res \<Rightarrow> bool" where
  "refined p q st r \<longleftrightarrow> (\<exists>st'. r = Inr st' \<and> opts_wf p st' \<and> abs_params st' = q \<and>
     o_read st' = o_read st \<and> file_size st' = file_size st \<and> Error (o_sess st') = Error (o_sess st))"

lemma refined_reply:
  assumes wf: "opts_wf p st1" and q: "q = reply n v (abs_params st1)" and room: "room_for q"
    and same: "o_read st1 = o_read st" "file_size st1 = file_size st" "Error (o_sess st1) = Error (o_sess st)"
  shows "refined p q st (snprintf_option n v st1)"
  using snprintf_option_refines [OF wf, of n v] room same unfolding q refined_def
  by (auto simp: file_size_def)

lemma refined_same: "opts_wf p st \<Longrightarrow> q = abs_params st \<Longrightarrow> refined p q st (Inr st)"
  by (simp add: refined_def)

lemma opts_wf_sess [simp]:
  "opts_wf p (st\<lparr>o_sess := (o_sess st)\<lparr>hFile := f\<rparr>\<rparr>) = opts_wf p st"
  "opts_wf p (st\<lparr>o_sess := (o_sess st)\<lparr>PacketTimeout := i\<rparr>\<rparr>) = opts_wf p st"
  "opts_wf p (st\<lparr>o_sess := (o_sess st)\<lparr>WindowSize := i\<rparr>\<rparr>) = opts_wf p st"
  "opts_wf p (st\<lparr>o_read := n\<rparr>) = opts_wf p st"
  by (simp_all add: opts_wf_def)

lemma abs_params_sess [simp]:
  "abs_params (st\<lparr>o_sess := (o_sess st)\<lparr>hFile := f\<rparr>\<rparr>) = abs_params st"
  "abs_params (st\<lparr>o_sess := (o_sess st)\<lparr>PacketTimeout := i\<rparr>\<rparr>) = (abs_params st)\<lparr>p_timeout := i\<rparr>"
  "abs_params (st\<lparr>o_sess := (o_sess st)\<lparr>WindowSize := i\<rparr>\<rparr>) = (abs_params st)\<lparr>p_window := i\<rparr>"
  "abs_params (st\<lparr>o_read := n\<rparr>) = abs_params st"
  by (simp_all add: abs_params_def)

lemma file_size_sess [simp]:
  "file_size (st\<lparr>o_sess := (o_sess st)\<lparr>PacketTimeout := i\<rparr>\<rparr>) = file_size st"
  "file_size (st\<lparr>o_sess := (o_sess st)\<lparr>WindowSize := i\<rparr>\<rparr>) = file_size st"
  "file_size (st\<lparr>o_read := n\<rparr>) = file_size st"
  by (simp_all add: file_size_def)

lemma opt_tsize_refines:
  assumes wf: "opts_wf p st" and room: "room_for q"
    and q: "q = reply n (case file_size st of Some l \<Rightarrow> if atoi v = 0 then to_int (int l) else atoi v
                                            | None \<Rightarrow> atoi v) (abs_params st)"
  shows "refined p q st (opt_tsize n v st)"
proof (cases "hFile (o_sess st)")
  case None
  then show ?thesis using wf room q by (auto simp: opt_tsize_def file_size_def Let_def intro: refined_reply)
next
  case (Some f)
  define f' where "f' = fseek_set (fseek_end (disk (o_world st)) f) 0"
  have fs: "file_size st = Some (length (f_content (disk (o_world st)) f))" by (simp add: file_size_def Some)
  have f': "f_content (disk (o_world st)) f' = f_content (disk (o_world st)) f"
    by (simp add: f'_def fseek_set_def fseek_end_def)
  have t: "ftell (fseek_end (disk (o_world st)) f) = int (length (f_content (disk (o_world st)) f))"
    by (simp add: ftell_def fseek_end_def)
  have same: "file_size (st\<lparr>o_sess := (o_sess st)\<lparr>hFile := Some f'\<rparr>\<rparr>) = file_size st"
    using f' by (simp add: file_size_def Some)
  show ?thesis
  proof (cases "atoi v = 0")
    case True
    then show ?thesis using wf room q Some same
      by (auto simp: opt_tsize_def fs t Let_def f'_def [symmetric] intro!: refined_reply)
  next
    case False
    then show ?thesis using wf room q Some by (auto simp: opt_tsize_def fs Let_def intro!: refined_reply)
  qed
qed

lemma opt_timeout_refines:
  assumes wf: "opts_wf p st" and room: "1 \<le> atoi v \<and> atoi v \<le> 255 \<Longrightarrow> room_for q"
    and q: "q = (if 1 \<le> atoi v \<and> atoi v \<le> 255 then
      let t = min (max (atoi v) (ClientTimeoutSecMin sConf)) (ClientTimeoutSecMax sConf)
      in reply n t ((abs_params st)\<lparr>p_timeout := t\<rparr>) else abs_params st)"
  shows "refined p q st (opt_timeout sConf n v st)"
proof -
  define t1 where "t1 = (if atoi v < ClientTimeoutSecMin sConf then ClientTimeoutSecMin sConf else atoi v)"
  define t2 where "t2 = (if t1 > ClientTimeoutSecMax sConf then ClientTimeoutSecMax sConf else t1)"
  have t2: "t2 = min (max (atoi v) (ClientTimeoutSecMin sConf)) (ClientTimeoutSecMax sConf)"
    by (simp add: t1_def t2_def min_def max_def)
  show ?thesis
  proof (cases "1 \<le> atoi v \<and> atoi v \<le> 255")
    case True
    then have "opt_timeout sConf n v st = snprintf_option n t2 (st\<lparr>o_sess := (o_sess st)\<lparr>PacketTimeout := t2\<rparr>\<rparr>)"
      by (simp add: opt_timeout_def Let_def t1_def t2_def)
    then show ?thesis using True wf room q t2 by (auto simp: Let_def intro!: refined_reply)
  next
    case False
    then have "opt_timeout sConf n v st = Inr st" by (auto simp: opt_timeout_def Let_def)
    moreover have "q = abs_params st" using False q by (simp only: if_False)
    ultimately show ?thesis using wf by (auto intro: refined_same)
  qed
qed

lemma opt_windowsize_refines:
  assumes wf: "opts_wf p st"
    and room: "1 \<le> atoi v \<and> atoi v \<le> 65535 \<and> WindowSizeMin sConf \<le> atoi v \<Longrightarrow> room_for q"
    and q: "q = (if 1 \<le> atoi v \<and> atoi v \<le> 65535 \<and> WindowSizeMin sConf \<le> atoi v then
      let k = min (atoi v) (WindowSizeMax sConf) in reply n k ((abs_params st)\<lparr>p_window := k\<rparr>) else abs_params st)"
  shows "refined p q st (opt_windowsize sConf n v st)"
proof -
  define k where "k = (if atoi v > WindowSizeMax sConf then WindowSizeMax sConf else atoi v)"
  have k: "k = min (atoi v) (WindowSizeMax sConf)" by (simp add: k_def min_def)
  show ?thesis
  proof (cases "1 \<le> atoi v \<and> atoi v \<le> 65535 \<and> WindowSizeMin sConf \<le> atoi v")
    case True
    then have "opt_windowsize sConf n v st = snprintf_option n k (st\<lparr>o_sess := (o_sess st)\<lparr>WindowSize := k\<rparr>\<rparr>)"
      by (simp add: opt_windowsize_def Let_def k_def)
    then show ?thesis using True wf room q k by (auto simp: Let_def intro!: refined_reply)
  next
    case False
    then have "opt_windowsize sConf n v st = Inr st" by (auto simp: opt_windowsize_def Let_def)
    moreover have "q = abs_params st" using False q by (simp only: if_False)
    ultimately show ?thesis using wf by (auto intro: refined_same)
  qed
qed

lemma opt_blksize_refines:
  assumes wf: "opts_wf p st" and os: "in_place os"
    and p: "p @ [NUL] = pre @ n @ NUL # post" and n: "NUL \<notin> set n"
    and fits: "8 \<le> atoi v \<Longrightarrow> int (length p) < atoi v + 6"
    and room: "8 \<le> atoi v \<and> atoi v \<le> 65464 \<Longrightarrow> room_for q"
    and q: "q = (if 8 \<le> atoi v \<and> atoi v \<le> 65464 then reply n (atoi v) ((abs_params st)\<lparr>p_blksize := atoi v\<rparr>)
                 else abs_params st)"
  shows "refined p q st (opt_blksize os (length pre) v st)"
proof (cases "8 \<le> atoi v \<and> atoi v \<le> 65464")
  case True
  define st1 where "st1 = st\<lparr>o_sess := (o_sess st)\<lparr>BlockSize := atoi v\<rparr>\<rparr>"
  define st2 where "st2 = realloc_packet os (nat (atoi v + 6)) st1"
  from wf obtain buf where buf: "o_packet st = Some buf" "LastRecvPacket (o_sess st) = Some buf"
    "length p < length buf" "take (length p + 1) buf = p @ [NUL]" unfolding opts_wf_def by blast
  define new where "new = resized os (calls (o_world st)) buf (nat (atoi v + 6))"
  have st2: "st2 = st\<lparr>o_world := next_call (o_world st), o_packet := Some new,
      o_sess := (o_sess st)\<lparr>BlockSize := atoi v, LastRecvPacket := Some new\<rparr>\<rparr>"
    using os wf buf by (simp add: st2_def st1_def realloc_packet_def sys_realloc_def in_place_def opts_wf_def new_def Let_def)
  have long: "length p < nat (atoi v + 6)" using fits True by simp
  have "take (length p + 1) new = p @ [NUL]"
    unfolding new_def using long buf(3,4) by (subst take_resized) simp_all
  moreover have "length new = nat (atoi v + 6)" by (simp add: new_def)
  ultimately have wf2: "opts_wf p st2" using wf long True by (simp add: opts_wf_def st2)
  have a2: "abs_params st2 = (abs_params st)\<lparr>p_blksize := atoi v\<rparr>" by (simp add: st2 abs_params_def)
  have "opt_blksize os (length pre) v st =
      bindR (read_string (o_packet st2) (length pre)) (\<lambda>nm. snprintf_option nm (atoi v) st2)"
    using True by (simp add: opt_blksize_def Let_def st2_def st1_def tftp_consts add.commute)
  then have "opt_blksize os (length pre) v st = snprintf_option n (atoi v) st2"
    using read_string_wf [OF wf2 p n] by simp
  moreover have "o_read st2 = o_read st" "file_size st2 = file_size st" "Error (o_sess st2) = Error (o_sess st)"
    by (simp_all add: st2 file_size_def)
  ultimately show ?thesis using True wf2 room q a2 by (auto intro!: refined_reply)
next
  case False
  then have "opt_blksize os (length pre) v st = Inr st" by (auto simp: opt_blksize_def Let_def)
  moreover have "q = abs_params st" using False q by (simp only: if_False)
  ultimately show ?thesis using wf by (auto intro: refined_same)
qed

lemma opt_dispatch_refines:
  assumes wf: "opts_wf p st" and os: "in_place os"
    and p: "p @ [NUL] = pre @ n @ NUL # post" and fits: "option_fits p (n, v)"
    and room: "room_for (negotiate_one sConf (file_size st) (n, v) (abs_params st))"
  shows "refined p (negotiate_one sConf (file_size st) (n, v) (abs_params st)) st
           (opt_dispatch os sConf (length pre) n v st)"
proof -
  let ?q = "negotiate_one sConf (file_size st) (n, v) (abs_params st)"
  consider (tsize) "AllowTSizeOption sConf = 1 \<and> stricmp TFTP_OPT_TSIZE n = 0"
    | (timeout) "\<not> (AllowTSizeOption sConf = 1 \<and> stricmp TFTP_OPT_TSIZE n = 0)" "stricmp TFTP_OPT_TIMEOUT n = 0"
    | (blksize) "\<not> (AllowTSizeOption sConf = 1 \<and> stricmp TFTP_OPT_TSIZE n = 0)" "stricmp TFTP_OPT_TIMEOUT n \<noteq> 0"
        "stricmp TFTP_OPT_BLKSIZE n = 0"
    | (window) "\<not> (AllowTSizeOption sConf = 1 \<and> stricmp TFTP_OPT_TSIZE n = 0)" "stricmp TFTP_OPT_TIMEOUT n \<noteq> 0"
        "stricmp TFTP_OPT_BLKSIZE n \<noteq> 0" "stricmp TFTP_OPT_WINDOSIZE n = 0"
    | (other) "\<not> (AllowTSizeOption sConf = 1 \<and> stricmp TFTP_OPT_TSIZE n = 0)" "stricmp TFTP_OPT_TIMEOUT n \<noteq> 0"
        "stricmp TFTP_OPT_BLKSIZE n \<noteq> 0" "stricmp TFTP_OPT_WINDOSIZE n \<noteq> 0"
    by blast
  then show ?thesis
  proof cases
    case tsize
    have "opt_dispatch os sConf (length pre) n v st = opt_tsize n v st"
      using tsize by (simp add: opt_dispatch_def)
    moreover have "refined p ?q st (opt_tsize n v st)"
      by (rule opt_tsize_refines [OF wf room]) (use tsize in \<open>simp add: negotiate_one_def Let_def\<close>)
    ultimately show ?thesis by simp
  next
    case timeout
    have "opt_dispatch os sConf (length pre) n v st = opt_timeout sConf n v st"
      using timeout by (auto simp: opt_dispatch_def)
    moreover have "refined p ?q st (opt_timeout sConf n v st)"
      by (rule opt_timeout_refines [OF wf]) (use room timeout in \<open>auto simp: negotiate_one_def Let_def split: if_splits\<close>)
    ultimately show ?thesis by simp
  next
    case blksize
    have "opt_dispatch os sConf (length pre) n v st = opt_blksize os (length pre) v st"
      using blksize by (auto simp: opt_dispatch_def)
    moreover have "refined p ?q st (opt_blksize os (length pre) v st)"
      by (rule opt_blksize_refines [OF wf os p])
        (use room blksize fits in \<open>auto simp: negotiate_one_def option_fits_def Let_def split: if_splits\<close>)
    ultimately show ?thesis by simp
  next
    case window
    have "opt_dispatch os sConf (length pre) n v st = opt_windowsize sConf n v st"
      using window by (auto simp: opt_dispatch_def)
    moreover have "refined p ?q st (opt_windowsize sConf n v st)"
      by (rule opt_windowsize_refines [OF wf]) (use room window in \<open>auto simp: negotiate_one_def Let_def split: if_splits\<close>)
    ultimately show ?thesis by simp
  next
    case other
    then have "opt_dispatch os sConf (length pre) n v st = Inr st" "?q = abs_params st"
      by (auto simp: opt_dispatch_def negotiate_one_def Let_def)
    then show ?thesis using wf by (simp add: refined_same)
  qed
qed

section \<open>All options\<close>

lemma option_loop_refines:
  assumes "opts_wf p st" and "in_place os" and "p = pre @ encode_options opts" and "o_read st = length pre"
    and "\<forall>opt \<in> set opts. option_fits p opt"
    and "room_for (negotiate sConf (file_size st) opts (abs_params st))"
  shows "\<exists>st'. option_loop os sConf (length p) st = Inr (True, st') \<and> opts_wf p st' \<and>
    abs_params st' = negotiate sConf (file_size st) opts (abs_params st) \<and> o_read st' = length p \<and>
    Error (o_sess st') = Error (o_sess st)"
  using assms
proof (induction opts arbitrary: st pre)
  case Nil
  then have "option_loop os sConf (length p) st = Inr (True, st)"
    by (subst option_loop.simps) (simp add: encode_options_def)
  with Nil show ?case by (simp add: encode_options_def negotiate_def)
next
  case (Cons opt opts)
  obtain n v where opt: "opt = (n, v)" by (cases opt)
  have nv: "NUL \<notin> set n" "NUL \<notin> set v" using Cons.prems(5) by (simp_all add: opt option_fits_def)
  have p: "p = pre @ n @ NUL # v @ NUL # encode_options opts"
    using Cons.prems(3) by (simp add: encode_options_def encode_option_def opt)
  have p1: "p @ [NUL] = pre @ n @ NUL # (v @ NUL # encode_options opts @ [NUL])" by (simp add: p)
  have p2: "p @ [NUL] = (pre @ n @ [NUL]) @ v @ NUL # (encode_options opts @ [NUL])" by (simp add: p)
  have len: "length pre + length n + length v + 2 \<le> length p" by (simp add: p)
  define st1 where "st1 = st\<lparr>o_read := length pre + (length n + 1) + (length v + 1)\<rparr>"
  have wf1: "opts_wf p st1" and abs1: "abs_params st1 = abs_params st" "file_size st1 = file_size st"
    using Cons.prems(1) by (simp_all add: st1_def)
  let ?q = "negotiate_one sConf (file_size st) (n, v) (abs_params st)"
  have neg: "negotiate sConf (file_size st) (opt # opts) (abs_params st) = negotiate sConf (file_size st) opts ?q"
    by (simp add: negotiate_def opt)
  have "room_for ?q" using Cons.prems(6) room_for_mono unfolding neg by blast
  then have "refined p ?q st1 (opt_dispatch os sConf (length pre) n v st1)"
    using opt_dispatch_refines [OF wf1 Cons.prems(2) p1, of v sConf] Cons.prems(5) abs1 by (simp add: opt)
  then obtain st2 where st2: "opt_dispatch os sConf (length pre) n v st1 = Inr st2" "opts_wf p st2"
    "abs_params st2 = ?q" "o_read st2 = length pre + (length n + 1) + (length v + 1)" "file_size st2 = file_size st"
    "Error (o_sess st2) = Error (o_sess st)"
    using abs1 unfolding refined_def by (auto simp: st1_def)
  have rd: "read_string (o_packet st) (length pre) = Inr n" by (rule read_string_wf [OF Cons.prems(1) p1 nv(1)])
  have rd2: "read_string (o_packet st) (length pre + (length n + 1)) = Inr v"
    using read_string_wf [OF Cons.prems(1) p2 nv(2)] by simp
  have turn: "option_turn os sConf (length p) st = Inr (True, st2)"
    using rd rd2 st2(1) len Cons.prems(4) unfolding option_turn_def Let_def st1_def by simp
  have step: "option_loop os sConf (length p) st = option_loop os sConf (length p) st2"
    using turn len Cons.prems(4) by (subst option_loop.simps) simp
  have "\<exists>st'. option_loop os sConf (length p) st2 = Inr (True, st') \<and> opts_wf p st' \<and>
    abs_params st' = negotiate sConf (file_size st2) opts (abs_params st2) \<and> o_read st' = length p \<and>
    Error (o_sess st') = Error (o_sess st2)"
    using Cons.prems(2,5,6) st2 neg
    by (intro Cons.IH [of st2 "pre @ n @ NUL # v @ [NUL]"]) (simp_all add: p)
  then show ?case using step neg st2(3,5,6) by simp
qed

section \<open>The operation\<close>

definition start_params :: "session \<Rightarrow> params" where
  "start_params s = \<lparr>p_blksize = BlockSize s, p_timeout = PacketTimeout s, p_window = WindowSize s, p_reply = []\<rparr>"

definition open_size :: "world \<Rightarrow> session \<Rightarrow> nat option" where
  "open_size w s = map_option (\<lambda>f. length (f_content (disk w) f)) (hFile s)"

text \<open>The packet and its NUL are in the receive buffer.\<close>

definition packet_ready :: "bytes \<Rightarrow> session \<Rightarrow> bool" where
  "packet_ready p s \<longleftrightarrow> (\<exists>buf. LastRecvPacket s = Some buf \<and> length p < length buf \<and>
     take (length p + 1) buf = p @ [NUL] \<and> int (length buf) = BlockSize s + 6)"

definition oack_sent :: "os \<Rightarrow> world \<Rightarrow> session \<Rightarrow> params \<Rightarrow> (int \<times> bytes \<times> int) list \<Rightarrow> bool" where
  "oack_sent os w s q new \<longleftrightarrow>
     (if p_reply q = [] then new = []
      else \<exists>r. new = [(CommSocket s, htons_bytes (op_value OP_OACK) @ p_reply q, r)])"

lemma SMSG_OACK_content:
  assumes "2 \<le> len" and "len \<le> length oack"
  shows "\<exists>r. SMSG_OACK os oack len w s = Inr (w\<lparr>calls := Suc (calls w),
    sends := sends w @ [(CommSocket s, htons_bytes (op_value OP_OACK) @ take (len - 2) (drop 2 oack), r)]\<rparr>)"
proof -
  have "take len (store_at 0 (htons_bytes (op_value OP_OACK)) oack)
      = htons_bytes (op_value OP_OACK) @ take (len - 2) (drop 2 oack)"
    using assms(1) by (simp add: store_at_def numeral_2_eq_2)
  then show ?thesis
    using assms by (intro exI [of _ "os_send os (calls w) (CommSocket s)
        (htons_bytes (op_value OP_OACK) @ take (len - 2) (drop 2 oack))"])
      (simp add: SMSG_OACK_def sys_send_def next_call_def Let_def)
qed

lemma ParseOptions_refines:
  assumes os: "in_place os" and pk: "packet_ready p s" and p: "p = pre @ encode_options opts"
    and fits: "\<forall>opt \<in> set opts. option_fits p opt"
    and q: "q = negotiate sConf (open_size w s) opts (start_params s)" and room: "room_for q"
  shows "\<exists>w' s' new. ParseOptions os sConf (length p) (length pre) w s = Inr (0, w', s', length p) \<and>
    options_frame sConf w s new w' s' \<and> oack_sent os w s q new \<and> Error s' = Error s \<and>
    BlockSize s' = p_blksize q \<and> PacketTimeout s' = p_timeout q \<and> WindowSize s' = p_window q \<and> buffer_ok s' \<and>
    int (length p) < BlockSize s' + 6"
proof -
  define st where "st = \<lparr>o_world = w, o_sess = s, o_packet = LastRecvPacket s, o_alias = True,
      o_read = length pre, o_oack = fresh_bytes os (calls w) (nat TFTP_PACKET_FULL_SIZE_SAFE), o_added = 2\<rparr>"
  have wf: "opts_wf p st" using pk by (auto simp: opts_wf_def st_def packet_ready_def tftp_consts)
  have start: "abs_params st = start_params s" "file_size st = open_size w s" "o_read st = length pre"
    by (simp_all add: st_def abs_params_def start_params_def file_size_def open_size_def)
  have "room_for (negotiate sConf (file_size st) opts (abs_params st))" using room q start by simp
  from option_loop_refines [OF wf os p start(3) fits this] obtain st' where
    l: "option_loop os sConf (length p) st = Inr (True, st')" and wf': "opts_wf p st'"
    and a': "abs_params st' = q" and r': "o_read st' = length p" and e': "Error (o_sess st') = Error (o_sess st)"
    using q start by auto
  have len: "2 \<le> o_added st'" "o_added st' \<le> length (o_oack st')" "length (o_oack st') = 518"
    using wf' by (auto simp: opts_wf_def)
  have rep: "p_reply q = take (o_added st' - 2) (drop 2 (o_oack st'))"
    and num: "BlockSize (o_sess st') = p_blksize q" "PacketTimeout (o_sess st') = p_timeout q"
      "WindowSize (o_sess st') = p_window q"
    unfolding a' [symmetric] by (simp_all add: abs_params_def)
  have nil: "p_reply q = [] \<longleftrightarrow> o_added st' = 2" using len unfolding rep by auto
  have buf: "buffer_ok (o_sess st')" using wf' by (auto simp: opts_wf_def buffer_ok_def tftp_consts)
  have fit: "int (length p) < BlockSize (o_sess st') + 6" using wf' by (auto simp: opts_wf_def)
  have "\<exists>w' new. ParseOptions os sConf (length p) (length pre) w s = Inr (0, w', o_sess st', length p) \<and>
      sends w' = sends (o_world st') @ new \<and> oack_sent os w s q new"
  proof (cases "p_reply q = []")
    case True
    then show ?thesis using l r' nil by (simp add: ParseOptions_def st_def [symmetric] oack_sent_def)
  next
    case False
    have "CommSocket (o_sess st') = CommSocket s"
      using option_loop_ok [OF l] by (auto simp: opt_step_ok_def opt_frame_def st_def)
    then obtain r where "SMSG_OACK os (o_oack st') (o_added st') (o_world st') (o_sess st') =
        Inr ((o_world st')\<lparr>calls := Suc (calls (o_world st')),
          sends := sends (o_world st') @ [(CommSocket s, htons_bytes (op_value OP_OACK) @ p_reply q, r)]\<rparr>)"
      using SMSG_OACK_content [OF len(1,2), of os "o_world st'" "o_sess st'"] rep by auto
    then show ?thesis using l r' nil False by (auto simp: ParseOptions_def st_def [symmetric] oack_sent_def)
  qed
  then obtain w' new where run: "ParseOptions os sConf (length p) (length pre) w s = Inr (0, w', o_sess st', length p)"
    and sd: "sends w' = sends (o_world st') @ new" and oa: "oack_sent os w s q new" by blast
  have "sends (o_world st') = sends w"
    using option_loop_ok [OF l] by (auto simp: opt_step_ok_def opt_frame_def st_def)
  moreover obtain new' where fr: "options_frame sConf w s new' w' (o_sess st')"
    using ParseOptions_frame(1) [OF run] by blast
  ultimately have "new' = new" using options_frame_simps(2) [OF fr] sd by simp
  then show ?thesis using run fr oa num buf fit e' by (auto simp: st_def)
qed

end
