(* ===== verification/Download.thy ===== *)
theory Download
  imports Delivery Negotiate
begin

text \<open>
  A download from the request to the last acknowledgement: the read request with its options,
  the socket, the file, the negotiation and the windows of data, on a network and a machine that
  do what they are asked.
\<close>

section \<open>A request that arrives\<close>

definition request :: "OP_code \<Rightarrow> bytes \<Rightarrow> bytes \<Rightarrow> (bytes \<times> bytes) list \<Rightarrow> bytes" where
  "request op name mode opts =
     htons_bytes (op_value op) @ name @ [NUL] @ mode @ [NUL] @ encode_options opts"

text \<open>A session that has just been created and waits for its request.\<close>

definition idle :: "session \<Rightarrow> bool" where
  "idle s \<longleftrightarrow> session_inv s \<and> SelectedOperation s = TFTP_OP_NOT_INITIALIZED \<and> hFile s = None \<and>
     Error s = TFTP_ERR_NO_ERROR \<and> TransferDone s = 0 \<and> ReadDone s = 0 \<and> BytesHandled s = 0 \<and>
     ServerSocket s = INVALID_SOCKET_2 \<and> PortPrefered s = 0"

definition network_up :: "os \<Rightarrow> bool" where
  "network_up os \<longleftrightarrow> (\<forall>k. os_socket os k \<noteq> - 1) \<and> (\<forall>k fd p. os_bind os k fd p = 0) \<and>
     (\<forall>k fd a. os_connect os k fd a = 0)"

lemma new_TFTPSession_idle:
  "os_malloc os (calls w) \<Longrightarrow> idle (fst (new_TFTPSession os sConf addr w))"
  using new_TFTPSession_inv [of os w sConf addr]
  by (simp add: idle_def) (simp add: new_TFTPSession_def sys_malloc_bytes_def tftp_consts)

lemma CreateComm_up:
  assumes "network_up os" and "ServerSocket s = INVALID_SOCKET_2" and "CommPortEnd sConf \<noteq> 0"
    and "PortPrefered s = 0"
  shows "\<exists>w'. CreateCommUDPSocket os sConf w s = Inr (0, w', s\<lparr>CommSocket := os_socket os (calls w)\<rparr>)"
proof -
  define w0 where "w0 = (next_call w)\<lparr>open_fds := open_fds w @ [os_socket os (calls w)]\<rparr>"
  define s0 where "s0 = s\<lparr>CommSocket := os_socket os (calls w)\<rparr>"
  have "fst (attempt os w0 s0) = 0" using assms(1) by (simp add: attempt_def network_up_def Let_def)
  then obtain k where a: "attempt os w0 s0 = (0, k)" by (cases "attempt os w0 s0") auto
  obtain p where p: "next_port sConf (NextPortToUse w0) = Inr p"
    using assms(3) by (cases "next_port sConf (NextPortToUse w0)")
      (auto simp: next_port_def c_rem_def Let_def split: if_splits)
  obtain w' where "try_port os sConf w0 s0 = Inr (0, w', s0)"
    using a p assms(4) by (auto simp: try_port_eq s0_def Let_def)
  then have "create_loop os sConf MAX_RETRY_CREATE_SOCKET 0 w s = Inr (0, w', s0)"
    using assms(1) by (simp add: MAX_RETRY_CREATE_SOCKET_def numeral_eq_Suc create_loop.simps
        sys_socket_def w0_def s0_def network_up_def INVALID_SOCKET_2_def Let_def)
  then show ?thesis using assms(2) by (auto simp: CreateCommUDPSocket_def s0_def)
qed

lemma packet_str_ready:
  assumes pk: "packet_ready p s" and p: "p @ [NUL] = pre @ x @ NUL # post" and x: "NUL \<notin> set x"
  shows "packet_str s (length pre) = Inr x"
proof -
  from pk obtain buf where buf: "LastRecvPacket s = Some buf" "take (length p + 1) buf = p @ [NUL]"
    by (auto simp: packet_ready_def)
  then have "buf = pre @ x @ NUL # (post @ drop (length p + 1) buf)"
    using p append_take_drop_id [of "length p + 1" buf] by simp
  then obtain rest where "buf = pre @ x @ NUL # rest" by blast
  then show ?thesis using buf(1) cstr_split [OF x, of pre rest] by (simp add: packet_str_def packet_buf_def)
qed

text \<open>The session once the request is in its buffer and terminated.\<close>

lemma terminate_delivered:
  assumes inv: "session_inv s" and len: "int (length p) \<le> BlockSize s + 4"
  shows "\<exists>s0 buf. terminate_packet (length p) (delivered_session p s) = Inr s0 \<and> packet_ready p s0 \<and>
    s0 = s\<lparr>LastRecvPacket := Some buf, LastRecvPktSize := int (length p)\<rparr>"
proof -
  let ?d = "delivered_session p s"
  from delivered_buf [OF assms] obtain buf where buf: "LastRecvPacket ?d = Some buf"
    "take (length p) buf = p" "int (length buf) = BlockSize s + 6" by blast
  have lt: "length p < length buf" using len buf(3) by linarith
  define b0 where "b0 = buf[length p := NUL]"
  have t: "terminate_packet (length p) ?d = Inr (?d\<lparr>LastRecvPacket := Some b0\<rparr>)"
    using buf(1) lt by (simp add: terminate_packet_def packet_buf_def b0_def)
  have "take (length p + 1) b0 = p @ [NUL]"
    using lt buf(2) by (simp add: b0_def take_Suc_conv_app_nth)
  then have "packet_ready p (?d\<lparr>LastRecvPacket := Some b0\<rparr>)"
    using lt buf(3) by (simp add: packet_ready_def b0_def)
  moreover have "?d\<lparr>LastRecvPacket := Some b0\<rparr> = s\<lparr>LastRecvPacket := Some b0, LastRecvPktSize := int (length p)\<rparr>"
    by (simp add: delivered_session_def)
  ultimately show ?thesis using t by metis
qed

lemma request_then_go:
  assumes "request_prefix os sConf sz w s FileName n err w1 s1"
  shows "request_then os sConf sz w s k = k FileName n w1 s1"
proof -
  from assms obtain s0 Mode where pre: "SelectedOperation s = TFTP_OP_NOT_INITIALIZED"
    "terminate_packet sz s = Inr s0" "packet_str s0 2 = Inr FileName" "length FileName + 4 \<le> sz"
    "packet_str s0 (length FileName + 3) = Inr Mode" "n = length FileName + length Mode + 4"
    "CreateCommUDPSocket os sConf w s0 = Inr (err, w1, s1)"
    unfolding request_prefix_def by blast
  then show ?thesis by (simp add: request_then_def EnsureHaveEnoughPacketBytes_def)
qed

text \<open>A well-formed request reaches the rest of its handler, on a network that is up.\<close>

lemma request_arrives:
  assumes idle: "idle s" and up: "network_up os" and port: "CommPortEnd sConf \<noteq> 0"
    and p: "p = request op name mode opts" and len: "int (length p) \<le> BlockSize s + 4"
    and nul: "NUL \<notin> set name" "NUL \<notin> set mode"
  shows "\<exists>w1 s1. request_prefix os sConf (length p) w (delivered_session p s) name
      (length name + length mode + 4) 0 w1 s1 \<and> packet_ready p s1 \<and>
      (\<exists>buf. s1 = s\<lparr>LastRecvPacket := Some buf, LastRecvPktSize := int (length p), CommSocket := os_socket os (calls w)\<rparr>)"
proof -
  have inv: "session_inv s" using idle by (simp add: idle_def)
  from terminate_delivered [OF inv len] obtain s0 buf where
    s0: "terminate_packet (length p) (delivered_session p s) = Inr s0" "packet_ready p s0"
      "s0 = s\<lparr>LastRecvPacket := Some buf, LastRecvPktSize := int (length p)\<rparr>" by blast
  have "packet_str s0 (length (htons_bytes (op_value op))) = Inr name"
    by (rule packet_str_ready [OF s0(2) _ nul(1), of _ "mode @ [NUL] @ encode_options opts @ [NUL]"])
      (simp add: p request_def)
  moreover have "packet_str s0 (length (htons_bytes (op_value op) @ name @ [NUL])) = Inr mode"
    by (rule packet_str_ready [OF s0(2) _ nul(2), of _ "encode_options opts @ [NUL]"])
      (simp add: p request_def)
  moreover obtain w1 where "CreateCommUDPSocket os sConf w s0 = Inr (0, w1, s0\<lparr>CommSocket := os_socket os (calls w)\<rparr>)"
    using CreateComm_up [OF up _ port, of s0 w] idle by (auto simp: s0(3) idle_def)
  moreover have "length name + 4 \<le> length p" by (simp add: p request_def)
  ultimately have "request_prefix os sConf (length p) w (delivered_session p s) name
      (length name + length mode + 4) 0 w1 (s0\<lparr>CommSocket := os_socket os (calls w)\<rparr>)"
    using s0(1) idle unfolding request_prefix_def by (auto simp: idle_def numeral_3_eq_3)
  moreover have "packet_ready p (s0\<lparr>CommSocket := os_socket os (calls w)\<rparr>)"
    using s0(2) by (simp add: packet_ready_def)
  ultimately show ?thesis using s0(3) by (intro exI conjI) (assumption | simp)+
qed

section \<open>The read request\<close>

text \<open>Everything a download needs from the machine, the configuration and the request.\<close>

definition machine_ok :: "os \<Rightarrow> AppConfig \<Rightarrow> bool" where
  "machine_ok os sConf \<longleftrightarrow> lossless os \<and> network_up os \<and> in_place os \<and> (\<forall>k n. os_fopen os k n) \<and>
     conf_ok sConf \<and> CommPortEnd sConf \<noteq> 0"

definition request_ok :: "OP_code \<Rightarrow> bytes \<Rightarrow> bytes \<Rightarrow> (bytes \<times> bytes) list \<Rightarrow> session \<Rightarrow> bool" where
  "request_ok op name mode opts s \<longleftrightarrow>
     int (length (request op name mode opts)) \<le> BlockSize s + 4 \<and> NUL \<notin> set name \<and> NUL \<notin> set mode \<and>
     (\<forall>opt \<in> set opts. option_fits (request op name mode opts) opt)"

text \<open>The read request itself, up to the first window.\<close>

lemma RRQ_serves:
  assumes os: "machine_ok os sConf" and idle: "idle s" and rq: "request_ok OP_RRQ name mode opts s"
    and al: "may_download sConf name" and c: "disk w name = Some c"
    and q: "q = negotiate sConf (Some (length c)) opts (start_params s)" and room: "room_for q"
  defines "p \<equiv> request OP_RRQ name mode opts"
  shows "\<exists>w3 s3 fd oack. CMSG_RRQ os sConf (length p) w (delivered_session p s) =
      bindR (SMSG_DATA os sConf 0 w3 s3) (\<lambda>(w, s). Inr (0, w, s)) \<and>
    sends w3 = sends w @ oack \<and> disk w3 = disk w \<and> sqs w3 = sqs w \<and>
    LastRecvPktSize s3 = int (length p) \<and> int (length p) < p_blksize q + 6 \<and>
    (if p_reply q = [] then oack = []
     else \<exists>r. oack = [(fd, htons_bytes (op_value OP_OACK) @ p_reply q, r)]) \<and>
    fd = os_socket os (calls w) \<and> ready (nat (p_blksize q)) (nat (p_window q)) c fd 0 w3 s3"
proof -
  note m = os [unfolded machine_ok_def]
  have len: "int (length p) \<le> BlockSize s + 4" and nul: "NUL \<notin> set name" "NUL \<notin> set mode"
    and fits: "\<forall>opt \<in> set opts. option_fits p opt"
    using rq by (simp_all add: request_ok_def p_def)
  let ?fd = "os_socket os (calls w)"
  from request_arrives [OF idle _ _ p_def [THEN meta_eq_to_obj_eq] len nul, of os sConf w] m obtain w1 s1 buf where
    pre: "request_prefix os sConf (length p) w (delivered_session p s) name (length name + length mode + 4) 0 w1 s1"
    and pk: "packet_ready p s1"
    and s1: "s1 = s\<lparr>LastRecvPacket := Some buf, LastRecvPktSize := int (length p), CommSocket := ?fd\<rparr>" by blast
  note fr = request_prefix_frame [OF pre]
  have w1: "disk w1 = disk w" "sends w1 = sends w" "sqs w1 = sqs w" using fr by simp_all
  define f where "f = \<lparr>f_name = name, f_pos = 0\<rparr>"
  define w2 where "w2 = (next_call w1)\<lparr>disk := disk w1\<rparr>"
  have fo: "sys_fopen_s os w1 name Mode_rb = (Some f, w2)"
    using m c w1(1) by (simp add: sys_fopen_s_def fopen_s_def fopen_def f_def w2_def)
  define s2 where "s2 = s1\<lparr>hFile := Some f\<rparr>"
  have cont: "f_content (disk w2) f = c" using c w1(1) by (simp add: f_content_def f_def w2_def)
  have q2: "q = negotiate sConf (open_size w2 s2) opts (start_params s2)"
    using q cont by (simp add: open_size_def s2_def start_params_def s1)
  have pk2: "packet_ready p s2" using pk by (simp add: packet_ready_def s2_def)
  define hd where "hd = htons_bytes (op_value OP_RRQ) @ name @ [NUL] @ mode @ [NUL]"
  have p2: "p = hd @ encode_options opts" by (simp add: p_def request_def hd_def)
  have hd: "length hd = length name + length mode + 4" by (simp add: hd_def)
  have "in_place os" using m by blast
  from ParseOptions_refines [OF this pk2 p2 fits q2 room] obtain w3 s3 new where
    po: "ParseOptions os sConf (length p) (length hd) w2 s2 = Inr (0, w3, s3, length p)"
    and of: "options_frame sConf w2 s2 new w3 s3" and oa: "oack_sent os w2 s2 q new" and er: "Error s3 = Error s2"
    and num: "BlockSize s3 = p_blksize q" "WindowSize s3 = p_window q" and bo: "buffer_ok s3"
      "int (length p) < BlockSize s3 + 6" by blast
  note po = po [unfolded hd]
  note o = options_frame_simps [OF of]
  define s4 where "s4 = s3\<lparr>SelectedOperation := TFTP_OP_SERVER_TO_CLIENT, FirstBlockInWindow := 1\<rparr>"
  have inv1: "session_inv s1"
    using idle pk by (auto simp: s1 idle_def session_inv_defs packet_ready_def tftp_consts)
  then have "ranges_ok s3" using options_frame_ranges [OF of] m by (simp add: s2_def session_inv_def ranges_ok_def)
  moreover have hf: "\<exists>g. hFile s3 = Some g \<and> f_name g = name"
    using o(18) by (simp add: s2_def f_def)
  ultimately have inv4: "session_inv s4" using bo(1) by (auto simp: s4_def session_inv_defs)
  have "serving (nat (p_blksize q)) (nat (p_window q)) c ?fd 0 w3 s4"
    unfolding serving_def using inv4 hf c w1(1) o(1,7,9) num er idle
    by (auto simp: s4_def s2_def s1 idle_def session_inv_defs f_content_def w2_def)
  moreover have "0 < blocks (nat (p_blksize q)) c" by (simp add: blocks_def)
  ultimately have rdy: "ready (nat (p_blksize q)) (nat (p_window q)) c ?fd 0 w3 s4"
    using idle o(10,11) by (simp add: ready_def s4_def s2_def s1 idle_def)
  have "FileIsAllowed stricmp name (DownloadableFileNames sConf)"
    using al by (simp add: may_download_def FileIsAllowed_iff)
  then have run: "CMSG_RRQ os sConf (length p) w (delivered_session p s) =
      bindR (SMSG_DATA os sConf 0 w3 s4) (\<lambda>(w, s). Inr (0, w, s))"
    unfolding RRQ_eq request_then_go [OF pre] using fo po by (simp add: s2_def s4_def Let_def)
  have "if p_reply q = [] then new = []
      else \<exists>r. new = [(?fd, htons_bytes (op_value OP_OACK) @ p_reply q, r)]"
    using oa by (simp add: oack_sent_def s2_def s1 cong: if_cong)
  moreover have "sends w3 = sends w @ new" "disk w3 = disk w" "sqs w3 = sqs w" using o(1-3) w1 by (simp_all add: w2_def)
  moreover have "LastRecvPktSize s4 = int (length p)" "int (length p) < p_blksize q + 6"
    using o(14) bo(2) num(1) by (simp_all add: s4_def s2_def s1)
  ultimately show ?thesis using run rdy by blast
qed

lemma request_opcode:
  assumes "session_inv s" and "p = request op name mode opts" and "int (length p) \<le> BlockSize s + 4"
  shows "packet_u16 (delivered_session p s) 0 = Inr (op_value op)"
proof -
  from delivered_buf [OF assms(1,3)] obtain buf where
    buf: "LastRecvPacket (delivered_session p s) = Some buf" "take (length p) buf = p"
      "int (length buf) = BlockSize s + 6" by blast
  have len: "2 \<le> length buf" using buf(3) assms(1) by (simp add: session_inv_def ranges_ok_def)
  have nth: "buf ! i = p ! i" if "i < 2" for i
  proof -
    have "i < length p" using that by (simp add: assms(2) request_def)
    from nth_take [OF this, of buf] show ?thesis by (simp only: buf(2))
  qed
  have "packet_u16 (delivered_session p s) 0 = Inr (ntohs_bytes (buf ! 0) (buf ! 1))"
    using len by (simp add: packet_u16_def packet_buf_def buf(1))
  then show ?thesis
    using nth [of 0] nth [of 1] ntohs_htons [of "op_value op"] assms(2) by (simp add: request_def nth_append)
qed

lemma ParsePacket_request:
  assumes "session_inv s" and "p = request op name mode opts" and "int (length p) \<le> BlockSize s + 4"
    and "op = OP_RRQ \<or> op = OP_WRQ"
  shows "ParsePacket os sConf (length p) w (delivered_session p s) =
    (if op = OP_RRQ then CMSG_RRQ os sConf (length p) w (delivered_session p s)
     else CMSG_WRQ os sConf (length p) w (delivered_session p s))"
proof -
  have "2 \<le> length p" by (simp add: assms(2) request_def)
  then show ?thesis
    using assms(4) request_opcode [OF assms(1-3)] by (auto simp: ParsePacket_def EnsureHaveEnoughPacketBytes_def)
qed

text \<open>A request the session handles without an error: it waits for the next packet.\<close>

lemma serve_request:
  assumes inv: "session_inv s" and p: "p = request op name mode opts" and len: "int (length p) \<le> BlockSize s + 4"
    and op: "op = OP_RRQ \<or> op = OP_WRQ"
    and run: "(if op = OP_RRQ then CMSG_RRQ os sConf (length p) w (delivered_session p s)
      else CMSG_WRQ os sConf (length p) w (delivered_session p s)) = Inr (r, w1, s1)"
    and q: "sqs_inv (sqs w1)" and buf: "buffer_ok s1" "LastRecvPktSize s1 = int (length p)" "int (length p) < BlockSize s1 + 6"
    and s1: "Error s1 = TFTP_ERR_NO_ERROR" "TransferDone s1 = 0" "CommSocket s1 \<noteq> - 1"
  obtains w2 where "disk w2 = disk w1" "sends w2 = sends w1" "sqs_inv (sqs w2)"
    "serve os sConf (p # ps) w s = serve os sConf ps w2 s1"
proof -
  have pp: "ParsePacket os sConf (nat (LastRecvPktSize (delivered_session p s))) w (delivered_session p s) = Inr (r, w1, s1)"
    using run ParsePacket_request [OF inv p len op] by simp
  have ph: "packet_held s1" using buf by (intro session_held) simp_all
  have pos: "0 < LastRecvPktSize (delivered_session p s)" by (simp add: p request_def)
  obtain w2 where "disk w2 = disk w1" "sends w2 = sends w1" "sqs_inv (sqs w2)"
    "serve os sConf (p # ps) w s = serve os sConf ps (next_call w2) s1"
    by (rule serve_step [OF deliver_eq [OF inv len] pos pp q ph, of ps]) (use s1 in \<open>simp del: serve.simps\<close>)
  then show thesis by (intro that [of "next_call w2"]) simp_all
qed

section \<open>What the client gets\<close>

text \<open>The data a client takes from a datagram, and from all of them in order.\<close>

definition data_of :: "bytes \<Rightarrow> (u16 \<times> bytes) option" where
  "data_of pkt = (case split_packet pkt of
     Some (op, n, d) \<Rightarrow> if op = op_value OP_DATA then Some (n, d) else None | None \<Rightarrow> None)"

definition received_blocks :: "(int \<times> bytes \<times> int) list \<Rightarrow> (u16 \<times> bytes) list" where
  "received_blocks new = List.map_filter (\<lambda>x. data_of (fst (snd x))) new"

lemma data_of_data_packet [simp]: "data_of (data_packet n d) = Some (n, d)"
  by (simp add: data_of_def data_packet_def split_packet4)

lemma data_of_oack [simp]: "data_of (htons_bytes (op_value OP_OACK) @ opts) = None"
proof (cases "length opts < 2")
  case False
  have "ntohs_bytes (htons_bytes (op_value OP_OACK) ! 0) (htons_bytes (op_value OP_OACK) ! 1) = op_value OP_OACK"
    by (rule ntohs_htons)
  then show ?thesis using False
    by (simp add: data_of_def split_packet_def nth_append htons_bytes_def del: op_value.simps) simp
qed (simp add: data_of_def split_packet_def)

lemma received_blocks_append: "received_blocks (xs @ ys) = received_blocks xs @ received_blocks ys"
  by (simp add: received_blocks_def map_filter_def)

lemma received_window:
  "received_blocks (window_sends fd i ps) = zip (map (\<lambda>k. word_of_int (i + int k)) [0..<length ps]) ps"
proof (induction ps arbitrary: i)
  case (Cons p ps)
  have "map (\<lambda>k. word_of_int (i + int k)) [0..<length (p # ps)] =
      word_of_int i # map (\<lambda>k. word_of_int ((i + 1) + int k) :: u16) [0..<length ps]"
    by (simp add: upt_conv_Cons map_Suc_upt [symmetric] algebra_simps del: upt_Suc)
  then show ?case
    using Cons [of "i + 1"] by (simp add: received_blocks_def window_sends_def map_filter_def)
qed (simp add: received_blocks_def window_sends_def map_filter_def)

text \<open>The whole download.\<close>

text \<open>
  C1. A download of an allowed file by a client that acknowledges the last block of every window,
  on a machine that does what it is asked: the session ends without an error, the disk is
  untouched, the data blocks are numbered from 1 and put together they are the file.
\<close>

theorem download_delivers_file:
  assumes os: "machine_ok os sConf" and idle: "idle s" and rq: "request_ok OP_RRQ name mode opts s"
    and al: "may_download sConf name" and c: "disk w name = Some c"
    and q: "q = negotiate sConf (Some (length c)) opts (start_params s)" and room: "room_for q"
    and sz: "size_ok sConf (nat (p_blksize q)) c" and rep: "sqs_inv (sqs w)"
  defines "n \<equiv> blocks (nat (p_blksize q)) c"
  shows "\<exists>w' s' new. serve os sConf (request OP_RRQ name mode opts # client_acks (nat (p_window q)) n 0) w s = Inr (w', s') \<and>
    TransferDone s' = 1 \<and> Error s' = TFTP_ERR_NO_ERROR \<and> disk w' = disk w \<and> sends w' = sends w @ new \<and>
    map fst (received_blocks new) = map (\<lambda>k. of_nat (k + 1)) [0..<n] \<and>
    concat (map snd (received_blocks new)) = c"
proof -
  let ?p = "request OP_RRQ name mode opts" let ?b = "nat (p_blksize q)" let ?W = "nat (p_window q)"
  have inv: "session_inv s" using idle by (simp add: idle_def)
  have len: "int (length ?p) \<le> BlockSize s + 4" using rq by (simp add: request_ok_def)
  have ll: "lossless os" using os by (simp add: machine_ok_def)
  from RRQ_serves [OF os idle rq al c q room] obtain w3 s3 fd oack where
    run: "CMSG_RRQ os sConf (length ?p) w (delivered_session ?p s) =
      bindR (SMSG_DATA os sConf 0 w3 s3) (\<lambda>(w, s). Inr (0, w, s))"
    and w3: "sends w3 = sends w @ oack" "disk w3 = disk w" "sqs w3 = sqs w"
    and pk: "LastRecvPktSize s3 = int (length ?p)" "int (length ?p) < p_blksize q + 6"
    and oack: "if p_reply q = [] then oack = [] else \<exists>r. oack = [(fd, htons_bytes (op_value OP_OACK) @ p_reply q, r)]"
    and fd: "fd = os_socket os (calls w)" and rdy: "ready ?b ?W c fd 0 w3 s3" by blast
  have fd: "fd \<noteq> - 1" using os fd by (simp add: machine_ok_def network_up_def)
  from download_ready [OF ll sz fd rdy] obtain w1 s1 where
    d: "SMSG_DATA os sConf 0 w3 s3 = Inr (w1, s1)" "window_sent ?b ?W c fd 0 w1 s1" "sqs w1 = sqs w3"
      "LastRecvPktSize s1 = LastRecvPktSize s3"
    and tail: "\<And>w2. disk w2 = disk w1 \<Longrightarrow> sends w2 = sends w1 \<Longrightarrow> sqs_inv (sqs w2) \<Longrightarrow>
      \<exists>w' s'. serve os sConf (client_acks ?W n 0) w2 s1 = Inr (w', s') \<and> TransferDone s' = 1 \<and>
        Error s' = TFTP_ERR_NO_ERROR \<and> disk w' = disk w3 \<and>
        sends w' = sends w3 @ window_sends fd 1 (map (file_block ?b c) [0..<n])" unfolding n_def by blast
  have s1: "session_inv s1" "Error s1 = TFTP_ERR_NO_ERROR" "TransferDone s1 = 0" "CommSocket s1 = fd" "BlockSize s1 = int ?b"
    using d(2) by (simp_all add: window_sent_def serving_def)
  then have "buffer_ok s1" "int (length ?p) < BlockSize s1 + 6" using pk(2) by (simp_all add: session_inv_def)
  moreover have "(if OP_RRQ = OP_RRQ then CMSG_RRQ os sConf (length ?p) w (delivered_session ?p s)
      else CMSG_WRQ os sConf (length ?p) w (delivered_session ?p s)) = Inr (0, w1, s1)" using run d(1) by simp
  moreover have "sqs_inv (sqs w1)" "LastRecvPktSize s1 = int (length ?p)" using rep w3(3) d(3,4) pk(1) by simp_all
  ultimately obtain w2 where w2: "disk w2 = disk w1" "sends w2 = sends w1" "sqs_inv (sqs w2)"
    and go2: "serve os sConf (?p # client_acks ?W n 0) w s = serve os sConf (client_acks ?W n 0) w2 s1"
    using serve_request [OF inv refl len disjI1 [OF refl], of os sConf w 0 w1 s1] s1 fd by metis
  from tail [OF w2] obtain w' s' where e: "serve os sConf (?p # client_acks ?W n 0) w s = Inr (w', s')"
    "TransferDone s' = 1" "Error s' = TFTP_ERR_NO_ERROR" "disk w' = disk w3"
    "sends w' = sends w3 @ window_sends fd 1 (map (file_block ?b c) [0..<n])" unfolding go2 by blast
  define new where "new = oack @ window_sends fd 1 (map (file_block ?b c) [0..<n])"
  have "received_blocks oack = []"
    using oack data_of_oack [of "p_reply q"]
    by (auto simp: received_blocks_def map_filter_def simp del: op_value.simps split: if_splits)
  then have rb: "received_blocks new =
      zip (map (\<lambda>k. word_of_int (1 + int k)) [0..<n]) (map (file_block ?b c) [0..<n])"
    by (simp add: new_def received_blocks_append received_window)
  have "serving ?b ?W c fd 0 w3 s3" using rdy unfolding ready_def by blast
  then have "0 < ?b" by (rule servingD(1))
  then have "concat (map snd (received_blocks new)) = c"
    using concat_blocks [of ?b c] by (simp add: rb n_def)
  moreover have "map fst (received_blocks new) = map (\<lambda>k. of_nat (k + 1)) [0..<n]"
    by (simp add: rb)
  ultimately show ?thesis using e w3 by (auto simp: new_def simp del: serve.simps intro!: exI [of _ new])
qed

end
