(* ===== verification/Upload.thy ===== *)
theory Upload
  imports Download
begin

text \<open>
  An upload from the request to the last block, with a window of one block: what the client
  sends is what ends up in the file, and every block that is not empty is acknowledged. With larger
  windows the server's bookkeeping and its numbering disagree; the theory \<open>Limits\<close> shows how.
\<close>

section \<open>Receiving one block\<close>

text \<open>The disk takes every block that fits a packet.\<close>

definition disk_accepts :: "os \<Rightarrow> bool" where
  "disk_accepts os \<longleftrightarrow> (\<forall>k. 65464 \<le> os_fwrite os k)"

text \<open>
  The session when \<open>k\<close> blocks of a file named \<open>name\<close> have been stored, which now holds \<open>c\<close>, and
  \<open>h\<close> bytes were counted.
\<close>

definition receiving :: "nat \<Rightarrow> bytes \<Rightarrow> int \<Rightarrow> nat \<Rightarrow> bytes \<Rightarrow> nat \<Rightarrow> world \<Rightarrow> session \<Rightarrow> bool" where
  "receiving b name fd k c h w s \<longleftrightarrow> session_inv s \<and> SelectedOperation s = TFTP_OP_CLIENT_TO_SERVER \<and>
     disk w name = Some c \<and> hFile s = Some \<lparr>f_name = name, f_pos = length c\<rparr> \<and>
     WindowSize s = 1 \<and> BlockNrInWindowReceived s = Some [0] \<and> FirstBlockInWindow s = int k \<and>
     BlockSize s = int b \<and> CommSocket s = fd \<and> Error s = TFTP_ERR_NO_ERROR \<and> TransferDone s = 0 \<and>
     BytesHandled s = of_nat h"

text \<open>The bytes counted stay within the limit for uploads, when there is one.\<close>

definition count_ok :: "AppConfig \<Rightarrow> nat \<Rightarrow> bool" where
  "count_ok sConf n \<longleftrightarrow> KillConnectionAfterxBytesReceived sConf = 0 \<or>
     (0 < KillConnectionAfterxBytesReceived sConf \<and> int_ok (KillConnectionAfterxBytesReceived sConf) \<and>
      int n \<le> KillConnectionAfterxBytesReceived sConf)"

lemma count_ok_limit:
  assumes "count_ok sConf (h + m)"
  shows "\<not> over_limit sConf (of_nat h + of_nat m)"
proof -
  have "within_limit sConf (of_nat h) m"
    using assms by (intro within_limit_of_nat) (auto simp: count_ok_def)
  then show ?thesis by (rule within_limitD) simp
qed

lemma fwrite_append:
  assumes "d name = Some c" and "f = \<lparr>f_name = name, f_pos = length c\<rparr>" and "length p \<le> a"
  shows "fwrite a d f p = (if p = [] then (d, f)
    else (d(name \<mapsto> c @ p), \<lparr>f_name = name, f_pos = length (c @ p)\<rparr>))"
  using assms by (simp add: fwrite_def f_content_def Let_def)

lemma uint_Suc_u16: "k < 65535 \<Longrightarrow> uint (word_of_int (int k + 1) :: u16) = int k + 1"
  by (rule uint_u16_id) linarith+

lemma deliver_data:
  assumes "session_inv s" and "int (length p) \<le> BlockSize s"
  shows "deliver (data_packet n p) s = Inr (delivered_session (data_packet n p) s)"
    and "ParsePacket os sConf (4 + length p) w (delivered_session (data_packet n p) s) =
         CMSG__DATA os sConf (4 + length p) w (delivered_session (data_packet n p) s)"
    and "packet_u16 (delivered_session (data_packet n p) s) 2 = Inr n"
    and "\<exists>buf. LastRecvPacket (delivered_session (data_packet n p) s) = Some buf \<and>
           4 + length p \<le> length buf \<and> drop 4 (take (4 + length p) buf) = p"
proof -
  have len: "int (length (data_packet n p)) \<le> BlockSize s + 4" using assms(2) by simp
  show "deliver (data_packet n p) s = Inr (delivered_session (data_packet n p) s)"
    by (rule deliver_eq [OF assms(1) len])
  show "packet_u16 (delivered_session (data_packet n p) s) 2 = Inr n"
    using delivered_u16(2) [OF assms, of OP_DATA n] by (simp add: data_packet_def)
  show "ParsePacket os sConf (4 + length p) w (delivered_session (data_packet n p) s) =
         CMSG__DATA os sConf (4 + length p) w (delivered_session (data_packet n p) s)"
    using delivered_u16(1) [OF assms, of OP_DATA n]
    by (simp add: ParsePacket_def EnsureHaveEnoughPacketBytes_def data_packet_def)
  from delivered_buf [OF assms(1) len] obtain buf where
    "LastRecvPacket (delivered_session (data_packet n p) s) = Some buf"
    "take (length (data_packet n p)) buf = data_packet n p" "int (length buf) = BlockSize s + 6" by blast
  moreover have "drop 4 (data_packet n p) = p" by (simp add: data_packet_def)
  ultimately show "\<exists>buf. LastRecvPacket (delivered_session (data_packet n p) s) = Some buf \<and>
           4 + length p \<le> length buf \<and> drop 4 (take (4 + length p) buf) = p"
    using assms(2) by (intro exI [of _ buf]) auto
qed

text \<open>
  A block with a higher number than the last one stored, as the server stores and acknowledges it:
  as the next block, whatever its number is.
\<close>

lemma receive_block:
  assumes os: "lossless os" "disk_accepts os" and rc: "receiving b name fd k c h w s"
    and p: "length p \<le> b" and nr: "int k < uint (nr :: u16)" and cnt: "count_ok sConf (h + (4 + length p))"
  defines "j \<equiv> (if p = [] then k else k + 1)"
  shows "\<exists>w' s'. CMSG__DATA os sConf (4 + length p) w (delivered_session (data_packet nr p) s) = Inr (0, w', s') \<and>
    sends w' = sends w @ [(fd, ack_packet (of_nat j), 4)] \<and> (\<forall>m. m \<noteq> name \<longrightarrow> disk w' m = disk w m) \<and>
    sqs w' = sqs w \<and> session_inv s' \<and> LastRecvPktSize s' = int (4 + length p) \<and> CommSocket s' = fd \<and>
    BlockSize s' = BlockSize s \<and>
    (if length p < b then TransferDone s' = 1 \<and> Error s' = TFTP_ERR_NO_ERROR \<and> disk w' name = Some (c @ p)
     else receiving b name fd (k + 1) (c @ p) (h + (4 + length p)) w' s')"
proof -
  let ?d = "delivered_session (data_packet nr p) s" let ?sz = "4 + length p"
  have inv: "session_inv s" and b: "BlockSize s = int b" and W: "WindowSize s = 1"
    and fb: "FirstBlockInWindow s = int k" and sel: "SelectedOperation s = TFTP_OP_CLIENT_TO_SERVER"
    and arr: "BlockNrInWindowReceived s = Some [0]" and hf: "hFile s = Some \<lparr>f_name = name, f_pos = length c\<rparr>"
    and dk: "disk w name = Some c" and sk: "CommSocket s = fd" and er: "Error s = TFTP_ERR_NO_ERROR"
    and td: "TransferDone s = 0" and bh: "BytesHandled s = of_nat h"
    using rc by (simp_all add: receiving_def)
  have len: "int (length p) \<le> BlockSize s" using p b by simp
  note dd = deliver_data [OF inv len, where n = nr]
  obtain buf where buf: "LastRecvPacket ?d = Some buf" "?sz \<le> length buf" "drop 4 (take ?sz buf) = p"
    using dd(4) by blast
  have k: "k < 65535" using nr unsigned_less [of nr, where ?'a = int] by simp
  have ov: "\<not> over_limit sConf (BytesHandled ?d + of_nat ?sz)" using count_ok_limit [OF cnt] bh by simp
  have rem: "c_rem (uint nr - 1) (WindowSize ?d) = Inr 0" using W nr by (simp add: c_rem_nonneg)
  define s1 where "s1 = marked ?sz 0 [0] ?d"
  have s1: "BlockNrInWindowReceived s1 = Some [int (length p)]" "hFile s1 = Some \<lparr>f_name = name, f_pos = length c\<rparr>"
    "WindowSize s1 = 1" "BlockSize s1 = int b" "LastRecvPacket s1 = Some buf" "CommSocket s1 = fd"
    "FirstBlockInWindow s1 = int k" "TransferDone s1 = 0" "Error s1 = TFTP_ERR_NO_ERROR"
    "LastRecvPktSize s1 = int ?sz"
    using W b buf(1) sk fb hf td er by (simp_all add: s1_def marked_def) (simp_all add: counted_def)
  define f2 where "f2 = \<lparr>f_name = name, f_pos = length (c @ p)\<rparr>"
  define w2 where "w2 = (if p = [] then w else (next_call w)\<lparr>disk := (disk w)(name \<mapsto> c @ p)\<rparr>)"
  define s2 where "s2 = (if p = [] then s1 else s1\<lparr>hFile := Some f2, WindowRetryCount := 0\<rparr>)"
  have st: "data_step os ?sz (uint nr) w s1 = Inr (w2, s2)"
  proof (cases "p = []")
    case False
    have "65464 \<le> os_fwrite os (calls w)" using os(2) by (simp add: disk_accepts_def)
    moreover have "b \<le> 65464" using inv b by (simp add: session_inv_def ranges_ok_def)
    ultimately have "length p \<le> os_fwrite os (calls w)" using p by linarith
    with fwrite_append [of "disk w" name c, OF dk refl this] False
    have "sys_fwrite os w \<lparr>f_name = name, f_pos = length c\<rparr> p = (w2, f2)"
      by (simp add: sys_fwrite_def w2_def f2_def)
    then show ?thesis
      using False s1 buf by (simp add: data_step_def store_block_def packet_buf_def s2_def)
  qed (simp add: data_step_def w2_def s2_def)
  have run: "CMSG__DATA os sConf ?sz w ?d =
      bindR (SMSG_ACK_Block os 0 w2 (data_done ?sz s2)) (\<lambda>(w, s). Inr (0, w, s))"
    using sel ov dd(3) fb nr rem arr st unfolding DATA_eq s1_def
    by (simp add: window_array_def)
  define s3 where "s3 = data_done ?sz s2"
  have s3: "BlockNrInWindowReceived s3 = Some [int (length p)]" "WindowSize s3 = 1" "FirstBlockInWindow s3 = int k"
    "CommSocket s3 = fd" "Error s3 = TFTP_ERR_NO_ERROR" "LastRecvPktSize s3 = int ?sz" "BlockSize s3 = int b"
    using s1 by (simp_all add: s3_def data_done_def s2_def)
  have pre: "received_prefix [int (length p)] = (if p = [] then 0 else 1)"
    by (simp add: received_prefix_def)
  have ackn: "word_of_int (FirstBlockInWindow s3 + received_prefix [int (length p)]) = (of_nat j :: u16)"
    by (simp add: s3 pre j_def)
  have uj: "uint (of_nat j :: u16) = int j" using k by (intro uint_of_nat_u16) (simp add: j_def)
  have send: "os_send os (calls w2) fd (ack_packet (of_nat j)) = 4"
    using os(1) by (simp add: lossless_def sends_ok_def)
  define w' where "w' = w2\<lparr>calls := calls w2 + 2, sends := sends w2 @ [(fd, ack_packet (of_nat j), 4)]\<rparr>"
  obtain ts where ack: "SMSG_ACK_Block os 0 w2 s3 = Inr (w', s3\<lparr>FirstBlockInWindow := int j,
      BlockNrInWindowReceived := Some [0], LastActivityStamp := ts\<rparr>)"
    using SMSG_ACK_Block_eq [OF s3(1), of os 0 w2] s3 send uj ackn
    by (simp add: sys_send_def sys_tick_def next_call_def w'_def Let_def)
  define s' where "s' = s3\<lparr>FirstBlockInWindow := int j, BlockNrInWindowReceived := Some [0], LastActivityStamp := ts\<rparr>"
  have go: "CMSG__DATA os sConf ?sz w ?d = Inr (0, w', s')" using run ack by (simp add: s3_def s'_def)
  have w': "sends w' = sends w @ [(fd, ack_packet (of_nat j), 4)]" "disk w' name = Some (c @ p)"
    "\<forall>m. m \<noteq> name \<longrightarrow> disk w' m = disk w m" "sqs w' = sqs w"
    using dk by (simp_all add: w'_def w2_def)
  have inv': "session_inv s'"
    using delivered_inv [OF inv, of "data_packet nr p"] len sel
    by (rule_tac DATA_inv [OF go]) simp_all
  have fr: "LastRecvPktSize s' = int ?sz" "CommSocket s' = fd" "BlockSize s' = BlockSize s" using s3 b by (simp_all add: s'_def)
  show ?thesis
  proof (cases "length p < b")
    case True
    then have "TransferDone s' = 1" using s1 by (simp add: s'_def s3_def data_done_def s2_def)
    with go w' True s3(5) inv' fr show ?thesis by (intro exI [of _ w'] exI [of _ s']) (simp add: s'_def)
  next
    case False
    then have pb: "length p = b" "p \<noteq> []" using p inv b by (auto simp: session_inv_def ranges_ok_def)
    have "receiving b name fd (k + 1) (c @ p) (h + ?sz) w' s'"
      using s1 s3 w' pb sel td bh inv'
      by (simp add: receiving_def s'_def s3_def data_done_def s2_def j_def f2_def)
        (simp add: s1_def marked_def counted_def)
    with go w' False inv' fr show ?thesis by (intro exI [of _ w'] exI [of _ s']) simp
  qed
qed

section \<open>Receiving a file\<close>

text \<open>The data packets of a client that sends \<open>c\<close>, from block \<open>k\<close> on (counted from 0).\<close>

definition client_data :: "nat \<Rightarrow> bytes \<Rightarrow> nat \<Rightarrow> bytes list" where
  "client_data b c k = map (\<lambda>i. data_packet (of_nat (i + 1)) (file_block b c i)) [k..<blocks b c]"

text \<open>
  The block numbers that are acknowledged: every block once, but when the last block is empty
  the one before it a second time instead.
\<close>

definition server_acks :: "nat \<Rightarrow> bytes \<Rightarrow> nat \<Rightarrow> nat list" where
  "server_acks b c k = [k + 1..<blocks b c] @ [if b dvd length c then blocks b c - 1 else blocks b c]"

definition ack_sends :: "int \<Rightarrow> nat list \<Rightarrow> (int \<times> bytes \<times> int) list" where
  "ack_sends fd js = map (\<lambda>j. (fd, ack_packet (of_nat j), 4)) js"

lemma file_block_prefix:
  "take (k * b) c @ file_block b c k = take (Suc k * b) c"
proof -
  have "Suc k * b = k * b + b" by simp
  then show ?thesis by (simp only: file_block_def take_add)
qed

lemma last_block_empty:
  assumes "0 < b" and "Suc k = blocks b c" shows "file_block b c k = [] \<longleftrightarrow> b dvd length c"
proof -
  have k: "k = length c div b" using assms(2) by (simp add: blocks_def)
  have "file_block b c k = [] \<longleftrightarrow> length c \<le> length c div b * b"
    using assms(1) by (simp add: file_block_def k)
  also have "\<dots> \<longleftrightarrow> length c mod b = 0"
    using div_mult_mod_eq [of "length c" b] by linarith
  finally show ?thesis by (simp add: dvd_eq_mod_eq_0)
qed

lemma serve_data:
  assumes inv: "session_inv s" and len: "int (length d) \<le> BlockSize s"
    and run: "CMSG__DATA os sConf (4 + length d) w (delivered_session (data_packet n d) s) = Inr (r, w1, s1)"
    and q: "sqs_inv (sqs w1)" and s1: "session_inv s1" "LastRecvPktSize s1 = int (4 + length d)" "BlockSize s1 = BlockSize s"
  obtains w2 where "disk w2 = disk w1" "sends w2 = sends w1" "sqs_inv (sqs w2)"
    "serve os sConf (data_packet n d # ps) w s =
      (if CommSocket s1 = - 1 then Inr (w2, s1)
       else if Error s1 \<noteq> TFTP_ERR_NO_ERROR then Inr (SMSG_Error os w2 s1)
       else if TransferDone s1 = 1 then Inr (w2, s1) else serve os sConf ps (next_call w2) s1)"
proof -
  let ?d = "delivered_session (data_packet n d) s"
  have "nat (4 + int (length d)) = 4 + length d" by arith
  then have pp: "ParsePacket os sConf (nat (LastRecvPktSize ?d)) w ?d = Inr (r, w1, s1)"
    using run deliver_data(2) [OF inv len, of os sConf w n] by simp
  have ph: "packet_held s1" using s1 len by (intro session_held) (simp_all add: session_inv_def)
  show thesis by (rule serve_step [OF deliver_data(1) [OF inv len] _ pp q ph, of ps]) (simp, rule that)
qed

lemma count_ok_mono: "count_ok sConf m \<Longrightarrow> n \<le> m \<Longrightarrow> count_ok sConf n"
  by (auto simp: count_ok_def)

lemma serve_blocks:
  assumes os: "lossless os" "disk_accepts os" and fd: "fd \<noteq> - 1" and n: "blocks b c \<le> 65535"
    and cnt: "count_ok sConf (length c + 4 * blocks b c)"
    and rc: "receiving b name fd k (take (k * b) c) (k * (b + 4)) w s" and k: "k < blocks b c"
    and q: "sqs_inv (sqs w)"
  shows "\<exists>w' s'. serve os sConf (client_data b c k) w s = Inr (w', s') \<and> TransferDone s' = 1 \<and>
    Error s' = TFTP_ERR_NO_ERROR \<and> disk w' name = Some c \<and> (\<forall>m. m \<noteq> name \<longrightarrow> disk w' m = disk w m) \<and>
    sends w' = sends w @ ack_sends fd (server_acks b c k)"
  using rc k q
proof (induction "blocks b c - k" arbitrary: k w s)
  case (Suc x k w s)
  let ?p = "file_block b c k"
  have inv: "session_inv s" and bs: "BlockSize s = int b" using Suc.prems(1) by (simp_all add: receiving_def)
  then have b: "0 < b" by (simp add: session_inv_def ranges_ok_def)
  have p: "length ?p \<le> b" by (simp add: length_file_block)
  have "k * b \<le> length c div b * b" using Suc.prems(2) by (intro mult_le_mono1) (simp add: blocks_def)
  then have le: "k * b + length ?p \<le> length c"
    using div_times_less_eq_dividend [of "length c" b] unfolding length_file_block by linarith
  have h: "k * (b + 4) + (4 + length ?p) \<le> length c + 4 * blocks b c"
    using le Suc.prems(2) by (simp add: algebra_simps)
  have "int k < uint (word_of_int (int k + 1) :: u16)" using uint_Suc_u16 [of k] Suc.prems(2) n by linarith
  from receive_block [OF os Suc.prems(1) p this count_ok_mono [OF cnt h]]
  obtain w1 s1 where
    go: "CMSG__DATA os sConf (4 + length ?p) w
        (delivered_session (data_packet (word_of_int (int k + 1)) ?p) s) = Inr (0, w1, s1)"
    and w1: "sends w1 = sends w @ [(fd, ack_packet (of_nat (if ?p = [] then k else k + 1)), 4)]"
      "\<forall>m. m \<noteq> name \<longrightarrow> disk w1 m = disk w m" "sqs w1 = sqs w"
    and s1: "session_inv s1" "LastRecvPktSize s1 = int (4 + length ?p)" "CommSocket s1 = fd" "BlockSize s1 = BlockSize s"
    and next1: "if length ?p < b then TransferDone s1 = 1 \<and> Error s1 = TFTP_ERR_NO_ERROR \<and>
        disk w1 name = Some (take (k * b) c @ ?p)
      else receiving b name fd (k + 1) (take (k * b) c @ ?p) (k * (b + 4) + (4 + length ?p)) w1 s1"
    by fastforce
  have cd: "client_data b c k = data_packet (word_of_int (int k + 1)) ?p # client_data b c (Suc k)"
    using Suc.prems(2) by (simp add: client_data_def upt_conv_Cons add.commute)
  have "int (length ?p) \<le> BlockSize s" using p bs by simp
  moreover have "sqs_inv (sqs w1)" using w1(3) Suc.prems(3) by simp
  ultimately obtain w2 where w2: "disk w2 = disk w1" "sends w2 = sends w1" "sqs_inv (sqs w2)"
    and sd: "serve os sConf (client_data b c k) w s =
      (if CommSocket s1 = - 1 then Inr (w2, s1)
       else if Error s1 \<noteq> TFTP_ERR_NO_ERROR then Inr (SMSG_Error os w2 s1)
       else if TransferDone s1 = 1 then Inr (w2, s1) else serve os sConf (client_data b c (Suc k)) (next_call w2) s1)"
    unfolding cd using serve_data [OF inv _ go _ s1(1,2,4)] by metis
  show ?case
  proof (cases "Suc k = blocks b c")
    case True
    then have "length ?p < b" using block_short_iff [OF b Suc.prems(2)] by simp
    with next1 have d: "TransferDone s1 = 1" "Error s1 = TFTP_ERR_NO_ERROR"
      "disk w1 name = Some (take (k * b) c @ ?p)" by simp_all
    have "take (k * b) c @ ?p = c"
      using dividend_less_div_times [OF b, of "length c"] True [symmetric]
      by (simp add: file_block_prefix) (simp add: blocks_def)
    moreover have "serve os sConf (client_data b c k) w s = Inr (w2, s1)" using sd d(1,2) by simp
    moreover have "server_acks b c k = [if ?p = [] then k else k + 1]"
      using True [symmetric] last_block_empty [OF b True] by (simp add: server_acks_def)
    ultimately show ?thesis using d w1 w2 by (simp add: ack_sends_def)
  next
    case False
    then have nl: "\<not> length ?p < b" using block_short_iff [OF b Suc.prems(2)] by simp
    then have full: "length ?p = b" "?p \<noteq> []" using p b by auto
    have pre: "take (k * b) c @ ?p = take (Suc k * b) c" by (rule file_block_prefix)
    have "receiving b name fd (Suc k) (take (Suc k * b) c) (Suc k * (b + 4)) w1 s1"
      using next1 nl full(1) unfolding pre by (simp add: algebra_simps)
    then have "receiving b name fd (Suc k) (take (Suc k * b) c) (Suc k * (b + 4)) (next_call w2) s1"
      using w2(1) by (simp add: receiving_def)
    moreover have "sqs_inv (sqs (next_call w2))" using w2(3) by simp
    moreover have "x = blocks b c - Suc k" "Suc k < blocks b c" using Suc.hyps(2) Suc.prems(2) False by simp_all
    ultimately obtain w' s' where
      ih: "serve os sConf (client_data b c (Suc k)) (next_call w2) s1 = Inr (w', s')" "TransferDone s' = 1"
        "Error s' = TFTP_ERR_NO_ERROR" "disk w' name = Some c" "\<forall>m. m \<noteq> name \<longrightarrow> disk w' m = disk w1 m"
        "sends w' = sends w1 @ ack_sends fd (server_acks b c (Suc k))"
      using Suc.hyps(1) [of "Suc k" "next_call w2" s1] w2(1,2) by auto
    have "receiving b name fd (k + 1) (take (k * b) c @ ?p) (k * (b + 4) + (4 + length ?p)) w1 s1"
      using next1 nl by simp
    then have "Error s1 = TFTP_ERR_NO_ERROR" "TransferDone s1 = 0" by (simp_all add: receiving_def)
    then have "serve os sConf (client_data b c k) w s = Inr (w', s')" using sd fd s1(3) ih(1) by simp
    moreover have "server_acks b c k = (k + 1) # server_acks b c (Suc k)"
      using Suc.prems(2) False by (simp add: server_acks_def upt_conv_Cons)
    ultimately show ?thesis using ih w1 full(2) by (simp add: ack_sends_def)
  qed
qed simp

section \<open>The write request\<close>

lemma WRQ_serves:
  fixes w :: world
  assumes os: "machine_ok os sConf" and idle: "idle s" and rq: "request_ok OP_WRQ name mode opts s"
    and al: "may_upload sConf name" and wr: "NoFileWriteOnServer sConf = 0"
    and q: "q = negotiate sConf (Some 0) opts (start_params s)" and room: "room_for q"
    and W: "p_window q = 1"
  defines "p \<equiv> request OP_WRQ name mode opts" and "fd \<equiv> os_socket os (calls w)"
  shows "\<exists>w' s' oack. CMSG_WRQ os sConf (length p) w (delivered_session p s) = Inr (0, w', s') \<and>
    (if p_reply q = [] then oack = []
     else \<exists>r. oack = [(fd, htons_bytes (op_value OP_OACK) @ p_reply q, r)]) \<and>
    sends w' = sends w @ oack @ [(fd, ack_packet 0, 4)] \<and> (\<forall>m. m \<noteq> name \<longrightarrow> disk w' m = disk w m) \<and>
    sqs w' = sqs w \<and> LastRecvPktSize s' = int (length p) \<and> int (length p) < BlockSize s' + 6 \<and>
    receiving (nat (p_blksize q)) name fd 0 [] 0 w' s'"
proof -
  note m = os [unfolded machine_ok_def]
  have len: "int (length p) \<le> BlockSize s + 4" and nul: "NUL \<notin> set name" "NUL \<notin> set mode"
    and fits: "\<forall>opt \<in> set opts. option_fits p opt"
    using rq by (simp_all add: request_ok_def p_def)
  from request_arrives [OF idle _ _ p_def [THEN meta_eq_to_obj_eq] len nul, of os sConf w] m obtain w1 s1 buf where
    pre: "request_prefix os sConf (length p) w (delivered_session p s) name (length name + length mode + 4) 0 w1 s1"
    and pk: "packet_ready p s1"
    and s1: "s1 = s\<lparr>LastRecvPacket := Some buf, LastRecvPktSize := int (length p), CommSocket := fd\<rparr>"
    unfolding fd_def by blast
  note fr = request_prefix_frame [OF pre]
  have w1: "disk w1 = disk w" "sends w1 = sends w" "sqs w1 = sqs w" using fr by simp_all
  define f where "f = \<lparr>f_name = name, f_pos = 0\<rparr>"
  define w2 where "w2 = (next_call w1)\<lparr>disk := (disk w1)(name \<mapsto> [])\<rparr>"
  have fo: "sys_fopen_s os w1 name Mode_wb = (Some f, w2)"
    using m by (simp add: sys_fopen_s_def fopen_s_def fopen_def f_def w2_def)
  define s2 where "s2 = s1\<lparr>hFile := Some f\<rparr>"
  have "f_content (disk w2) f = []" by (simp add: f_content_def f_def w2_def)
  then have q2: "q = negotiate sConf (open_size w2 s2) opts (start_params s2)"
    using q by (simp add: open_size_def s2_def start_params_def s1)
  have pk2: "packet_ready p s2" using pk by (simp add: packet_ready_def s2_def)
  define hd where "hd = htons_bytes (op_value OP_WRQ) @ name @ [NUL] @ mode @ [NUL]"
  have p2: "p = hd @ encode_options opts" by (simp add: p_def request_def hd_def)
  have hd: "length hd = length name + length mode + 4" by (simp add: hd_def)
  have "in_place os" using m by blast
  from ParseOptions_refines [OF this pk2 p2 fits q2 room] obtain w3 s3 new where
    po: "ParseOptions os sConf (length p) (length hd) w2 s2 = Inr (0, w3, s3, length p)"
    and of: "options_frame sConf w2 s2 new w3 s3" and oa: "oack_sent os w2 s2 q new" and er: "Error s3 = Error s2"
    and num: "BlockSize s3 = p_blksize q" "WindowSize s3 = p_window q" and bo: "buffer_ok s3"
      "int (length p) < BlockSize s3 + 6" by blast
  note po = po [unfolded hd]
  note o = options_frame_simps [OF of]
  define s4 where "s4 = upload_start s3"
  have arr: "BlockNrInWindowReceived s4 = Some [0]" "WindowSize s4 = 1" "FirstBlockInWindow s4 = 0"
    "CommSocket s4 = fd"
    using num(2) W o(7) by (simp_all add: s4_def upload_start_def s2_def s1)
  have "session_inv s1"
    using idle pk by (auto simp: s1 idle_def session_inv_defs packet_ready_def tftp_consts)
  then have ro: "ranges_ok s3" using options_frame_ranges [OF of] m by (simp add: s2_def session_inv_def ranges_ok_def)
  have inv4: "session_inv s4" unfolding s4_def by (rule upload_start_inv [OF bo(1) ro])
  have send: "os_send os (Suc (calls w3)) fd (ack_packet 0) = 4"
    using m by (simp add: lossless_def sends_ok_def)
  define w' where "w' = w3\<lparr>calls := Suc (Suc (Suc (calls w3))), sends := sends w3 @ [(fd, ack_packet 0, 4)]\<rparr>"
  obtain ts where ack: "SMSG_ACK_Block os 1 (next_call w3) s4 =
      Inr (w', s4\<lparr>FirstBlockInWindow := 0, BlockNrInWindowReceived := Some [0], LastActivityStamp := ts\<rparr>)"
    using SMSG_ACK_Block_eq [OF arr(1), of os 1 "next_call w3"] arr send
    by (simp add: sys_send_def sys_tick_def next_call_def w'_def Let_def received_prefix_def)
  define s' where "s' = s4\<lparr>FirstBlockInWindow := 0, BlockNrInWindowReceived := Some [0], LastActivityStamp := ts\<rparr>"
  have "FileIsAllowed strcmp name (UploadableFileNames sConf)"
    using al by (simp add: may_upload_def FileIsAllowed_iff)
  moreover have "os_malloc os (calls w3)" "0 \<le> WindowSize s3"
    using m num(2) W by (simp_all add: lossless_def)
  ultimately have run: "CMSG_WRQ os sConf (length p) w (delivered_session p s) = Inr (0, w', s')"
    unfolding WRQ_eq request_then_go [OF pre] using fo po wr ack
    by (simp add: s2_def s4_def s'_def Let_def)
  have hf: "hFile s3 = Some f"
    using o(20) by (auto simp: s2_def f_def same_file_def)
  have oack: "if p_reply q = [] then new = []
      else \<exists>r. new = [(fd, htons_bytes (op_value OP_OACK) @ p_reply q, r)]"
    using oa by (simp add: oack_sent_def s2_def s1 cong: if_cong)
  have sd: "sends w' = sends w @ new @ [(fd, ack_packet 0, 4)]" using o(2) w1 by (simp add: w'_def w2_def)
  have dk: "disk w' = (disk w)(name \<mapsto> [])" "sqs w' = sqs w" using o(1,3) w1 by (simp_all add: w'_def w2_def)
  have pk: "LastRecvPktSize s' = int (length p)" "int (length p) < BlockSize s' + 6"
    using o(14) bo(2) by (simp_all add: s'_def s4_def upload_start_def s2_def s1)
  have "session_inv s'" by (rule ACK_Block_inv [OF ack [folded s'_def] inv4]) (simp add: s4_def upload_start_def)
  then have "receiving (nat (p_blksize q)) name fd 0 [] 0 w' s'"
    using dk arr num ro hf idle o(9,10,11) er
    by (simp add: receiving_def s'_def s4_def upload_start_def f_def s2_def s1 idle_def ranges_ok_def)
  then show ?thesis using run oack sd dk pk by (intro exI [of _ w'] exI [of _ s'] exI [of _ new]) simp
qed

text \<open>
  C2. An upload of an allowed file with a window of one block: the session ends without an error,
  the file on the server is what the client sent, no other file changed, and the server sent the
  acknowledged options, block 0 and one answer per block. Each block is acknowledged under its number, but
  for an empty last block (of a file whose size is a multiple of the block size, the empty file
  included): it is answered with the number of the block before it, a second time.
\<close>

theorem upload_stores_file:
  fixes w :: world
  assumes os: "machine_ok os sConf" "disk_accepts os" and idle: "idle s"
    and rq: "request_ok OP_WRQ name mode opts s"
    and al: "may_upload sConf name" and wr: "NoFileWriteOnServer sConf = 0"
    and q: "q = negotiate sConf (Some 0) opts (start_params s)" and room: "room_for q"
    and W: "p_window q = 1" and rep: "sqs_inv (sqs w)"
  defines "b \<equiv> nat (p_blksize q)" and "fd \<equiv> os_socket os (calls w)"
  assumes n: "blocks b c \<le> 65535" and cnt: "count_ok sConf (length c + 4 * blocks b c)"
  shows "\<exists>w' s' oack. serve os sConf (request OP_WRQ name mode opts # client_data b c 0) w s = Inr (w', s') \<and>
    TransferDone s' = 1 \<and> Error s' = TFTP_ERR_NO_ERROR \<and>
    disk w' name = Some c \<and> (\<forall>m. m \<noteq> name \<longrightarrow> disk w' m = disk w m) \<and>
    (if p_reply q = [] then oack = []
     else \<exists>r. oack = [(fd, htons_bytes (op_value OP_OACK) @ p_reply q, r)]) \<and>
    sends w' = sends w @ oack @ ack_sends fd (0 # server_acks b c 0)"
proof -
  let ?p = "request OP_WRQ name mode opts"
  have inv: "session_inv s" using idle by (simp add: idle_def)
  have len: "int (length ?p) \<le> BlockSize s + 4" using rq by (simp add: request_ok_def)
  have ll: "lossless os" using os(1) by (simp add: machine_ok_def)
  from WRQ_serves [OF os(1) idle rq al wr q room W, of w] obtain w1 s1 oack where
    run: "CMSG_WRQ os sConf (length ?p) w (delivered_session ?p s) = Inr (0, w1, s1)"
    and oack: "if p_reply q = [] then oack = []
      else \<exists>r. oack = [(fd, htons_bytes (op_value OP_OACK) @ p_reply q, r)]"
    and w1: "sends w1 = sends w @ oack @ [(fd, ack_packet 0, 4)]" "\<forall>m. m \<noteq> name \<longrightarrow> disk w1 m = disk w m"
    and q1: "sqs w1 = sqs w" and pk: "LastRecvPktSize s1 = int (length ?p)" "int (length ?p) < BlockSize s1 + 6"
    and rc: "receiving b name fd 0 [] 0 w1 s1" unfolding b_def fd_def by blast
  have fd: "fd \<noteq> - 1" using os(1) by (simp add: fd_def machine_ok_def network_up_def)
  have s1: "Error s1 = TFTP_ERR_NO_ERROR" "TransferDone s1 = 0" "CommSocket s1 = fd" "buffer_ok s1"
    using rc by (simp_all add: receiving_def session_inv_def)
  have "sqs_inv (sqs w1)" using q1 rep by simp
  moreover have "(if OP_WRQ = OP_RRQ then CMSG_RRQ os sConf (length ?p) w (delivered_session ?p s)
      else CMSG_WRQ os sConf (length ?p) w (delivered_session ?p s)) = Inr (0, w1, s1)" using run by simp
  ultimately obtain w2 where w2: "disk w2 = disk w1" "sends w2 = sends w1" "sqs_inv (sqs w2)"
    and go: "serve os sConf (?p # client_data b c 0) w s = serve os sConf (client_data b c 0) w2 s1"
    using serve_request [OF inv refl len disjI2 [OF refl], of os sConf w 0 w1 s1] s1 pk fd by metis
  have rc0: "receiving b name fd 0 (take (0 * b) c) (0 * (b + 4)) w2 s1" using rc w2(1) by (simp add: receiving_def)
  have k: "0 < blocks b c" by (simp add: blocks_def)
  from serve_blocks [OF ll os(2) fd n cnt rc0 k w2(3)] obtain w' s' where
    d: "serve os sConf (client_data b c 0) w2 s1 = Inr (w', s')" "TransferDone s' = 1"
      "Error s' = TFTP_ERR_NO_ERROR" "disk w' name = Some c" "\<forall>m. m \<noteq> name \<longrightarrow> disk w' m = disk w1 m"
      "sends w' = sends w1 @ ack_sends fd (server_acks b c 0)" by (auto simp: w2)
  then show ?thesis using go w1 oack
    by (intro exI [of _ w'] exI [of _ s'] exI [of _ oack]) (simp add: ack_sends_def del: serve.simps)
qed

end
