(* ===== verification/Server.thy ===== *)
theory Server
  imports Thread
begin

text \<open>
  The server of \<^verbatim>\<open>TFTP.cpp\<close>: the list of active clients and its counter, the filter of
  duplicate requests, the thread that runs one session (\<^verbatim>\<open>ThreadDirectComm\<close> as a whole) and
  the listening loop of \<^verbatim>\<open>RunTFTPServer\<close>. The statements of the worker threads that touch the
  shared list interleave, so they are also given as a step relation.
\<close>

section \<open>The shared state\<close>

text \<open>
  Where a worker thread is. The counter and the list are shared and not protected by anything, so
  every access to them is a statement of its own: \<^verbatim>\<open>ActiveClientList[TransferCounter] = ...\<close> reads the
  index (which the thread then holds: \<open>Entering\<close>, \<open>Clearing\<close>) and writes the entry,
  \<^verbatim>\<open>TransferCounter++\<close> and \<^verbatim>\<open>TransferCounter--\<close> read the counter (\<open>Incrementing\<close>, \<open>Decrementing\<close>) and
  write the new value. \<open>Running\<close> is the loop of the session, \<open>Finished\<close> its end and \<open>Cleared\<close> the place
  before \<^verbatim>\<open>delete sess\<close>.
\<close>

datatype thread_pc =
    Started
  | Entering int
  | Stored
  | Incrementing int
  | Running
  | Finished
  | Decrementing int
  | Decremented
  | Clearing int
  | Cleared

text \<open>
  \<open>ActiveClientList\<close> holds pointers to the \<^verbatim>\<open>Client\<close> member of sessions, here the number of
  the session; \<open>clients\<close> maps the sessions that exist to that member.
\<close>

record server =
  ActiveClientList :: "nat option list"
  TransferCounter :: int
  clients :: "nat \<rightharpoonup> sockaddr"
  pcs :: "nat \<rightharpoonup> thread_pc"
  next_session :: nat

text \<open>The list is allocated with one more entry than parallel transfers and not initialised.\<close>

definition server_start :: "AppConfig \<Rightarrow> (nat \<Rightarrow> nat option) \<Rightarrow> server" where
  "server_start sConf garbage = \<lparr>ActiveClientList = map garbage [0..<nat (ParallelTransfersMax sConf + 1)],
     TransferCounter = 0, clients = Map.empty, pcs = Map.empty, next_session = 0\<rparr>"

text \<open>The loop \<^verbatim>\<open>for (int i = 0; i < TransferCounter; i++)\<close>; \<open>n\<close> turns are left.\<close>

fun duplicate_loop :: "server \<Rightarrow> sockaddr \<Rightarrow> nat \<Rightarrow> nat \<Rightarrow> int res" where
  "duplicate_loop srv NewClient i 0 = Inr 0"
| "duplicate_loop srv NewClient i (Suc n) =
     (if length (ActiveClientList srv) \<le> i then Inl OutOfBounds
      else case ActiveClientList srv ! i of
        None \<Rightarrow> duplicate_loop srv NewClient (Suc i) n
      | Some p \<Rightarrow>
          (case clients srv p of
             None \<Rightarrow> Inl UseAfterFree
           | Some a \<Rightarrow> if sa_data NewClient = sa_data a then Inr 1
                       else duplicate_loop srv NewClient (Suc i) n))"

definition IsDuplicateClientConnectionRequest :: "server \<Rightarrow> sockaddr \<Rightarrow> int res" where
  "IsDuplicateClientConnectionRequest srv NewClient =
     duplicate_loop srv NewClient 0 (nat (TransferCounter srv))"

text \<open>
  The condition of the listening loop. \<^verbatim>\<open>&&\<close> binds tighter than \<^verbatim>\<open>||\<close>, so only a write
  request is filtered.
\<close>

definition accepts :: "AppConfig \<Rightarrow> server \<Rightarrow> int \<Rightarrow> u16 \<Rightarrow> sockaddr \<Rightarrow> bool res" where
  "accepts sConf srv PktSize op client =
     (if \<not> PktSize > 0 then Inr False
      else if \<not> TransferCounter srv < ParallelTransfersMax sConf then Inr False
      else if op = op_value OP_RRQ then Inr True
      else if op = op_value OP_WRQ
      then bindR (IsDuplicateClientConnectionRequest srv client) (\<lambda>d. Inr (d = 0))
      else Inr False)"

text \<open>A new session for the thread of an accepted request.\<close>

definition spawn :: "sockaddr \<Rightarrow> server \<Rightarrow> server" where
  "spawn client srv =
     (let i = next_session srv
      in srv\<lparr>clients := (clients srv)(i \<mapsto> client), pcs := (pcs srv)(i \<mapsto> Started), next_session := Suc i\<rparr>)"

text \<open>The statements of thread \<open>i\<close> on the shared state, in the order of \<^verbatim>\<open>ThreadDirectComm\<close>.\<close>

definition set_entry :: "int \<Rightarrow> nat option \<Rightarrow> server \<Rightarrow> server res" where
  "set_entry k v srv =
     bindR (guardR OutOfBounds (0 \<le> k \<and> nat k < length (ActiveClientList srv)))
       (\<lambda>_. Inr (srv\<lparr>ActiveClientList := (ActiveClientList srv)[nat k := v]\<rparr>))"

definition goto :: "nat \<Rightarrow> thread_pc \<Rightarrow> server \<Rightarrow> server" where
  "goto i pc srv = srv\<lparr>pcs := (pcs srv)(i \<mapsto> pc)\<rparr>"

definition thread_action :: "nat \<Rightarrow> thread_pc \<Rightarrow> server \<Rightarrow> server res" where
  "thread_action i pc srv =
     (case pc of
        Started \<Rightarrow> Inr (goto i (Entering (TransferCounter srv)) srv)
      | Entering k \<Rightarrow> bindR (set_entry k (Some i) srv) (\<lambda>srv. Inr (goto i Stored srv))
      | Stored \<Rightarrow> Inr (goto i (Incrementing (TransferCounter srv)) srv)
      | Incrementing v \<Rightarrow> bindR (c_int (v + 1)) (\<lambda>n. Inr (goto i Running (srv\<lparr>TransferCounter := n\<rparr>)))
      | Running \<Rightarrow> Inr (goto i Finished srv)
      | Finished \<Rightarrow> Inr (goto i (Decrementing (TransferCounter srv)) srv)
      | Decrementing v \<Rightarrow> bindR (c_int (v - 1)) (\<lambda>n. Inr (goto i Decremented (srv\<lparr>TransferCounter := n\<rparr>)))
      | Decremented \<Rightarrow> Inr (goto i (Clearing (TransferCounter srv)) srv)
      | Clearing k \<Rightarrow> bindR (set_entry k None srv) (\<lambda>srv. Inr (goto i Cleared srv))
      | Cleared \<Rightarrow> Inr (srv\<lparr>clients := (clients srv)(i := None), pcs := (pcs srv)(i := None)\<rparr>))"

text \<open>The threads of the list \<open>is\<close> execute their next statement, one after the other.\<close>

fun statements :: "nat list \<Rightarrow> server \<Rightarrow> server res" where
  "statements [] srv = Inr srv"
| "statements (i # is) srv =
     (case pcs srv i of
        None \<Rightarrow> statements is srv
      | Some pc \<Rightarrow> bindR (thread_action i pc srv) (statements is))"

text \<open>
  The server with worker threads: the listening thread accepts a request, or a worker executes
  its next statement.
\<close>

inductive server_step :: "AppConfig \<Rightarrow> server \<Rightarrow> server \<Rightarrow> bool" for sConf where
  accept: "accepts sConf srv sz op client = Inr True \<Longrightarrow> server_step sConf srv (spawn client srv)"
| worker: "pcs srv i = Some pc \<Longrightarrow> thread_action i pc srv = Inr srv' \<Longrightarrow> server_step sConf srv srv'"

inductive_cases server_stepE: "server_step sConf srv srv'"

definition reachable :: "AppConfig \<Rightarrow> server \<Rightarrow> server \<Rightarrow> bool" where
  "reachable sConf = (server_step sConf)\<^sup>*\<^sup>*"

section \<open>One session in the listening thread\<close>

text \<open>
  \<^verbatim>\<open>ThreadDirectComm\<close> from its first statement to its last, for the session number \<open>i\<close>;
  \<open>None\<close> when the fuel of the loop is used up.
\<close>

definition ThreadDirectComm ::
    "os \<Rightarrow> AppConfig \<Rightarrow> nat \<Rightarrow> nat \<Rightarrow> server \<Rightarrow> world \<Rightarrow> session \<Rightarrow> (server \<times> world) option res" where
  "ThreadDirectComm os sConf fuel i srv w s =
     bindR (statements [i, i, i, i] srv) (\<lambda>srv.
     let (t, w) = sys_tick os w; s = s\<lparr>LastActivityStamp := ucast t\<rparr> in
     bindR (thread_loop os sConf fuel w s) (\<lambda>r.
     case r of
       None \<Rightarrow> Inr None
     | Some (w, s) \<Rightarrow>
         bindR (statements [i, i, i, i, i] srv) (\<lambda>srv.
         bindR (delete_TFTPSession s w) (\<lambda>w.
         bindR (statements [i] srv) (\<lambda>srv. Inr (Some (srv, w)))))))"

section \<open>The listening loop\<close>

text \<open>\<^verbatim>\<open>recvfrom\<close> on the listening socket, into the buffer and the address of the waiting session.\<close>

definition listen :: "os \<Rightarrow> int \<Rightarrow> world \<Rightarrow> session \<Rightarrow> (world \<times> session) res" where
  "listen os sockfd w s =
     (case LastRecvPacket s of
        None \<Rightarrow> Inl NullDereference
      | Some buf \<Rightarrow>
          let answer = os_recvfrom os (calls w) sockfd; w = next_call w in
          (case answer of
             None \<Rightarrow> Inr (w, s\<lparr>LastRecvPktSize := - 1\<rparr>)
           | Some (dgram, peer) \<Rightarrow>
               let data = take (nat (BlockSize s + TFTP_HEADER_SIZE)) dgram in
               bindR (guardR OutOfBounds (length data \<le> length buf)) (\<lambda>_.
               Inr (w, s\<lparr>LastRecvPacket := Some (store_at 0 data buf), Client := peer,
                        LastRecvPktSize := int (length data)\<rparr>))))"

text \<open>
  The state of the process: the listening socket, the shared state, the world, the session that
  waits for a request, and the sessions of the worker threads.
\<close>

record listener =
  sockfd :: int
  srv :: server
  l_world :: world
  waiting :: session
  handed :: "nat \<rightharpoonup> session"

definition fresh_session :: "os \<Rightarrow> AppConfig \<Rightarrow> world \<Rightarrow> session \<times> world" where
  "fresh_session os sConf w = new_TFTPSession os sConf (fresh_bytes os (calls w) 14) w"

text \<open>One turn of the listening thread; \<open>None\<close> when the session it ran in its own thread used up the fuel.\<close>

definition listen_turn :: "os \<Rightarrow> AppConfig \<Rightarrow> u16 \<Rightarrow> nat \<Rightarrow> listener \<Rightarrow> listener option res" where
  "listen_turn os sConf port fuel l =
     bindR (listen os (sockfd l) (l_world l) (waiting l)) (\<lambda>(w, s).
     bindR (packet_u16 s 0) (\<lambda>OP_code.
     bindR (accepts sConf (srv l) (LastRecvPktSize s) OP_code (Client s)) (\<lambda>ok.
     if \<not> ok then Inr (Some (l\<lparr>l_world := w, waiting := s\<rparr>))
     else let i = next_session (srv l); sv = spawn (Client s) (srv l) in
       if ReuseServerPortForComm sConf \<noteq> 0 then
         bindR (ThreadDirectComm os sConf fuel i sv w (s\<lparr>ServerSocket := sockfd l\<rparr>)) (\<lambda>r.
         case r of
           None \<Rightarrow> Inr None
         | Some (sv, w) \<Rightarrow>
             let (err, fd, w) = CreateUDPSocket os port w; (s', w) = fresh_session os sConf w
             in Inr (Some (l\<lparr>sockfd := fd, srv := sv, l_world := w, waiting := s'\<rparr>)))
       else let (s', w) = fresh_session os sConf w
            in Inr (Some (l\<lparr>srv := sv, l_world := w, waiting := s', handed := (handed l)(i \<mapsto> s)\<rparr>)))))"

text \<open>
  The next statement of worker \<open>i\<close> on its session and the shared state: a statement on the list, after
  the increment also the stamp of \<^verbatim>\<open>LastActivityStamp\<close>, a whole turn of its loop, or the deletion of
  the session. Nothing happens when there is no such worker.
\<close>

definition work :: "os \<Rightarrow> AppConfig \<Rightarrow> nat \<Rightarrow> listener \<Rightarrow> listener res" where
  "work os sConf i l =
     (case (pcs (srv l) i, handed l i) of
        (Some pc, Some s) \<Rightarrow>
          if pc = Running then
            bindR (thread_turn os sConf (l_world l) s) (\<lambda>(on, w, s).
            let l = l\<lparr>l_world := w, handed := (handed l)(i \<mapsto> s)\<rparr> in
            if on then Inr l else bindR (thread_action i Running (srv l)) (\<lambda>sv. Inr (l\<lparr>srv := sv\<rparr>)))
          else bindR (thread_action i pc (srv l)) (\<lambda>sv.
            let l = l\<lparr>srv := sv\<rparr> in
            case pc of
              Incrementing v \<Rightarrow>
                let (t, w) = sys_tick os (l_world l)
                in Inr (l\<lparr>l_world := w, handed := (handed l)(i \<mapsto> s\<lparr>LastActivityStamp := ucast t\<rparr>)\<rparr>)
            | Cleared \<Rightarrow> bindR (delete_TFTPSession s (l_world l)) (\<lambda>w.
                Inr (l\<lparr>l_world := w, handed := (handed l)(i := None)\<rparr>))
            | _ \<Rightarrow> Inr l)
      | _ \<Rightarrow> Inr l)"

text \<open>
  The process under a schedule: which thread moves next. \<^verbatim>\<open>ServerIsRunning\<close> is never cleared, so
  nothing after the listening loop is ever executed.
\<close>

datatype turn = Listen | Work nat

definition server_turn :: "os \<Rightarrow> AppConfig \<Rightarrow> u16 \<Rightarrow> nat \<Rightarrow> turn \<Rightarrow> listener \<Rightarrow> listener option res" where
  "server_turn os sConf port fuel t l =
     (case t of
        Listen \<Rightarrow> listen_turn os sConf port fuel l
      | Work i \<Rightarrow> bindR (work os sConf i l) (\<lambda>l. Inr (Some l)))"

fun listen_turns :: "os \<Rightarrow> AppConfig \<Rightarrow> u16 \<Rightarrow> nat \<Rightarrow> turn list \<Rightarrow> listener \<Rightarrow> listener option res" where
  "listen_turns os sConf port fuel [] l = Inr (Some l)"
| "listen_turns os sConf port fuel (t # ts) l =
     bindR (server_turn os sConf port fuel t l) (\<lambda>r.
     case r of None \<Rightarrow> Inr None | Some l \<Rightarrow> listen_turns os sConf port fuel ts l)"

text \<open>
  What a run of \<^verbatim>\<open>RunTFTPServer\<close> has come to: it returned at once because the list could not be
  allocated, a session used up its fuel, or it listens, in the state given.
\<close>

datatype run_end = Returned world | Busy | Listening listener

definition RunTFTPServer ::
    "os \<Rightarrow> AppConfig \<Rightarrow> u16 \<Rightarrow> (nat \<Rightarrow> nat option) \<Rightarrow> nat \<Rightarrow> turn list \<Rightarrow> world \<Rightarrow> run_end res" where
  "RunTFTPServer os sConf port garbage fuel ts w =
     (let (ok, w) = sys_malloc os w in
      if \<not> ok then Inr (Returned w)
      else let (err, fd, w) = CreateUDPSocket os port w; (s, w) = fresh_session os sConf w
           in bindR (listen_turns os sConf port fuel ts
                \<lparr>sockfd = fd, srv = server_start sConf garbage, l_world = w, waiting = s, handed = Map.empty\<rparr>) (\<lambda>r.
              Inr (case r of None \<Rightarrow> Busy | Some l \<Rightarrow> Listening l)))"

section \<open>What every statement of a worker does\<close>

text \<open>What each statement leaves when it is defined.\<close>

lemma thread_action_eq:
  "thread_action i Started sv = Inr sv' \<longleftrightarrow> sv' = goto i (Entering (TransferCounter sv)) sv"
  "thread_action i (Entering k) sv = Inr sv' \<longleftrightarrow> 0 \<le> k \<and> nat k < length (ActiveClientList sv) \<and>
     sv' = goto i Stored (sv\<lparr>ActiveClientList := (ActiveClientList sv)[nat k := Some i]\<rparr>)"
  "thread_action i Stored sv = Inr sv' \<longleftrightarrow> sv' = goto i (Incrementing (TransferCounter sv)) sv"
  "thread_action i (Incrementing v) sv = Inr sv' \<longleftrightarrow> int_ok (v + 1) \<and>
     sv' = goto i Running (sv\<lparr>TransferCounter := v + 1\<rparr>)"
  "thread_action i Running sv = Inr sv' \<longleftrightarrow> sv' = goto i Finished sv"
  "thread_action i Finished sv = Inr sv' \<longleftrightarrow> sv' = goto i (Decrementing (TransferCounter sv)) sv"
  "thread_action i (Decrementing v) sv = Inr sv' \<longleftrightarrow> int_ok (v - 1) \<and>
     sv' = goto i Decremented (sv\<lparr>TransferCounter := v - 1\<rparr>)"
  "thread_action i Decremented sv = Inr sv' \<longleftrightarrow> sv' = goto i (Clearing (TransferCounter sv)) sv"
  "thread_action i (Clearing k) sv = Inr sv' \<longleftrightarrow> 0 \<le> k \<and> nat k < length (ActiveClientList sv) \<and>
     sv' = goto i Cleared (sv\<lparr>ActiveClientList := (ActiveClientList sv)[nat k := None]\<rparr>)"
  "thread_action i Cleared sv = Inr sv' \<longleftrightarrow>
     sv' = sv\<lparr>clients := (clients sv)(i := None), pcs := (pcs sv)(i := None)\<rparr>"
  by (auto simp: thread_action_def set_entry_def bindR_eq_Inr c_int_eq_Inr)

lemma goto_simps [simp]:
  "ActiveClientList (goto i pc sv) = ActiveClientList sv" "TransferCounter (goto i pc sv) = TransferCounter sv"
  "clients (goto i pc sv) = clients sv" "pcs (goto i pc sv) = (pcs sv)(i \<mapsto> pc)"
  "next_session (goto i pc sv) = next_session sv"
  by (simp_all add: goto_def)

section \<open>The shape of the shared state\<close>

text \<open>
  What holds whatever the interleaving: a session exists exactly as long as its thread, and the
  list keeps its length.
\<close>

definition server_inv :: "AppConfig \<Rightarrow> server \<Rightarrow> bool" where
  "server_inv sConf sv \<longleftrightarrow> finite (dom (pcs sv)) \<and>
     length (ActiveClientList sv) = nat (ParallelTransfersMax sConf + 1) \<and>
     dom (clients sv) = dom (pcs sv) \<and> (\<forall>i \<in> dom (pcs sv). i < next_session sv)"

lemma server_start_inv: "server_inv sConf (server_start sConf garbage)"
  by (simp add: server_inv_def server_start_def)

lemma spawn_inv: "server_inv sConf sv \<Longrightarrow> server_inv sConf (spawn client sv)"
  by (auto simp: server_inv_def spawn_def Let_def less_SucI)

lemma thread_action_inv:
  assumes inv: "server_inv sConf sv" and pc: "pcs sv i = Some pc" and act: "thread_action i pc sv = Inr sv'"
  shows "server_inv sConf sv'"
proof -
  have i: "i \<in> dom (pcs sv)" using pc by blast
  then have "insert i (dom (pcs sv)) = dom (pcs sv)" "i < next_session sv"
    using inv by (auto simp: server_inv_def)
  then show ?thesis
    using inv act by (cases pc) (simp_all add: thread_action_eq server_inv_def del: fun_upd_apply)
qed

lemma server_step_inv: "server_step sConf sv sv' \<Longrightarrow> server_inv sConf sv \<Longrightarrow> server_inv sConf sv'"
  by (erule server_stepE) (auto intro: spawn_inv thread_action_inv)

lemma reachable_inv: "reachable sConf sv sv' \<Longrightarrow> server_inv sConf sv \<Longrightarrow> server_inv sConf sv'"
  unfolding reachable_def by (induction rule: rtranclp_induct) (auto intro: server_step_inv)

section \<open>The counter, when its updates do not overlap\<close>

text \<open>
  A worker that has read the counter and not yet written it is updating it. The runs in which no two
  workers do so at the same time are those a lock around \<^verbatim>\<open>TransferCounter++\<close> and \<^verbatim>\<open>--\<close> would leave.
\<close>

fun updating :: "thread_pc \<Rightarrow> bool" where
  "updating (Incrementing v) = True"
| "updating (Decrementing v) = True"
| "updating _ = False"

definition one_update :: "server \<Rightarrow> bool" where
  "one_update sv \<longleftrightarrow> (\<forall>i j a b. pcs sv i = Some a \<longrightarrow> updating a \<longrightarrow> pcs sv j = Some b \<longrightarrow> updating b \<longrightarrow> i = j)"

definition serial_reachable :: "AppConfig \<Rightarrow> server \<Rightarrow> server \<Rightarrow> bool" where
  "serial_reachable sConf = (\<lambda>a b. server_step sConf a b \<and> one_update b)\<^sup>*\<^sup>*"

text \<open>The sessions after their increment and before their decrement.\<close>

fun counts :: "thread_pc \<Rightarrow> bool" where
  "counts Running = True"
| "counts Finished = True"
| "counts (Decrementing v) = True"
| "counts _ = False"

definition in_loop :: "(nat \<rightharpoonup> thread_pc) \<Rightarrow> nat set" where
  "in_loop p = {i. \<exists>pc. p i = Some pc \<and> counts pc}"

lemma finite_in_loop: "finite (dom p) \<Longrightarrow> finite (in_loop p)"
  by (rule finite_subset [of _ "dom p"]) (auto simp: in_loop_def)

lemma in_loop_upd [simp]:
  "in_loop (p(i \<mapsto> pc)) = (if counts pc then insert i (in_loop p) else in_loop p - {i})"
  "in_loop (p(i := None)) = in_loop p - {i}"
  "in_loop Map.empty = {}"
  by (auto simp: in_loop_def)

definition counter_inv :: "server \<Rightarrow> bool" where
  "counter_inv sv \<longleftrightarrow> TransferCounter sv = int (card (in_loop (pcs sv))) \<and>
     (\<forall>i v. pcs sv i = Some (Incrementing v) \<or> pcs sv i = Some (Decrementing v) \<longrightarrow> v = TransferCounter sv)"

lemma counter_inv_goto:
  assumes "counter_inv sv" and "\<not> updating pc \<or> pc = Incrementing (TransferCounter sv) \<or> pc = Decrementing (TransferCounter sv)"
    and "counts pc \<longleftrightarrow> i \<in> in_loop (pcs sv)"
  shows "counter_inv (goto i pc sv)"
proof -
  have "in_loop ((pcs sv)(i \<mapsto> pc)) = in_loop (pcs sv)" using assms(3) by (auto simp: insert_absorb)
  then show ?thesis using assms(1,2) by (auto simp: counter_inv_def simp del: in_loop_upd)
qed

text \<open>The write of an update: the only worker updating writes the count of the sessions then in their loop.\<close>

lemma counter_inv_write:
  assumes inv: "counter_inv sv" and one: "one_update sv" and i: "pcs sv i = Some old" "updating old"
    and new: "\<not> updating new" and n: "n = int (card (in_loop ((pcs sv)(i \<mapsto> new))))"
  shows "counter_inv (goto i new (sv\<lparr>TransferCounter := n\<rparr>))"
proof -
  have "\<not> updating pc" if "pcs sv j = Some pc" "j \<noteq> i" for j pc
    using one i that unfolding one_update_def by blast
  then have "\<not> (j \<noteq> i \<and> (pcs sv j = Some (Incrementing v) \<or> pcs sv j = Some (Decrementing v)))" for j v by fastforce
  then show ?thesis using new n by (auto simp: counter_inv_def simp del: in_loop_upd)
qed

lemma counter_inv_step:
  assumes inv: "counter_inv sv" and sinv: "server_inv sConf sv" and one: "one_update sv"
    and pc: "pcs sv i = Some pc" and act: "thread_action i pc sv = Inr sv'"
  shows "counter_inv sv'"
proof -
  have loop: "i \<in> in_loop (pcs sv) \<longleftrightarrow> counts pc" using pc by (simp add: in_loop_def)
  have fin: "finite (in_loop (pcs sv))" using sinv by (simp add: server_inv_def finite_in_loop)
  have cnt: "TransferCounter sv = int (card (in_loop (pcs sv)))" using inv by (auto simp: counter_inv_def)
  have entry: "counter_inv (sv\<lparr>ActiveClientList := xs\<rparr>)" for xs using inv by (auto simp: counter_inv_def)
  show ?thesis
  proof (cases pc)
    case (Incrementing v)
    have "v = TransferCounter sv" using inv pc Incrementing unfolding counter_inv_def by blast
    then show ?thesis
      using act counter_inv_write [OF inv one pc, of Running "v + 1"] loop fin cnt Incrementing
      by (simp add: thread_action_eq)
  next
    case (Decrementing v)
    have v: "v = TransferCounter sv" using inv pc Decrementing unfolding counter_inv_def by blast
    have "card (in_loop (pcs sv)) = Suc (card (in_loop (pcs sv) - {i}))"
      by (rule card.remove) (use fin loop Decrementing in simp_all)
    then show ?thesis
      using act counter_inv_write [OF inv one pc, of Decremented "v - 1"] cnt v Decrementing
      by (simp add: thread_action_eq)
  next
    case Cleared
    then show ?thesis using act inv loop by (auto simp: thread_action_eq counter_inv_def)
  qed (use act loop inv entry in \<open>auto simp: thread_action_eq intro!: counter_inv_goto\<close>)
qed

lemma counter_inv_spawn:
  assumes "counter_inv sv" and "server_inv sConf sv" shows "counter_inv (spawn client sv)"
proof -
  have "next_session sv \<notin> in_loop (pcs sv)" using assms(2) by (force simp: server_inv_def in_loop_def)
  then show ?thesis using assms(1) by (auto simp: counter_inv_def spawn_def Let_def)
qed

lemma counter_inv_start: "counter_inv (server_start sConf garbage)" "one_update (server_start sConf garbage)"
  by (simp_all add: counter_inv_def server_start_def one_update_def)

lemma serial_reachable_inv:
  assumes "serial_reachable sConf sv sv'" and "counter_inv sv" and "server_inv sConf sv" and "one_update sv"
  shows "counter_inv sv' \<and> server_inv sConf sv' \<and> one_update sv'"
  using assms unfolding serial_reachable_def
proof (induction rule: rtranclp_induct)
  case (step b c)
  then have b: "counter_inv b" "server_inv sConf b" "one_update b" and s: "server_step sConf b c" "one_update c" by simp_all
  have "counter_inv c" using s(1) b by (cases rule: server_step.cases) (auto intro: counter_inv_spawn counter_inv_step)
  then show ?case using server_step_inv [OF s(1) b(2)] s(2) by blast
qed simp

end
