(* ===== verification/Races.thy ===== *)
theory Races
  imports Server
begin

text \<open>
  The list of active clients under its interleavings: the listening loop and its workers as a run of the
  step relation, what sessions in the listening thread leave behind, the files of a whole server, and
  the schedules that break the list and the counter.
\<close>

section \<open>Runs of the step relation\<close>

lemma reach_accept:
  "reachable sConf sv sv1 \<Longrightarrow> accepts sConf sv1 sz op c = Inr True \<Longrightarrow> reachable sConf sv (spawn c sv1)"
  unfolding reachable_def by (blast intro: rtranclp.rtrancl_into_rtrancl server_step.accept)

lemma reach_worker:
  "reachable sConf sv sv1 \<Longrightarrow> pcs sv1 i = Some pc \<Longrightarrow> thread_action i pc sv1 = Inr sv2 \<Longrightarrow> reachable sConf sv sv2"
  unfolding reachable_def by (blast intro: rtranclp.rtrancl_into_rtrancl server_step.worker)

lemma reachable_refl [simp]: "reachable sConf sv sv"
  by (simp add: reachable_def)

lemma reachable_trans: "reachable sConf a b \<Longrightarrow> reachable sConf b c \<Longrightarrow> reachable sConf a c"
  unfolding reachable_def by (rule rtranclp_trans)

lemma reach_statements: "statements is sv = Inr sv' \<Longrightarrow> reachable sConf sv sv'"
proof (induction "is" arbitrary: sv)
  case (Cons i "is")
  show ?case
  proof (cases "pcs sv i")
    case (Some pc)
    with Cons.prems obtain sv1 where 1: "thread_action i pc sv = Inr sv1" "statements is sv1 = Inr sv'"
      by (auto simp: bindR_eq_Inr)
    from reach_worker [OF reachable_refl Some 1(1)] Cons.IH [OF 1(2)] show ?thesis by (rule reachable_trans)
  qed (use Cons in simp)
qed simp

text \<open>A worker that is alone updates the counter alone.\<close>

lemma serial_alone:
  assumes "statements is sv = Inr sv'" and "dom (pcs sv) \<subseteq> {i}" shows "serial_reachable sConf sv sv'"
  using assms
proof (induction "is" arbitrary: sv)
  case Nil
  then show ?case by (simp add: serial_reachable_def)
next
  case (Cons j "is")
  show ?case
  proof (cases "pcs sv j")
    case (Some pc)
    with Cons.prems obtain sv1 where 1: "thread_action j pc sv = Inr sv1" "statements is sv1 = Inr sv'"
      by (auto simp: bindR_eq_Inr)
    have "j = i" using Some Cons.prems(2) by auto
    then have d: "dom (pcs sv1) \<subseteq> {i}"
      using 1(1) Cons.prems(2) by (cases pc) (auto simp: thread_action_eq)
    have "a = i" if "pcs sv1 a = Some x" for a x using d that by blast
    then have "one_update sv1" unfolding one_update_def by blast
    then have "server_step sConf sv sv1 \<and> one_update sv1" using server_step.worker [OF Some 1(1)] by blast
    with Cons.IH [OF 1(2) d] show ?thesis
      unfolding serial_reachable_def by (rule_tac converse_rtranclp_into_rtranclp)
  qed (use Cons in simp)
qed

text \<open>A worker that enters its loop without being disturbed, and one that leaves it.\<close>

lemma statements_enter:
  assumes "pcs sv i = Some Started"
  shows "statements [i, i, i, i] sv = Inr sv' \<longleftrightarrow>
    0 \<le> TransferCounter sv \<and> nat (TransferCounter sv) < length (ActiveClientList sv) \<and>
    int_ok (TransferCounter sv + 1) \<and>
    sv' = sv\<lparr>ActiveClientList := (ActiveClientList sv)[nat (TransferCounter sv) := Some i],
      TransferCounter := TransferCounter sv + 1, pcs := (pcs sv)(i \<mapsto> Running)\<rparr>"
  using assms by (auto simp: bindR_eq_Inr thread_action_eq goto_def)

lemma statements_leave:
  assumes "pcs sv i = Some Running"
  shows "statements [i, i, i, i, i] sv = Inr sv' \<longleftrightarrow>
    0 \<le> TransferCounter sv - 1 \<and> nat (TransferCounter sv - 1) < length (ActiveClientList sv) \<and>
    int_ok (TransferCounter sv - 1) \<and>
    sv' = sv\<lparr>ActiveClientList := (ActiveClientList sv)[nat (TransferCounter sv - 1) := None],
      TransferCounter := TransferCounter sv - 1, pcs := (pcs sv)(i \<mapsto> Cleared)\<rparr>"
  using assms by (auto simp: bindR_eq_Inr thread_action_eq goto_def)

section \<open>Sessions in the listening thread\<close>

text \<open>A session that runs alone leaves the shared state as it found it, but for its entry of the list.\<close>

lemma ThreadDirectComm_statements:
  assumes "ThreadDirectComm os sConf fuel i sv w s = Inr (Some (sv', w'))"
  obtains sv1 sv2 w1 s1 w2 s2 where "statements [i, i, i, i] sv = Inr sv1" "statements [i, i, i, i, i] sv1 = Inr sv2"
    "statements [i] sv2 = Inr sv'" "disk w1 = disk w" "s1 = s\<lparr>LastActivityStamp := LastActivityStamp s1\<rparr>"
    "thread_loop os sConf fuel w1 s1 = Inr (Some (w2, s2))" "delete_TFTPSession s2 w2 = Inr w'"
proof -
  let ?s = "s\<lparr>LastActivityStamp := ucast (fst (sys_tick os w))\<rparr>"
  from assms obtain sv1 sv2 w2 s2 where "statements [i, i, i, i] sv = Inr sv1" "statements [i, i, i, i, i] sv1 = Inr sv2"
    "statements [i] sv2 = Inr sv'" "thread_loop os sConf fuel (next_call w) ?s = Inr (Some (w2, s2))"
    "delete_TFTPSession s2 w2 = Inr w'"
    unfolding ThreadDirectComm_def sys_tick_def Let_def
    by (auto simp: bindR_eq_Inr split: option.splits simp del: statements.simps)
  then show thesis by (intro that [of sv1 sv2 "next_call w" ?s w2 s2]) simp_all
qed

lemma ThreadDirectComm_restores:
  assumes "ThreadDirectComm os sConf fuel i sv w s = Inr (Some (sv', w'))" and pc: "pcs sv i = Some Started"
  shows "sv' = sv\<lparr>ActiveClientList := (ActiveClientList sv)[nat (TransferCounter sv) := None],
    clients := (clients sv)(i := None), pcs := (pcs sv)(i := None)\<rparr> \<and>
    0 \<le> TransferCounter sv \<and> nat (TransferCounter sv) < length (ActiveClientList sv)"
proof -
  obtain sv1 sv2 where 1: "statements [i, i, i, i] sv = Inr sv1" and 2: "statements [i, i, i, i, i] sv1 = Inr sv2"
    and 3: "statements [i] sv2 = Inr sv'" by (rule ThreadDirectComm_statements [OF assms(1)])
  note e = 1 [unfolded statements_enter [OF pc]]
  from e have "pcs sv1 i = Some Running" by simp
  note l = 2 [unfolded statements_leave [OF this]]
  from l have "pcs sv2 i = Some Cleared" by simp
  then show ?thesis using 3 e l by (simp add: bindR_eq_Inr thread_action_eq)
qed

lemma ThreadDirectComm_reachable:
  assumes "ThreadDirectComm os sConf fuel i sv w s = Inr (Some (sv', w'))" shows "reachable sConf sv sv'"
  by (rule ThreadDirectComm_statements [OF assms]) (blast intro: reachable_trans reach_statements)

text \<open>One turn of the listening thread: what it did to the shared state and to the sessions.\<close>

lemma listen_turn_cases:
  assumes "listen_turn os sConf port fuel l = Inr (Some l')"
  obtains (ignored) w s where "srv l' = srv l" "handed l' = handed l" "l_world l' = w" "waiting l' = s"
      "listen os (sockfd l) (l_world l) (waiting l) = Inr (w, s)"
  | (own_thread) sz op w s w1 w2 where "accepts sConf (srv l) sz op (Client s) = Inr True"
      "ReuseServerPortForComm sConf \<noteq> 0" "listen os (sockfd l) (l_world l) (waiting l) = Inr (w, s)"
      "ThreadDirectComm os sConf fuel (next_session (srv l)) (spawn (Client s) (srv l)) w
         (s\<lparr>ServerSocket := sockfd l\<rparr>) = Inr (Some (srv l', w1))"
      "handed l' = handed l" "disk w2 = disk w1" "fresh_session os sConf w2 = (waiting l', l_world l')"
  | (new_thread) sz op w s where "accepts sConf (srv l) sz op (Client s) = Inr True"
      "ReuseServerPortForComm sConf = 0" "listen os (sockfd l) (l_world l) (waiting l) = Inr (w, s)"
      "srv l' = spawn (Client s) (srv l)" "handed l' = (handed l)(next_session (srv l) \<mapsto> s)"
      "fresh_session os sConf w = (waiting l', l_world l')"
proof -
  from assms obtain w s op ok where li: "listen os (sockfd l) (l_world l) (waiting l) = Inr (w, s)"
    and op: "packet_u16 s 0 = Inr op" and ok: "accepts sConf (srv l) (LastRecvPktSize s) op (Client s) = Inr ok"
    unfolding listen_turn_def by (auto simp: bindR_eq_Inr)
  show thesis
  proof (cases ok)
    case False
    with assms li op ok show thesis by (intro ignored) (auto simp: listen_turn_def)
  next
    case ok': True
    show thesis
    proof (cases "ReuseServerPortForComm sConf = 0")
      case True
      obtain s' w' where fs: "fresh_session os sConf w = (s', w')" by fastforce
      with assms li op ok ok' True have "srv l' = spawn (Client s) (srv l)"
        "handed l' = (handed l)(next_session (srv l) \<mapsto> s)" "waiting l' = s'" "l_world l' = w'"
        by (auto simp: listen_turn_def Let_def)
      with ok ok' True li fs show thesis by (intro new_thread) simp_all
    next
      case False
      let ?run = "ThreadDirectComm os sConf fuel (next_session (srv l)) (spawn (Client s) (srv l)) w (s\<lparr>ServerSocket := sockfd l\<rparr>)"
      have "\<exists>sv w1. ?run = Inr (Some (sv, w1))"
      proof (cases ?run)
        case (Inr r)
        with assms li op ok ok' False show ?thesis by (cases r) (auto simp: listen_turn_def Let_def)
      qed (use assms li op ok ok' False in \<open>simp add: listen_turn_def Let_def\<close>)
      then obtain sv w1 where run: "?run = Inr (Some (sv, w1))" by blast
      obtain err fd w2 s' w3 where mk: "CreateUDPSocket os port w1 = (err, fd, w2)" and fs: "fresh_session os sConf w2 = (s', w3)"
        by (metis prod_cases3 surj_pair)
      have "disk w2 = disk w1"
        using mk by (auto simp: CreateUDPSocket_def SetSocketTimeOut_def sys_defs Let_def split: if_splits)
      moreover from assms li op ok ok' False run mk fs
      have "srv l' = sv" "handed l' = handed l" "waiting l' = s'" "l_world l' = w3" by (auto simp: listen_turn_def Let_def)
      ultimately show thesis using ok ok' False run li fs by (intro own_thread) simp_all
    qed
  qed
qed

text \<open>One step of a worker: a turn of its loop, or a statement on the shared state.\<close>

lemma work_cases:
  assumes "work os sConf i l = Inr l'"
  obtains (nobody) "pcs (srv l) i = None \<or> handed l i = None" "l' = l"
  | (turn) s go w s' where "pcs (srv l) i = Some Running" "handed l i = Some s"
      "thread_turn os sConf (l_world l) s = Inr (go, w, s')" "l_world l' = w" "handed l' = (handed l)(i \<mapsto> s')"
      "if go then srv l' = srv l else thread_action i Running (srv l) = Inr (srv l')" "waiting l' = waiting l"
  | (statement) pc s s' where "pcs (srv l) i = Some pc" "handed l i = Some s" "pc \<noteq> Running" "pc \<noteq> Cleared"
      "thread_action i pc (srv l) = Inr (srv l')" "handed l' = (handed l)(i \<mapsto> s')"
      "\<exists>t. s' = s\<lparr>LastActivityStamp := t\<rparr>" "disk (l_world l') = disk (l_world l)" "waiting l' = waiting l"
  | (deleted) s where "pcs (srv l) i = Some Cleared" "handed l i = Some s"
      "thread_action i Cleared (srv l) = Inr (srv l')" "delete_TFTPSession s (l_world l) = Inr (l_world l')"
      "handed l' = (handed l)(i := None)" "waiting l' = waiting l"
proof (cases "pcs (srv l) i = None \<or> handed l i = None")
  case True
  with assms show thesis by (intro nobody) (auto simp: work_def split: option.splits)
next
  case False
  then obtain pc s where p: "pcs (srv l) i = Some pc" and h: "handed l i = Some s" by auto
  have same: "(handed l)(i \<mapsto> s) = handed l" "s = s\<lparr>LastActivityStamp := LastActivityStamp s\<rparr>" using h by auto
  consider "pc = Running" | "pc = Cleared" | v where "pc = Incrementing v" | "pc \<noteq> Running" "pc \<noteq> Cleared" "\<forall>v. pc \<noteq> Incrementing v"
    by blast
  then show thesis
  proof cases
    case 1
    with assms p h obtain go w s' where t: "thread_turn os sConf (l_world l) s = Inr (go, w, s')"
      by (auto simp: work_def bindR_eq_Inr)
    with assms p h 1 show thesis by (intro turn [OF _ h t]) (auto simp: work_def bindR_eq_Inr Let_def split: if_splits)
  next
    case 2
    with assms p h show thesis by (intro deleted [OF _ h]) (auto simp: work_def bindR_eq_Inr Let_def)
  next
    case 3
    with assms p h show thesis
      by (intro statement [OF p h, of "s\<lparr>LastActivityStamp := ucast (fst (sys_tick os (l_world l)))\<rparr>"])
        (auto simp: work_def bindR_eq_Inr Let_def sys_tick_def)
  next
    case 4
    with assms p h obtain sv where "thread_action i pc (srv l) = Inr sv" "l' = l\<lparr>srv := sv\<rparr>"
      by (cases pc) (auto simp: work_def bindR_eq_Inr Let_def)
    with 4 p h same show thesis by (intro statement [OF p h, of s]) (auto intro: exI [of _ "LastActivityStamp s"])
  qed
qed

text \<open>
  The process refines the step relation: whatever the schedule, the states of the list it passes
  through are reachable, so what holds of every reachable state holds of the program.
\<close>

lemma server_turn_reachable:
  assumes "server_turn os sConf port fuel t l = Inr (Some l')" shows "reachable sConf (srv l) (srv l')"
proof (cases t)
  case Listen
  with assms have "listen_turn os sConf port fuel l = Inr (Some l')" by (simp add: server_turn_def)
  then show ?thesis
  proof (cases rule: listen_turn_cases)
    case own_thread
    show ?thesis
      by (rule reachable_trans [OF reach_accept [OF reachable_refl own_thread(1)] ThreadDirectComm_reachable [OF own_thread(4)]])
  next
    case new_thread
    then show ?thesis using reach_accept [OF reachable_refl new_thread(1)] by simp
  qed simp
next
  case (Work i)
  with assms have "work os sConf i l = Inr l'" by (simp add: server_turn_def bindR_eq_Inr)
  then show ?thesis
  proof (cases rule: work_cases)
    case (turn s go w s')
    then show ?thesis by (cases go) (auto intro: reach_worker [OF reachable_refl turn(1)])
  qed (auto intro: reach_worker [OF reachable_refl])
qed

lemma listen_turns_Cons:
  assumes "listen_turns os sConf port fuel (t # ts) l = Inr (Some l')"
  obtains l1 where "server_turn os sConf port fuel t l = Inr (Some l1)" "listen_turns os sConf port fuel ts l1 = Inr (Some l')"
  using assms by (auto simp: bindR_eq_Inr split: option.splits)

lemma listen_turns_reachable:
  assumes "listen_turns os sConf port fuel ts l = Inr (Some l')" shows "reachable sConf (srv l) (srv l')"
  using assms
proof (induction ts arbitrary: l)
  case (Cons t ts)
  from Cons.prems obtain l1 where "server_turn os sConf port fuel t l = Inr (Some l1)" "listen_turns os sConf port fuel ts l1 = Inr (Some l')"
    by (rule listen_turns_Cons)
  then show ?case using Cons.IH server_turn_reachable reachable_trans by blast
qed simp

text \<open>The shared state when no session exists.\<close>

definition quiescent :: "AppConfig \<Rightarrow> server \<Rightarrow> bool" where
  "quiescent sConf sv \<longleftrightarrow> TransferCounter sv = 0 \<and> pcs sv = Map.empty \<and> clients sv = Map.empty \<and>
     length (ActiveClientList sv) = nat (ParallelTransfersMax sConf + 1)"

text \<open>
  C23. With \<^verbatim>\<open>UseServerPortForComm\<close> the sessions run in the listening thread one after the other, and
  before every request the list is as at the start: the counter is 0, no session exists and none was
  handed to a thread, so the schedules of C19, C20 and C22 cannot happen.
\<close>

theorem single_thread_list_clean:
  assumes "ReuseServerPortForComm sConf \<noteq> 0" and "quiescent sConf (srv l)"
    and "listen_turns os sConf port fuel n l = Inr (Some l')"
  shows "quiescent sConf (srv l') \<and> handed l' = handed l"
  using assms(2,3)
proof (induction n arbitrary: l)
  case (Cons t ts)
  from Cons.prems(2) obtain l1 where l1: "server_turn os sConf port fuel t l = Inr (Some l1)"
    "listen_turns os sConf port fuel ts l1 = Inr (Some l')" by (rule listen_turns_Cons)
  have "quiescent sConf (srv l1) \<and> handed l1 = handed l"
  proof (cases t)
    case Listen
    with l1(1) have "listen_turn os sConf port fuel l = Inr (Some l1)" by (simp add: server_turn_def)
    then show ?thesis
    proof (cases rule: listen_turn_cases)
      case (own_thread sz op w s w1 w2)
      have "pcs (spawn (Client s) (srv l)) (next_session (srv l)) = Some Started" by (simp add: spawn_def Let_def)
      from ThreadDirectComm_restores [OF own_thread(4) this] own_thread(5) Cons.prems(1) show ?thesis
        by (auto simp: quiescent_def spawn_def Let_def)
    qed (use Cons.prems(1) assms(1) in simp_all)
  next
    case (Work i)
    have "pcs (srv l) i = None" using Cons.prems(1) by (simp add: quiescent_def)
    then have "l1 = l" using l1(1) Work by (auto simp: server_turn_def work_def bindR_eq_Inr)
    then show ?thesis using Cons.prems(1) by simp
  qed
  then show ?case using Cons.IH [OF _ l1(2)] by simp
qed simp

section \<open>The files of a whole server\<close>

text \<open>
  What holds of the process under any schedule: every session of a worker keeps its promises, a
  session exists for every thread, the session that waits for a request has no file, and of the disk
  \<open>d0\<close> only files that may be uploaded have changed.
\<close>

definition process_ok :: "os \<Rightarrow> AppConfig \<Rightarrow> disk \<Rightarrow> listener \<Rightarrow> bool" where
  "process_ok os sConf d0 l \<longleftrightarrow> server_inv sConf (srv l) \<and> dom (handed l) = dom (pcs (srv l)) \<and>
     disk_safe sConf d0 (disk (l_world l)) \<and>
     (\<forall>i s. handed l i = Some s \<longrightarrow> session_inv s \<and> file_ok sConf s) \<and>
     hFile (waiting l) = None \<and> (LastRecvPacket (waiting l) \<noteq> None \<longrightarrow> session_inv (waiting l))"

lemma fresh_session_ok:
  assumes "fresh_session os sConf w = (s, w')"
  shows "disk w' = disk w" and "hFile s = None" and "LastRecvPacket s \<noteq> None \<Longrightarrow> session_inv s"
  using assms
  by (auto simp: fresh_session_def new_TFTPSession_def session_inv_defs tftp_consts sys_malloc_bytes_def split: if_splits)

lemma listen_frame:
  assumes "listen os fd w s = Inr (w', s')"
  shows "w' = next_call w \<and> (\<exists>old buf c n. LastRecvPacket s = Some old \<and> length buf = length old \<and>
    s' = s\<lparr>LastRecvPacket := Some buf, Client := c, LastRecvPktSize := n\<rparr>)"
proof -
  obtain old where old: "LastRecvPacket s = Some old" using assms by (auto simp: listen_def split: option.splits)
  show ?thesis
  proof (cases "os_recvfrom os (calls w) fd")
    case None
    with assms old have "w' = next_call w" "s' = s\<lparr>LastRecvPktSize := - 1\<rparr>" by (simp_all add: listen_def)
    then have "s' = s\<lparr>LastRecvPacket := Some old, Client := Client s, LastRecvPktSize := - 1\<rparr>" using old by simp
    with \<open>w' = next_call w\<close> old show ?thesis by blast
  next
    case (Some x)
    obtain dgram peer where x: "x = (dgram, peer)" by fastforce
    define data where "data = take (nat (BlockSize s + TFTP_HEADER_SIZE)) dgram"
    from assms old Some x have "length data \<le> length old" "w' = next_call w"
      "s' = s\<lparr>LastRecvPacket := Some (store_at 0 data old), Client := peer, LastRecvPktSize := int (length data)\<rparr>"
      by (auto simp: listen_def Let_def bindR_eq_Inr data_def)
    moreover from this(1) have "length (store_at 0 data old) = length old" by simp
    ultimately show ?thesis using old by blast
  qed
qed

lemma listen_ok:
  assumes "listen os fd w s = Inr (w', s')"
  shows "LastRecvPacket s \<noteq> None" and "disk w' = disk w" and "hFile s' = hFile s" and "session_inv s' = session_inv s"
    and "LastRecvPacket s' \<noteq> None"
proof -
  from listen_frame [OF assms] obtain old buf c n where w': "w' = next_call w" and old: "LastRecvPacket s = Some old"
    and len: "length buf = length old" and s': "s' = s\<lparr>LastRecvPacket := Some buf, Client := c, LastRecvPktSize := n\<rparr>" by blast
  have "buffer_ok s' = buffer_ok s" using old len by (simp add: s' buffer_ok_def)
  then show "session_inv s' = session_inv s" by (simp add: session_inv_def s' ranges_ok_def window_ok_def download_ok_def)
qed (use listen_frame [OF assms] in auto)

lemma session_inv_socket [simp]: "session_inv (s\<lparr>ServerSocket := x\<rparr>) = session_inv s"
  by (simp add: session_inv_defs)

lemma delete_disk: "delete_TFTPSession s w = Inr w' \<Longrightarrow> disk w' = disk w"
  by (auto simp: delete_TFTPSession_def bindR_eq_Inr split: if_splits)

lemma no_file_ok: "hFile s = None \<Longrightarrow> file_ok sConf s"
  by (simp add: file_ok_def)

lemma thread_loop_P:
  assumes "thread_loop os sConf fuel w s = Inr (Some (w', s'))" and "thread_P os sConf d0 w s"
  shows "thread_P os sConf d0 w' s'"
  using thread.reached_P thread_loop_reached [OF assms(1) turn_reached.start] assms(2) by blast

lemma ThreadDirectComm_safe:
  assumes run: "ThreadDirectComm os sConf fuel i sv w s = Inr (Some (sv', w'))" and P: "thread_P os sConf d0 w s"
  shows "disk_safe sConf d0 (disk w')"
proof -
  obtain w1 s1 w2 s2 where w1: "disk w1 = disk w" and s1: "s1 = s\<lparr>LastActivityStamp := LastActivityStamp s1\<rparr>"
    and loop: "thread_loop os sConf fuel w1 s1 = Inr (Some (w2, s2))" and del: "delete_TFTPSession s2 w2 = Inr w'"
    by (rule ThreadDirectComm_statements [OF run])
  have "session_inv s1 = session_inv s" "file_ok sConf s1 = file_ok sConf s"
    by (subst s1, simp add: session_inv_defs file_ok_def)+
  then have "thread_P os sConf d0 w1 s1" using P w1 by (simp add: thread_P_def)
  from thread_loop_P [OF loop this] delete_disk [OF del] show ?thesis by (simp add: thread_P_def)
qed

lemma listen_turn_ok:
  assumes run: "listen_turn os sConf port fuel l = Inr (Some l')" and ok: "process_ok os sConf d0 l"
    and c: "conf_ok sConf" "realloc_ok os"
  shows "process_ok os sConf d0 l'"
  using run
proof (cases rule: listen_turn_cases)
  case (ignored w s)
  with ok listen_ok [OF ignored(5)] show ?thesis by (simp add: process_ok_def)
next
  case (own_thread sz op w s w1 w2)
  note li = listen_ok [OF own_thread(3)] and fs = fresh_session_ok [OF own_thread(7)]
  let ?i = "next_session (srv l)" and ?s = "s\<lparr>ServerSocket := sockfd l\<rparr>"
  have new: "?i \<notin> dom (pcs (srv l))" using ok by (auto simp: process_ok_def server_inv_def)
  have "pcs (spawn (Client s) (srv l)) ?i = Some Started" by (simp add: spawn_def Let_def)
  from ThreadDirectComm_restores [OF own_thread(4) this] have srv': "pcs (srv l') = (pcs (srv l))(?i := None)"
    by (simp add: spawn_def Let_def)
  have "reachable sConf (srv l) (srv l')"
    using server_turn_reachable [of os sConf port fuel Listen] run by (simp add: server_turn_def)
  then have inv: "server_inv sConf (srv l')" using reachable_inv ok by (simp add: process_ok_def)
  have "file_ok sConf ?s" using ok li(3) by (intro no_file_ok) (simp add: process_ok_def)
  moreover have "session_inv ?s" using ok li(1,4) by (simp add: process_ok_def)
  ultimately have "thread_P os sConf d0 w ?s" using ok li(2) c by (simp add: process_ok_def thread_P_def)
  from ThreadDirectComm_safe [OF own_thread(4) this] own_thread(5,6) fs inv ok new srv' show ?thesis
    by (auto simp: process_ok_def)
next
  case (new_thread sz op w s)
  note li = listen_ok [OF new_thread(3)] and fs = fresh_session_ok [OF new_thread(6)]
  have s: "file_ok sConf s" "session_inv s" using ok li by (auto simp: process_ok_def intro: no_file_ok)
  have "server_inv sConf (srv l')" using spawn_inv ok new_thread(4) by (simp add: process_ok_def)
  then show ?thesis using new_thread(4,5) li(2) fs s ok by (auto simp: process_ok_def spawn_def Let_def)
qed

lemma work_ok:
  assumes run: "work os sConf i l = Inr l'" and ok: "process_ok os sConf d0 l"
    and c: "conf_ok sConf" "realloc_ok os"
  shows "process_ok os sConf d0 l'"
proof -
  note o = ok [unfolded process_ok_def]
  have "server_turn os sConf 0 0 (Work i) l = Inr (Some l')" using run by (simp add: server_turn_def)
  from reachable_inv [OF server_turn_reachable [OF this]] o have inv: "server_inv sConf (srv l')" by blast
  from run show ?thesis
  proof (cases rule: work_cases)
    case nobody
    then show ?thesis using ok by simp
  next
    case (turn s go w s')
    have "thread_P os sConf d0 (l_world l) s" using o turn(2) c by (simp add: thread_P_def)
    from thread_turn_P [OF this turn(3)] have P: "thread_P os sConf d0 w s'" .
    have "dom (pcs (srv l')) = dom (pcs (srv l))" using turn(1,6) by (auto simp: thread_action_eq split: if_splits)
    with turn inv P o show ?thesis by (auto simp: process_ok_def thread_P_def)
  next
    case (statement pc s s')
    have "session_inv s' = session_inv s" "file_ok sConf s' = file_ok sConf s"
      using statement(7) by (auto simp: session_inv_defs file_ok_def)
    moreover have "dom (pcs (srv l')) = dom (pcs (srv l))"
      using statement(1,3-5) by (cases pc) (auto simp: thread_action_eq)
    ultimately show ?thesis using statement inv o by (auto simp: process_ok_def)
  next
    case (deleted s)
    have "dom (pcs (srv l')) = dom (pcs (srv l)) - {i}" using deleted(3) by (auto simp: thread_action_eq)
    with deleted inv o delete_disk [OF deleted(4)] show ?thesis by (auto simp: process_ok_def)
  qed
qed

lemma listen_turns_ok:
  assumes "listen_turns os sConf port fuel ts l = Inr (Some l')" and "process_ok os sConf d0 l"
    and "conf_ok sConf" and "realloc_ok os"
  shows "process_ok os sConf d0 l'"
  using assms(1,2)
proof (induction ts arbitrary: l)
  case (Cons t ts)
  from Cons.prems(1) obtain l1 where l1: "server_turn os sConf port fuel t l = Inr (Some l1)"
    "listen_turns os sConf port fuel ts l1 = Inr (Some l')" by (rule listen_turns_Cons)
  have "process_ok os sConf d0 l1"
  proof (cases t)
    case Listen
    with l1(1) listen_turn_ok Cons.prems(2) assms(3,4) show ?thesis by (simp add: server_turn_def)
  next
    case (Work i)
    with l1(1) have "work os sConf i l = Inr l1" by (simp add: server_turn_def bindR_eq_Inr)
    with work_ok Cons.prems(2) assms(3,4) show ?thesis by blast
  qed
  then show ?case using Cons.IH [OF l1(2)] by blast
qed simp

text \<open>
  C34. The whole server, under any schedule of the listening thread and its workers, with any
  clients, and with sessions in their own threads or in the listening thread: as long as nothing undefined
  has happened (C13 to C15, C18 to C20 and C22 say when it does), the only files that have changed since its
  start are those that may be uploaded, every session of a thread keeps its memory invariant and has no
  file open but one its operation may touch, and a session exists for every thread.
\<close>

theorem server_keeps_files:
  assumes "RunTFTPServer os sConf port garbage fuel ts w = Inr (Listening l)" and "conf_ok sConf" and "realloc_ok os"
  shows "(\<forall>n. disk (l_world l) n \<noteq> disk w n \<longrightarrow> may_upload sConf n) \<and>
    (\<forall>i s. handed l i = Some s \<longrightarrow> session_inv s \<and> file_ok sConf s) \<and> dom (handed l) = dom (pcs (srv l))"
proof -
  from assms(1) obtain err fd w1 s w2 l0 where mk: "CreateUDPSocket os port (next_call w) = (err, fd, w1)"
    and fs: "fresh_session os sConf w1 = (s, w2)"
    and run: "listen_turns os sConf port fuel ts l0 = Inr (Some l)"
    and l0: "l0 = \<lparr>sockfd = fd, srv = server_start sConf garbage, l_world = w2, waiting = s, handed = Map.empty\<rparr>"
    by (auto simp: RunTFTPServer_def sys_malloc_def Let_def bindR_eq_Inr split: if_splits prod.splits option.splits)
  have "disk w1 = disk w"
    using mk by (auto simp: CreateUDPSocket_def SetSocketTimeOut_def sys_defs Let_def split: if_splits)
  then have "process_ok os sConf (disk w) l0"
    using fresh_session_ok [OF fs] server_start_inv by (simp add: process_ok_def l0 disk_safe_def server_start_def)
  from listen_turns_ok [OF run this assms(2,3)] show ?thesis by (simp add: process_ok_def disk_safe_def)
qed

section \<open>The filter of duplicates\<close>

text \<open>A read request is taken whenever the counter allows one more.\<close>

lemma accepts_RRQ:
  "0 < sz \<Longrightarrow> TransferCounter sv < ParallelTransfersMax sConf \<Longrightarrow> accepts sConf sv sz (op_value OP_RRQ) c = Inr True"
  by (simp add: accepts_def)

text \<open>The loop over the list, where every entry below the counter points to a session that exists.\<close>

definition entry_peer :: "server \<Rightarrow> nat \<Rightarrow> bytes option" where
  "entry_peer sv j = (if j < length (ActiveClientList sv)
     then Option.bind (ActiveClientList sv ! j) (\<lambda>p. map_option sa_data (clients sv p)) else None)"

lemma duplicate_loop_eq:
  assumes "\<forall>j. i \<le> j \<and> j < i + n \<longrightarrow> entry_peer sv j \<noteq> None"
  shows "duplicate_loop sv c i n =
    Inr (if \<exists>j. i \<le> j \<and> j < i + n \<and> entry_peer sv j = Some (sa_data c) then 1 else 0)"
  using assms
proof (induction n arbitrary: i)
  case (Suc n)
  from Suc.prems have "entry_peer sv i \<noteq> None" by simp
  then obtain p a where e: "i < length (ActiveClientList sv)" "ActiveClientList sv ! i = Some p" "clients sv p = Some a"
    by (auto simp: entry_peer_def bind_eq_Some_conv split: if_splits)
  then have peer: "entry_peer sv i = Some (sa_data a)" by (simp add: entry_peer_def)
  have ih: "duplicate_loop sv c (Suc i) n =
      Inr (if \<exists>j. Suc i \<le> j \<and> j < Suc i + n \<and> entry_peer sv j = Some (sa_data c) then 1 else 0)"
    by (rule Suc.IH) (use Suc.prems in auto)
  have ex: "(\<exists>j. i \<le> j \<and> j < i + Suc n \<and> P j) \<longleftrightarrow> P i \<or> (\<exists>j. Suc i \<le> j \<and> j < Suc i + n \<and> P j)" for P
    by (metis Suc_leD add_Suc_right add_Suc_shift le_add1 less_add_Suc1 le_eq_less_or_eq Suc_leI)
  show ?case
    unfolding ex by (cases "sa_data c = sa_data a") (use e ih peer in auto)
qed simp

text \<open>
  C24. A write request is refused exactly when an address in the list is the client's; a read
  request of the same client is always taken, because \<^verbatim>\<open>&&\<close> binds tighter than \<^verbatim>\<open>||\<close>.
\<close>

theorem duplicates_filtered_for_writes_only:
  assumes "0 < sz" and "TransferCounter sv < ParallelTransfersMax sConf"
    and "\<forall>j < nat (TransferCounter sv). entry_peer sv j \<noteq> None"
  shows "accepts sConf sv sz (op_value OP_WRQ) c =
      Inr (\<not> (\<exists>j < nat (TransferCounter sv). entry_peer sv j = Some (sa_data c))) \<and>
    accepts sConf sv sz (op_value OP_RRQ) c = Inr True"
  using assms duplicate_loop_eq [of 0 "nat (TransferCounter sv)" sv c]
  by (simp add: accepts_def IsDuplicateClientConnectionRequest_def)

section \<open>Schedules that break the list and the counter\<close>

text \<open>
  The list after \<open>n\<close> requests whose workers have not started, and after the first \<open>k\<close> of them
  have entered their loops, one after the other.
\<close>

fun spawned :: "sockaddr \<Rightarrow> nat \<Rightarrow> server \<Rightarrow> server" where
  "spawned c 0 sv = sv"
| "spawned c (Suc n) sv = spawn c (spawned c n sv)"

fun entered :: "nat \<Rightarrow> server \<Rightarrow> server res" where
  "entered 0 sv = Inr sv"
| "entered (Suc k) sv = bindR (entered k sv) (statements [k, k, k, k])"

lemma spawned_simps [simp]:
  "TransferCounter (spawned c n sv) = TransferCounter sv" "ActiveClientList (spawned c n sv) = ActiveClientList sv"
  "next_session (spawned c n sv) = next_session sv + n"
  by (induction n) (simp_all add: spawn_def Let_def)

lemma reach_spawned:
  assumes "TransferCounter sv < ParallelTransfersMax sConf"
  shows "reachable sConf sv (spawned c n sv)"
proof (induction n)
  case (Suc n)
  then show ?case using reach_accept [OF Suc accepts_RRQ [of 1]] assms by simp
qed simp

lemma spawned_start:
  assumes "next_session sv = 0"
  shows "i < n \<Longrightarrow> pcs (spawned c n sv) i = Some Started"
  using assms by (induction n) (auto simp: spawn_def Let_def less_Suc_eq)

lemma reach_entered: "entered k sv = Inr sv' \<Longrightarrow> reachable sConf sv sv'"
proof (induction k arbitrary: sv')
  case (Suc k)
  then obtain sv1 where "entered k sv = Inr sv1" "statements [k, k, k, k] sv1 = Inr sv'"
    by (auto simp: bindR_eq_Inr simp del: statements.simps)
  then show ?case using Suc.IH reach_statements reachable_trans by blast
qed simp

lemma entered_eq:
  assumes "TransferCounter sv = 0" and "k \<le> length (ActiveClientList sv)" and "k \<le> 1000"
    and "\<forall>i < k. pcs sv i = Some Started"
  shows "\<exists>sv'. entered k sv = Inr sv' \<and> TransferCounter sv' = int k \<and>
    length (ActiveClientList sv') = length (ActiveClientList sv) \<and>
    (\<forall>j < k. ActiveClientList sv' ! j = Some j) \<and>
    pcs sv' = (\<lambda>i. if i < k then Some Running else pcs sv i) \<and> clients sv' = clients sv"
  using assms(2-4)
proof (induction k)
  case 0
  then show ?case using assms(1) by simp
next
  case (Suc k)
  then obtain sv1 where 1: "entered k sv = Inr sv1" "TransferCounter sv1 = int k"
    "length (ActiveClientList sv1) = length (ActiveClientList sv)"
    "\<forall>j < k. ActiveClientList sv1 ! j = Some j"
    "pcs sv1 = (\<lambda>i. if i < k then Some Running else pcs sv i)" "clients sv1 = clients sv" by auto
  have ok: "int_ok (int k + 1)" using Suc.prems by (simp add: int_ok_def INT_MIN_def INT_MAX_def)
  define sv2 where "sv2 = sv1\<lparr>ActiveClientList := (ActiveClientList sv1)[k := Some k],
    TransferCounter := int k + 1, pcs := (pcs sv1)(k \<mapsto> Running)\<rparr>"
  have "pcs sv1 k = Some Started" using 1(5) Suc.prems(3) by simp
  from statements_enter [OF this, of sv2] have "statements [k, k, k, k] sv1 = Inr sv2"
    using 1 ok Suc.prems(1) by (simp add: sv2_def del: statements.simps)
  then have "entered (Suc k) sv = Inr sv2" using 1 by (simp del: statements.simps)
  moreover have "pcs sv2 = (\<lambda>i. if i < Suc k then Some Running else pcs sv i)"
    by (auto simp: sv2_def 1(5) less_Suc_eq)
  ultimately show ?case
    using 1 Suc.prems by (intro exI [of _ sv2]) (auto simp: sv2_def nth_list_update less_Suc_eq)
qed


text \<open>
  C20. With two transfers in parallel, the first to end clears the entry of the other and leaves its
  own, which points into the session it deletes: the next write request reads freed memory.
\<close>

theorem client_list_dangles:
  fixes sConf :: AppConfig and garbage :: "nat \<Rightarrow> nat option"
  defines "sv0 \<equiv> server_start sConf garbage"
  assumes m: "2 \<le> ParallelTransfersMax sConf" and "0 < sz"
  shows "\<exists>sv. reachable sConf sv0 sv \<and> accepts sConf sv sz (op_value OP_WRQ) c = Inl UseAfterFree"
proof -
  define sv1 where "sv1 = spawned c 2 sv0"
  have start: "TransferCounter sv0 = 0" "2 \<le> length (ActiveClientList sv0)" "next_session sv0 = 0"
    using m by (simp_all add: sv0_def server_start_def)
  have r1: "reachable sConf sv0 sv1" unfolding sv1_def by (rule reach_spawned) (use start m in simp)
  have st: "\<forall>i < 2. pcs sv1 i = Some Started"
    using spawned_start [OF start(3)] unfolding sv1_def by metis
  have "TransferCounter sv1 = 0" "2 \<le> length (ActiveClientList sv1)" using start by (simp_all add: sv1_def)
  from entered_eq [OF this _ st] obtain sv2 where
    2: "entered 2 sv1 = Inr sv2" "TransferCounter sv2 = 2" "2 \<le> length (ActiveClientList sv2)"
      "ActiveClientList sv2 ! 0 = Some 0" "pcs sv2 0 = Some Running"
    using \<open>2 \<le> length (ActiveClientList sv1)\<close> by auto
  define sv3 where "sv3 = sv2\<lparr>ActiveClientList := (ActiveClientList sv2)[1 := None], TransferCounter := 1,
    pcs := (pcs sv2)(0 \<mapsto> Cleared)\<rparr>"
  define sv4 where "sv4 = sv3\<lparr>clients := (clients sv3)(0 := None), pcs := (pcs sv3)(0 := None)\<rparr>"
  have "int_ok 1" by (simp add: int_ok_def INT_MIN_def INT_MAX_def)
  with statements_leave [OF 2(5), of sv3] 2 have "statements [0, 0, 0, 0, 0] sv2 = Inr sv3"
    by (simp add: sv3_def del: statements.simps)
  moreover have "statements [0] sv3 = Inr sv4" by (simp add: sv3_def sv4_def thread_action_def)
  ultimately have r2: "reachable sConf sv2 sv4" using reach_statements reachable_trans by blast
  have l: "ActiveClientList sv4 = (ActiveClientList sv2)[1 := None]" by (simp add: sv4_def sv3_def)
  have "TransferCounter sv4 = 1" "clients sv4 0 = None" by (simp_all add: sv4_def sv3_def)
  moreover have "ActiveClientList sv4 ! 0 = Some 0" "ActiveClientList sv4 \<noteq> []"
    using 2(3,4) unfolding l by auto
  ultimately have "accepts sConf sv4 sz (op_value OP_WRQ) c = Inl UseAfterFree"
    using m assms(3) by (simp add: accepts_def IsDuplicateClientConnectionRequest_def numeral_eq_Suc)
  then show ?thesis using r1 reach_entered [OF 2(1)] r2 reachable_trans by metis
qed

text \<open>
  C22. \<^verbatim>\<open>TransferCounter++\<close> reads the counter and writes it back, and nothing keeps another worker from
  doing so in between: two workers that start at the same time lose one of their increments, so that
  with two sessions in their loop the counter is 1. When both have ended it is -1, and the second
  writes before the start of the list.
\<close>

theorem counter_loses_updates:
  fixes sConf :: AppConfig and garbage :: "nat \<Rightarrow> nat option"
  defines "sv0 \<equiv> server_start sConf garbage"
  assumes m: "1 \<le> ParallelTransfersMax sConf"
  shows "\<exists>sv. reachable sConf sv0 sv \<and> TransferCounter sv = 1 \<and> pcs sv = [0 \<mapsto> Running, 1 \<mapsto> Running] \<and>
    (\<exists>sv'. reachable sConf sv sv' \<and> TransferCounter sv' = - 1 \<and> pcs sv' = [1 \<mapsto> Clearing (- 1)] \<and>
       thread_action 1 (Clearing (- 1)) sv' = Inl OutOfBounds)"
proof -
  define c where "c = \<lparr>sa_family = AF_INET, sa_data = []\<rparr>"
  define sv1 where "sv1 = spawned c 2 sv0"
  obtain a b xs where xs: "ActiveClientList sv0 = a # b # xs"
  proof -
    have "2 \<le> length (ActiveClientList sv0)" using m by (simp add: sv0_def server_start_def)
    then show thesis
      using that by (cases "ActiveClientList sv0"; cases "tl (ActiveClientList sv0)") auto
  qed
  have start: "TransferCounter sv0 = 0" "pcs sv0 = Map.empty" "next_session sv0 = 0"
    by (simp_all add: sv0_def server_start_def)
  have r1: "reachable sConf sv0 sv1" unfolding sv1_def by (rule reach_spawned) (use start m in simp)
  have sv1: "TransferCounter sv1 = 0" "pcs sv1 = [0 \<mapsto> Started, 1 \<mapsto> Started]" "ActiveClientList sv1 = a # b # xs"
    using start xs by (auto simp: sv1_def numeral_2_eq_2 spawn_def Let_def)
  have ok: "int_ok (- 1)" "int_ok 0" "int_ok 1" by (simp_all add: int_ok_def INT_MIN_def INT_MAX_def)
  let ?enter = "[0, 0, 1, 1, 0, 1, 0, 1] :: nat list" and ?leave = "[0, 0, 0, 0, 0, 0, 1, 1, 1, 1] :: nat list"
  define sv2 where "sv2 = sv1\<lparr>ActiveClientList := Some 1 # b # xs, TransferCounter := 1, pcs := [0 \<mapsto> Running, 1 \<mapsto> Running]\<rparr>"
  define sv3 where "sv3 = sv2\<lparr>ActiveClientList := None # b # xs, TransferCounter := - 1, clients := (clients sv2)(0 := None),
    pcs := [1 \<mapsto> Clearing (- 1)]\<rparr>"
  have "statements ?enter sv1 = Inr sv2"
    using sv1 ok by (simp add: thread_action_def set_entry_def c_int_ok goto_def sv2_def)
  then have r2: "reachable sConf sv0 sv2" using reach_statements reachable_trans [OF r1] by blast
  have "statements ?leave sv2 = Inr sv3"
    using ok by (simp add: thread_action_def set_entry_def c_int_ok goto_def sv3_def sv2_def fun_upd_twist [of 0 "Suc 0"])
  then have r3: "reachable sConf sv2 sv3" by (rule reach_statements)
  have "thread_action 1 (Clearing (- 1)) sv3 = Inl OutOfBounds"
    by (simp add: thread_action_def set_entry_def guardR_def)
  then have "\<exists>sv'. reachable sConf sv2 sv' \<and> TransferCounter sv' = - 1 \<and> pcs sv' = [1 \<mapsto> Clearing (- 1)] \<and>
      thread_action 1 (Clearing (- 1)) sv' = Inl OutOfBounds"
    using r3 by (intro exI [of _ sv3]) (simp add: sv3_def)
  with r2 show ?thesis by (intro exI [of _ sv2]) (simp add: sv2_def)
qed

end
