(* ===== verification/Logger.thy ===== *)
theory Logger
  imports Platform Stdio
begin

text \<open>
  \<^verbatim>\<open>Logger.h\<close> and \<^verbatim>\<open>Logger.cpp\<close>: the log file with its severity filter. The variadic
  formatting of a message is done by the C library; the model starts from the formatted text.
\<close>

definition LogSeverityTrace :: u32 where "LogSeverityTrace = 1"
definition LogSeverityInfo :: u32 where "LogSeverityInfo = 2"
definition LogSeverityError :: u32 where "LogSeverityError = 4"
definition LogSeverityAllFlags :: u32 where "LogSeverityAllFlags = 0xFFFFFF"

record SimpleLogger =
  mLogFile :: "FILE option"
  mLogToConsole :: bool
  mLogSeverityFilter :: u32

text \<open>What a log call can change: the disk and the terminal.\<close>

record log_world =
  log_disk :: disk
  console :: bytes

definition HasOutput :: "SimpleLogger \<Rightarrow> bool" where
  "HasOutput l \<longleftrightarrow> mLogFile l \<noteq> None"

definition SetLogLevelFlags :: "u32 \<Rightarrow> SimpleLogger \<Rightarrow> SimpleLogger" where
  "SetLogLevelFlags NewFlags l = l\<lparr>mLogSeverityFilter := NewFlags\<rparr>"

definition Logger_Init :: "bool \<Rightarrow> bytes \<Rightarrow> SimpleLogger \<Rightarrow> log_world \<Rightarrow> SimpleLogger \<times> log_world" where
  "Logger_Init fopen_ok FilePath l w =
     (let l = (if mLogFile l \<noteq> None then l\<lparr>mLogFile := None\<rparr> else l);
          (out_f, er, d) = fopen_s fopen_ok (log_disk w) FilePath Mode_wb;
          l = l\<lparr>mLogFile := out_f\<rparr>
      in (if er then l\<lparr>mLogFile := None\<rparr> else l, w\<lparr>log_disk := d\<rparr>))"

definition new_SimpleLogger :: "bool \<Rightarrow> log_world \<Rightarrow> SimpleLogger \<times> log_world" where
  "new_SimpleLogger fopen_ok w =
     Logger_Init fopen_ok ''logs.txt''
       \<lparr>mLogFile = None, mLogToConsole = True, mLogSeverityFilter = LogSeverityAllFlags\<rparr> w"

definition delete_SimpleLogger :: "SimpleLogger \<Rightarrow> SimpleLogger" where
  "delete_SimpleLogger l = (if mLogFile l \<noteq> None then l\<lparr>mLogFile := None\<rparr> else l)"

text \<open>\<^verbatim>\<open>SimpleLogger::Log\<close>; \<open>str\<close> is \<open>None\<close> for the NULL pointer.\<close>

definition Logger_Log :: "u32 \<Rightarrow> bytes option \<Rightarrow> SimpleLogger \<Rightarrow> log_world \<Rightarrow> SimpleLogger \<times> log_world" where
  "Logger_Log flags str l w =
     (if mLogSeverityFilter l AND flags = 0 then (l, w)
      else case mLogFile l of
        None \<Rightarrow> (l, w)
      | Some f \<Rightarrow>
          (case str of
             None \<Rightarrow> (l, w)
           | Some s \<Rightarrow>
               let (d, f') = fwrite (length s) (log_disk w) f s;
                   w = w\<lparr>log_disk := d\<rparr>;
                   w = (if mLogToConsole l then w\<lparr>console := console w @ s\<rparr> else w)
               in (l\<lparr>mLogFile := Some f'\<rparr>, w)))"

text \<open>\<^verbatim>\<open>snprintf\<close> into the rest of a buffer: what is stored and what is added to the count.\<close>

definition snprintf_rest :: "nat \<Rightarrow> bytes \<Rightarrow> bytes \<Rightarrow> bytes" where
  "snprintf_rest bufsize done s = done @ take (bufsize - length done - 1) s"

definition pad_left :: "nat \<Rightarrow> bytes \<Rightarrow> bytes" where
  "pad_left n s = replicate (n - length s) (CHR ''0'') @ s"

record tm =
  tm_mon :: nat
  tm_mday :: nat
  tm_hour :: nat
  tm_min :: nat
  tm_sec :: nat

definition log_header :: "tm \<Rightarrow> u32 \<Rightarrow> bytes" where
  "log_header t tick =
     ''['' @ dec_nat (tm_mon t) @ ''-'' @ dec_nat (tm_mday t) @ '' '' @ dec_nat (tm_hour t) @ '':''
     @ dec_nat (tm_min t) @ '':'' @ dec_nat (tm_sec t) @ '':'' @ pad_left 3 (dec_nat (unat tick mod 1000)) @ '']''"

text \<open>The free function \<^verbatim>\<open>Log\<close>: the line it builds is cut at 32000 bytes.\<close>

definition Log_line :: "tm \<Rightarrow> u32 \<Rightarrow> bytes \<Rightarrow> nat \<Rightarrow> bytes \<Rightarrow> bytes" where
  "Log_line t tick fname line logString =
     (let l = snprintf_rest 32000 [] (log_header t tick);
          l = snprintf_rest 32000 l ('' '' @ fname @ '':'' @ dec_nat line);
          l = snprintf_rest 32000 l ('' :: '' @ logString)
      in l)"

definition Log :: "tm \<Rightarrow> u32 \<Rightarrow> u32 \<Rightarrow> bytes \<Rightarrow> nat \<Rightarrow> bytes \<Rightarrow> SimpleLogger \<Rightarrow> log_world \<Rightarrow> SimpleLogger \<times> log_world" where
  "Log t tick severity fname line logString l w =
     (if \<not> HasOutput l then (l, w)
      else Logger_Log severity (Some (Log_line t tick fname line logString)) l w)"

text \<open>\<^verbatim>\<open>LogV\<close> keeps 9999 characters of the formatted message.\<close>

definition LogV :: "tm \<Rightarrow> u32 \<Rightarrow> u32 \<Rightarrow> bytes \<Rightarrow> nat \<Rightarrow> bytes \<Rightarrow> SimpleLogger \<Rightarrow> log_world \<Rightarrow> SimpleLogger \<times> log_world" where
  "LogV t tick severity fname line formatted l w =
     Log t tick severity fname line (take 9999 formatted) l w"

section \<open>Properties\<close>

lemma Logger_Log_filtered: "mLogSeverityFilter l AND flags = 0 \<Longrightarrow> Logger_Log flags str l w = (l, w)"
  by (simp add: Logger_Log_def)

lemma Logger_Log_filter [simp]: "mLogSeverityFilter (fst (Logger_Log flags str l w)) = mLogSeverityFilter l"
  by (simp add: Logger_Log_def Let_def split: option.splits prod.splits)

lemma Logger_Init_HasOutput: "HasOutput (fst (Logger_Init ok path l w)) \<longleftrightarrow> ok"
  by (auto simp: Logger_Init_def HasOutput_def fopen_s_def fopen_def Let_def)

end
