(* ===== verification/Program.thy ===== *)
theory Program
  imports Races Logger
begin

text \<open>
  \<^verbatim>\<open>main.cpp\<close>: the command line, the settings, the backend and the server. The logger and the
  settings are globals that exist before \<^verbatim>\<open>main\<close>, so they are arguments.
\<close>

datatype outcome_main = Usage bytes | Ran SimpleLogger AppConfig run_end

text \<open>The message \<^verbatim>\<open>main\<close> prints when it is not given a port and a server name.\<close>

definition usage :: "bytes \<Rightarrow> bytes" where
  "usage argv0 = ''Usage : '' @ argv0 @ '' [Port] [ServerId]'' @ [CHR 0x0A]"

text \<open>
  \<open>strdup_ok\<close>, \<open>malloc_ok\<close> and \<open>ifs\<close> are what the start of the backend finds; \<open>fuel\<close> bounds a
  session in the listening thread, \<open>ts\<close> is the schedule of the threads.
\<close>

definition main ::
    "os \<Rightarrow> bool \<Rightarrow> bool \<Rightarrow> ifaddr list \<Rightarrow> (nat \<Rightarrow> nat option) \<Rightarrow> nat \<Rightarrow> turn list \<Rightarrow> bytes list \<Rightarrow>
     SimpleLogger \<Rightarrow> AppConfig \<Rightarrow> world \<Rightarrow> outcome_main res" where
  "main os strdup_ok malloc_ok ifs garbage fuel ts argv sLogger sConf w =
     (if length argv \<noteq> 3 then Inr (Usage (usage (argv ! 0)))
      else let sLogger = SetLogLevelFlags 0 sLogger;
               (sConf, logSeverityFlags) = InitConfig (disk w) sConf;
               sLogger = SetLogLevelFlags (word_of_int logSeverityFlags) sLogger;
               port = word_of_int (atoi (argv ! 1)) :: u16
           in bindR (AWS_SQS_Init strdup_ok malloc_ok ifs (argv ! 2) port (sqs w)) (\<lambda>q.
              bindR (RunTFTPServer os sConf port garbage fuel ts (w\<lparr>sqs := q\<rparr>)) (\<lambda>r.
              Inr (Ran sLogger sConf (case r of
                     Returned w \<Rightarrow> Returned (w\<lparr>sqs := AWS_SQS_Destroy (sqs w)\<rparr>)
                   | _ \<Rightarrow> r)))))"

section \<open>Before main\<close>

text \<open>
  \<^verbatim>\<open>unsigned short NextPortToUse = sConf.CommPortStart\<close> of \<^verbatim>\<open>TFTP.cpp\<close> runs before \<^verbatim>\<open>main\<close>, and so does
  the constructor of \<^verbatim>\<open>sConf\<close> in \<^verbatim>\<open>config.cpp\<close>, in an order the language does not fix: the port is the
  default one, or 0 when \<^verbatim>\<open>sConf\<close> is still all zero.
\<close>

definition initial_NextPortToUse :: "bool \<Rightarrow> u16" where
  "initial_NextPortToUse sConf_first = (if sConf_first then word_of_int (CommPortStart default_config) else 0)"

definition process_start :: "bool \<Rightarrow> disk \<Rightarrow> world" where
  "process_start sConf_first d = \<lparr>calls = 0, sends = [], disk = d, open_fds = [],
     NextPortToUse = initial_NextPortToUse sConf_first, sqs = sqs_start\<rparr>"

section \<open>Properties\<close>

lemma main_lines:
  assumes "length argv = 3" and "\<forall>l \<in> set ls. cfg_line_ok l" and "disk w init_cfg = Some (cfg_text ls)"
  defines "port \<equiv> word_of_int (atoi (argv ! 1)) :: u16"
  shows "main os m1 m2 ifs garbage fuel ts argv lg default_config w =
    bindR (AWS_SQS_Init m1 m2 ifs (argv ! 2) port (sqs w)) (\<lambda>q.
    bindR (RunTFTPServer os (config_of_lines ls) port garbage fuel ts (w\<lparr>sqs := q\<rparr>)) (\<lambda>r.
      Inr (Ran (lg\<lparr>mLogSeverityFilter := word_of_int (int_setting ls ''LogVerbosityFlags'' 0)\<rparr>)
        (config_of_lines ls)
        (case r of Returned w \<Rightarrow> Returned (w\<lparr>sqs := AWS_SQS_Destroy (sqs w)\<rparr>) | _ \<Rightarrow> r))))"
  using assms(1) InitConfig_lines [where d = "disk w", OF assms(2,3)]
  by (simp add: main_def SetLogLevelFlags_def port_def Let_def)

text \<open>
  C35. With the settings file of \<open>ls\<close> lines, the program runs the server on the port of the command
  line with the settings the lines describe, and the severity filter of the logger is the value of
  \<^verbatim>\<open>LogVerbosityFlags\<close>, nothing without one.
\<close>

theorem main_runs:
  assumes "length argv = 3" and "\<forall>l \<in> set ls. cfg_line_ok l" and "disk w init_cfg = Some (cfg_text ls)"
  defines "port \<equiv> word_of_int (atoi (argv ! 1)) :: u16"
  shows "main os m1 m2 ifs garbage fuel ts argv lg default_config w =
    bindR (AWS_SQS_Init m1 m2 ifs (argv ! 2) port (sqs w)) (\<lambda>q.
    bindR (RunTFTPServer os (config_of_lines ls) port garbage fuel ts (w\<lparr>sqs := q\<rparr>)) (\<lambda>r.
      Inr (Ran (lg\<lparr>mLogSeverityFilter := word_of_int (int_setting ls ''LogVerbosityFlags'' 0)\<rparr>)
        (config_of_lines ls)
        (case r of Returned w \<Rightarrow> Returned (w\<lparr>sqs := AWS_SQS_Destroy (sqs w)\<rparr>) | _ \<Rightarrow> r))))"
  unfolding port_def by (rule main_lines [OF assms(1-3)])

text \<open>
  C37. Without a setting \<^verbatim>\<open>LogVerbosityFlags\<close> in the settings file, the logger the program runs
  with writes nothing, to the file or to the terminal, whatever the severity of the message.
\<close>

theorem silent_without_verbosity:
  assumes "length argv = 3" and "\<forall>l \<in> set ls. cfg_line_ok l" and "disk w init_cfg = Some (cfg_text ls)"
    and "\<forall>l \<in> set ls. spec_value ''LogVerbosityFlags'' l = None"
    and "main os m1 m2 ifs garbage fuel ts argv lg default_config w = Inr (Ran lg' sConf r)"
  shows "Logger_Log flags str lg' lw = (lg', lw)"
proof -
  have "List.map_filter (spec_value ''LogVerbosityFlags'') ls = []" using assms(4) by (simp add: map_filter_eq_Nil)
  then have "int_setting ls ''LogVerbosityFlags'' 0 = 0" by (simp add: int_setting_def)
  then have "mLogSeverityFilter lg' = 0"
    using assms(5) unfolding main_lines [OF assms(1-3)] by (auto simp: bindR_eq_Inr)
  then show ?thesis by (intro Logger_Log_filtered) simp
qed

text \<open>Nothing on the way from the start of the process to the sessions of its first requests chooses a port.\<close>

lemma CreateUDPSocket_port:
  assumes "CreateUDPSocket os port w = (err, fd, w')" shows "NextPortToUse w' = NextPortToUse w"
  using assms by (auto simp: CreateUDPSocket_def SetSocketTimeOut_def sys_defs Let_def split: if_splits)

lemma fresh_session_port: "fresh_session os sConf w = (s, w') \<Longrightarrow> NextPortToUse w' = NextPortToUse w"
  using new_TFTPSession_fields(5) [of os sConf "fresh_bytes os (calls w) 14" w] by (simp add: fresh_session_def)

lemma listening_port:
  assumes "listen_turns os sConf port fuel (replicate n Listen) l = Inr (Some l')" and "ReuseServerPortForComm sConf = 0"
  shows "NextPortToUse (l_world l') = NextPortToUse (l_world l)"
  using assms(1)
proof (induction n arbitrary: l)
  case (Suc n)
  from Suc.prems obtain l1 where 1: "server_turn os sConf port fuel Listen l = Inr (Some l1)"
    and 2: "listen_turns os sConf port fuel (replicate n Listen) l1 = Inr (Some l')"
    unfolding replicate_Suc by (rule listen_turns_Cons)
  from 1 have "listen_turn os sConf port fuel l = Inr (Some l1)" by (simp add: server_turn_def)
  then have "NextPortToUse (l_world l1) = NextPortToUse (l_world l)"
  proof (cases rule: listen_turn_cases)
    case (ignored w s)
    then show ?thesis using listen_frame [OF ignored(5)] by simp
  next
    case (new_thread sz op w s)
    then show ?thesis using listen_frame [OF new_thread(3)] fresh_session_port [OF new_thread(6)] by simp
  qed (use assms(2) in simp)
  then show ?case using Suc.IH [OF 2] by simp
qed simp

lemma main_port:
  assumes run: "main os m1 m2 ifs garbage fuel (replicate n Listen) argv lg sConf0 w = Inr (Ran lg' sConf (Listening l))"
    and re: "ReuseServerPortForComm sConf = 0"
  shows "NextPortToUse (l_world l) = NextPortToUse w"
proof -
  from run obtain q port r where "RunTFTPServer os sConf port garbage fuel (replicate n Listen) (w\<lparr>sqs := q\<rparr>) = Inr r"
    "(case r of Returned w \<Rightarrow> Returned (w\<lparr>sqs := AWS_SQS_Destroy (sqs w)\<rparr>) | _ \<Rightarrow> r) = Listening l"
    by (auto simp: main_def Let_def bindR_eq_Inr split: if_splits prod.splits)
  then have "RunTFTPServer os sConf port garbage fuel (replicate n Listen) (w\<lparr>sqs := q\<rparr>) = Inr (Listening l)"
    by (cases r) simp_all
  then obtain err fd w1 s w2 l0 where mk: "CreateUDPSocket os port (next_call (w\<lparr>sqs := q\<rparr>)) = (err, fd, w1)"
    and fs: "fresh_session os sConf w1 = (s, w2)"
    and ts: "listen_turns os sConf port fuel (replicate n Listen) l0 = Inr (Some l)" and l0: "l_world l0 = w2"
    by (auto simp: RunTFTPServer_def sys_malloc_def Let_def bindR_eq_Inr split: if_splits prod.splits option.splits)
  from listening_port [OF ts re] CreateUDPSocket_port [OF mk] fresh_session_port [OF fs] l0 show ?thesis by simp
qed

lemma next_port_range:
  assumes "port_config_ok sConf" shows "\<exists>q. next_port sConf p = Inr q \<and> port_in_range sConf q"
proof -
  have c: "0 \<le> CommPortStart sConf" "CommPortStart sConf < CommPortEnd sConf" "CommPortEnd sConf \<le> 65535"
    using assms by (simp_all add: port_config_ok_def)
  define r where "r = (uint p + 1) mod CommPortEnd sConf"
  have r: "c_rem (uint p + 1) (CommPortEnd sConf) = Inr r" "0 \<le> r" "r < CommPortEnd sConf"
    using c by (simp_all add: r_def c_rem_nonneg)
  have u: "uint (word_of_int r :: u16) = r" "uint (word_of_int (CommPortStart sConf) :: u16) = CommPortStart sConf"
    using r c by (simp_all add: unsigned_of_int take_bit_eq_mod)
  show ?thesis using c r u by (simp add: next_port_def Let_def port_in_range_def)
qed

text \<open>
  C36. Whatever range of ports the settings file configures, the first socket for a client is bound to
  the port the program was started with, 49152 or 0, because \<^verbatim>\<open>NextPortToUse\<close> is set before the settings
  are read and never afterwards; the attempt succeeds exactly when that port can be bound and connected.
  From the first attempt on, successful or not, the next port is in the configured range (see C26).
\<close>

theorem first_port_ignores_settings:
  assumes run: "main os m1 m2 ifs garbage fuel (replicate n Listen) argv lg default_config (process_start sConf_first d) =
      Inr (Ran lg' sConf (Listening l))"
    and re: "ReuseServerPortForComm sConf = 0" and range: "port_config_ok sConf"
  defines "w \<equiv> l_world l"
  assumes ss: "ServerSocket s = INVALID_SOCKET_2" and pp: "PortPrefered s = 0" and cl: "sa_family (Client s) \<noteq> AF_MAX"
    and fd: "os_socket os (calls w) = fd" and nf: "fd \<noteq> INVALID_SOCKET_2"
  shows "\<exists>err w1. initial_NextPortToUse sConf_first \<in> {0, 49152} \<and>
    CreateCommUDPSocket os sConf w s =
      (if err = 0 then Inr (0, w1, s\<lparr>CommSocket := fd\<rparr>)
       else create_loop os sConf (MAX_RETRY_CREATE_SOCKET - 1) err w1 (s\<lparr>CommSocket := fd\<rparr>)) \<and>
    (err = 0 \<longleftrightarrow> os_bind os (calls w + 2) fd (initial_NextPortToUse sConf_first) = 0 \<and>
       os_connect os (calls w + 3) fd (Client s) = 0) \<and>
    port_in_range sConf (NextPortToUse w1)"
proof -
  have port: "NextPortToUse w = initial_NextPortToUse sConf_first"
    using main_port [OF run re] by (simp add: w_def process_start_def)
  obtain q where q: "next_port sConf (NextPortToUse w) = Inr q" "port_in_range sConf q"
    using next_port_range [OF range] by blast
  let ?s = "s\<lparr>CommSocket := fd\<rparr>" and ?w = "(next_call w)\<lparr>open_fds := open_fds w @ [fd]\<rparr>"
  have sock: "sys_socket os w = (fd, ?w)" using fd nf by (simp add: sys_socket_def INVALID_SOCKET_2_def Let_def)
  have "\<exists>err w1. try_port os sConf ?w ?s = Inr (err, w1, ?s) \<and>
    (err = 0 \<longleftrightarrow> os_bind os (calls w + 2) fd (NextPortToUse w) = 0 \<and> os_connect os (calls w + 3) fd (Client s) = 0) \<and>
    NextPortToUse w1 = q"
    using q(1) pp cl by (auto simp: try_port_def SetSocketTimeOut_def sys_defs closesocket_def Let_def numeral_3_eq_3)
  then obtain err w1 where t: "try_port os sConf ?w ?s = Inr (err, w1, ?s)"
    "err = 0 \<longleftrightarrow> os_bind os (calls w + 2) fd (NextPortToUse w) = 0 \<and> os_connect os (calls w + 3) fd (Client s) = 0"
    "NextPortToUse w1 = q" by blast
  have "CreateCommUDPSocket os sConf w s = create_loop os sConf (Suc (MAX_RETRY_CREATE_SOCKET - 1)) 0 w s"
    using ss by (simp add: CreateCommUDPSocket_def MAX_RETRY_CREATE_SOCKET_def)
  also have "\<dots> = (if err = 0 then Inr (0, w1, ?s) else create_loop os sConf (MAX_RETRY_CREATE_SOCKET - 1) err w1 ?s)"
    using sock t(1) nf by (simp add: create_loop.simps(2))
  finally show ?thesis
    using t q(2) port by (intro exI [of _ err] exI [of _ w1]) (simp add: initial_NextPortToUse_def default_config_def)
qed

end
