(* ===== verification/Example.thy ===== *)
theory Example
  imports Upload Program
begin

text \<open>
  A concrete machine, configuration and session, on which the properties are applied: every
  system call succeeds, nothing arrives by itself, and the clock stands still.
\<close>

definition quiet_os :: os where
  "quiet_os = \<lparr>os_socket = (\<lambda>k. int k), os_setsockopt = (\<lambda>k. 0), os_bind = (\<lambda>k fd p. 0),
     os_connect = (\<lambda>k fd a. 0), os_send = (\<lambda>k fd p. int (length p)), os_recv = (\<lambda>k fd. None),
     os_recvfrom = (\<lambda>k fd. None), os_clock = (\<lambda>k. (0, 0)), os_malloc = (\<lambda>k. True),
     os_realloc = (\<lambda>k. Realloc_in_place), os_fresh = (\<lambda>k j. NUL), os_fopen = (\<lambda>k n. True),
     os_fwrite = (\<lambda>k. 65536), os_guid = (\<lambda>k. ''guid''), os_ntoa = (\<lambda>a. ''10.0.0.1'')\<rparr>"

definition small_conf :: AppConfig where
  "small_conf = default_config\<lparr>DownloadableFileNames := [''a''], UploadableFileNames := [''b'']\<rparr>"

definition some_peer :: sockaddr where
  "some_peer = \<lparr>sa_family = AF_INET, sa_data = ''peer''\<rparr>"

definition some_file :: bytes where
  "some_file = replicate 100 (CHR ''x'')"

definition start_world :: world where
  "start_world = \<lparr>calls = 0, sends = [], disk = [''a'' \<mapsto> some_file], open_fds = [],
     NextPortToUse = 49152, sqs = sqs_start\<rparr>"

definition new_session :: session where
  "new_session = fst (new_TFTPSession quiet_os small_conf [] start_world)"

lemma quiet_os_ok:
  "machine_ok quiet_os small_conf" "disk_accepts quiet_os" "realloc_ok quiet_os" "conf_ok small_conf"
  "in_place quiet_os" "lossless quiet_os" "network_up quiet_os" "sends_ok quiet_os"
  by (simp_all add: machine_ok_def lossless_def sends_ok_def network_up_def in_place_def conf_ok_def
      disk_accepts_def realloc_ok_def quiet_os_def small_conf_def default_config_def)

lemma new_session_ok: "idle new_session" "session_inv new_session"
  using new_TFTPSession_idle [of quiet_os start_world small_conf "[]"]
  by (simp_all add: new_session_def quiet_os_def idle_def)

lemma new_session_params: "start_params new_session = \<lparr>p_blksize = 512, p_timeout = 1, p_window = 1, p_reply = []\<rparr>"
  by (simp add: start_params_def new_session_def new_TFTPSession_def sys_malloc_bytes_def tftp_consts
      small_conf_def default_config_def)

text \<open>A request for blocks of 40 bytes in windows of two.\<close>

definition some_opts :: "(bytes \<times> bytes) list" where
  "some_opts = [(''blksize'', ''40''), (''windowsize'', ''2'')]"

definition some_reply :: bytes where
  "some_reply = ''blksize'' @ [NUL] @ ''40windowsize'' @ [NUL] @ ''2''"

lemma some_negotiation:
  "negotiate small_conf fsize some_opts (start_params new_session) =
     \<lparr>p_blksize = 40, p_timeout = 1, p_window = 2, p_reply = some_reply\<rparr>"
  unfolding new_session_params by code_simp

lemma some_requests:
  "request_ok OP_RRQ ''a'' ''octet'' some_opts new_session" "may_download small_conf ''a''"
  "request_ok OP_WRQ ''b'' ''octet'' [] new_session" "may_upload small_conf ''b''"
  "NoFileWriteOnServer small_conf = 0"
proof -
  have b: "BlockSize new_session = 512" by (simp add: new_session_def new_TFTPSession_def sys_malloc_bytes_def tftp_consts)
  show "request_ok OP_RRQ ''a'' ''octet'' some_opts new_session"
    "request_ok OP_WRQ ''b'' ''octet'' [] new_session"
    unfolding request_ok_def b by code_simp+
  show "may_download small_conf ''a''" "may_upload small_conf ''b''" "NoFileWriteOnServer small_conf = 0"
    by code_simp+
qed

lemma some_size: "size_ok small_conf 40 some_file" "blocks 40 some_file = 3"
  by (simp_all add: size_ok_def blocks_def some_file_def small_conf_def default_config_def int_ok_def INT_MIN_def INT_MAX_def)

lemma start_world_simps [simp]: "disk start_world = [''a'' \<mapsto> some_file]" "sends start_world = []"
  by (simp_all add: start_world_def)

lemma start_world_sqs: "sqs_inv (sqs start_world)"
  by (simp add: start_world_def sqs_inv_start)

section \<open>Sessions in the middle of a transfer\<close>

lemma new_session_simps [simp]:
  "BlockSize new_session = 512" "WindowSize new_session = 1" "PacketTimeout new_session = 1"
  "LastRecvPktSize new_session = 0" "WindowRetryCount new_session = 0" "ReadDone new_session = 0"
  "TransferDone new_session = 0" "Error new_session = TFTP_ERR_NO_ERROR" "BytesHandled new_session = 0"
  "LastActivityStamp new_session = 0" "LastRecvPacket new_session = Some (replicate 518 NUL)" "hFile new_session = None"
  "SelectedOperation new_session = TFTP_OP_NOT_INITIALIZED" "CommSocket new_session = - 1"
  "ServerSocket new_session = - 1" "FirstBlockInWindow new_session = 0"
  by (simp_all add: new_session_def new_TFTPSession_def sys_malloc_bytes_def tftp_consts fresh_bytes_def
      small_conf_def default_config_def quiet_os_def map_replicate_const)

definition download_session :: session where
  "download_session = new_session\<lparr>SelectedOperation := TFTP_OP_SERVER_TO_CLIENT,
     hFile := Some \<lparr>f_name = ''a'', f_pos = 0\<rparr>, FirstBlockInWindow := 1, CommSocket := 5\<rparr>"

text \<open>An upload of a file that the server does not write, in windows of \<open>W\<close> blocks.\<close>

definition upload_session :: "nat \<Rightarrow> session" where
  "upload_session W = new_session\<lparr>SelectedOperation := TFTP_OP_CLIENT_TO_SERVER, WindowSize := int W,
     BlockNrInWindowReceived := Some (replicate W 0), CommSocket := 5\<rparr>"

text \<open>The session once the packet \<open>p\<close> is in its buffer.\<close>

definition holding :: "bytes \<Rightarrow> session \<Rightarrow> session" where
  "holding p s = s\<lparr>LastRecvPacket := Some (p @ replicate (518 - length p) NUL)\<rparr>"

lemma session_examples:
  "session_inv download_session" "1 \<le> W \<Longrightarrow> W \<le> 65535 \<Longrightarrow> session_inv (upload_session W)"
  "file_ok small_conf download_session" "length p < 518 \<Longrightarrow> packet_ready p (holding p new_session)"
proof -
  have "take (length p + 1) (p @ replicate (518 - length p) NUL) = p @ [NUL]" if "length p < 518"
    using that by (simp add: take_Suc_conv_app_nth min_def)
  then show "length p < 518 \<Longrightarrow> packet_ready p (holding p new_session)" by (simp add: packet_ready_def holding_def)
  show "file_ok small_conf download_session"
    using some_requests(2) by (simp add: file_ok_def download_session_def)
qed (simp_all add: download_session_def upload_session_def session_inv_defs tftp_consts)

definition unlimited :: AppConfig where
  "unlimited = small_conf\<lparr>KillConnectionAfterxBytesReceived := 0\<rparr>"

text \<open>A clock that goes on by a second with every call.\<close>

definition ticking_os :: os where "ticking_os = quiet_os\<lparr>os_clock := (\<lambda>k. (int k, 0))\<rparr>"

lemma ticks: "k < 4000000 \<Longrightarrow> uint (getTick (os_clock ticking_os k)) = int k * 1000"
  by (simp add: ticking_os_def uint_getTick)

text \<open>A write request in the buffer, and that the server handles it.\<close>

definition write_request :: session where
  "write_request = delivered_session (request OP_WRQ ''b'' ''octet'' []) new_session"

lemma write_request:
  "session_inv write_request" "file_ok small_conf write_request" "packet_u16 write_request 0 = Inr (op_value OP_WRQ)"
  "LastRecvPktSize write_request = 10" "SelectedOperation write_request = TFTP_OP_NOT_INITIALIZED"
  "PacketTimeout write_request = 1" "WindowRetryCount write_request = 0"
  "\<exists>w' s'. ParsePacket quiet_os small_conf 10 start_world write_request = Inr (0, w', s') \<and> BlockSize s' = 512"
proof -
  let ?p = "request OP_WRQ ''b'' ''octet'' []"
  have len: "length ?p = 10" by (simp add: request_def encode_options_def)
  show "session_inv write_request"
    unfolding write_request_def using len by (intro delivered_inv new_session_ok(2)) simp
  show op: "packet_u16 write_request 0 = Inr (op_value OP_WRQ)"
    unfolding write_request_def by (rule request_opcode [OF new_session_ok(2) refl]) (simp add: len)
  have n: "negotiate small_conf (Some 0) [] (start_params new_session) = start_params new_session"
    by (simp add: negotiate_def)
  have q: "room_for (start_params new_session)" "p_window (start_params new_session) = 1"
    by (simp_all add: new_session_params room_for_def)
  from WRQ_serves [OF quiet_os_ok(1) new_session_ok(1) some_requests(3,4,5) n [symmetric] q, of start_world]
  obtain w' s' where "CMSG_WRQ quiet_os small_conf 10 start_world write_request = Inr (0, w', s')" "BlockSize s' = 512"
    by (auto simp: len write_request_def receiving_def new_session_params)
  then show "\<exists>w' s'. ParsePacket quiet_os small_conf 10 start_world write_request = Inr (0, w', s') \<and> BlockSize s' = 512"
    using op by (simp add: ParsePacket_def EnsureHaveEnoughPacketBytes_def)
qed (simp_all add: write_request_def file_ok_def request_def encode_options_def, simp_all add: delivered_session_def)

end
