(* ===== verification/Hazards.thy ===== *)
theory Hazards
  imports Negotiate
begin

text \<open>
  Where \<^verbatim>\<open>ParseOptions\<close> leaves defined behaviour: a block of memory that \<^verbatim>\<open>realloc\<close> moves or
  shrinks under the pointer into the packet, and an answer that outgrows the array on the stack.
\<close>

section \<open>The block size option\<close>

lemma blksize_only:
  assumes "stricmp TFTP_OPT_BLKSIZE n = 0" and "NUL \<notin> set n"
  shows "stricmp TFTP_OPT_TSIZE n \<noteq> 0" "stricmp TFTP_OPT_TIMEOUT n \<noteq> 0"
proof -
  have opts: "NUL \<notin> set TFTP_OPT_BLKSIZE" "NUL \<notin> set TFTP_OPT_TSIZE" "NUL \<notin> set TFTP_OPT_TIMEOUT"
    "map tolower TFTP_OPT_BLKSIZE \<noteq> map tolower TFTP_OPT_TSIZE"
    "map tolower TFTP_OPT_BLKSIZE \<noteq> map tolower TFTP_OPT_TIMEOUT" by code_simp+
  then have "map tolower TFTP_OPT_BLKSIZE = map tolower n"
    using assms stricmp_eq_0 by blast
  then show "stricmp TFTP_OPT_TSIZE n \<noteq> 0" "stricmp TFTP_OPT_TIMEOUT n \<noteq> 0"
    using opts assms(2) by (simp_all add: stricmp_eq_0)
qed

text \<open>
  The first option of a packet is a block size the server takes. What becomes of it depends on the
  block \<^verbatim>\<open>packet\<close> points into after the reallocation.
\<close>

lemma first_blksize:
  fixes os :: os and w :: world
  assumes pk: "packet_ready p s" and p: "p = pre @ encode_option (n, v) @ rest"
    and nv: "NUL \<notin> set n" "NUL \<notin> set v" and bs: "stricmp TFTP_OPT_BLKSIZE n = 0" "8 \<le> atoi v" "atoi v \<le> 65464"
    and buf: "LastRecvPacket s = Some buf"
  defines "new \<equiv> resized os (calls w) buf (nat (6 + atoi v))"
  shows "os_realloc os (calls w) = Realloc_moves \<Longrightarrow>
      ParseOptions os sConf (length p) (length pre) w s = Inl UseAfterFree"
    and "os_realloc os (calls w) = Realloc_in_place \<Longrightarrow> read_string (Some new) (length pre) = Inl u \<Longrightarrow>
      ParseOptions os sConf (length p) (length pre) w s = Inl u"
proof -
  have tk: "take (length p + 1) buf = p @ [NUL]" using pk buf by (simp add: packet_ready_def)
  define st where "st = \<lparr>o_world = w, o_sess = s, o_packet = Some buf, o_alias = True, o_read = length pre,
    o_oack = fresh_bytes os (calls w) (nat TFTP_PACKET_FULL_SIZE_SAFE), o_added = 2\<rparr>"
  have p1: "p @ [NUL] = pre @ n @ NUL # (v @ NUL # rest @ [NUL])"
    and p2: "p @ [NUL] = (pre @ n @ [NUL]) @ v @ NUL # (rest @ [NUL])" by (simp_all add: p encode_option_def)
  have len: "length pre + length n + length v + 2 \<le> length p" by (simp add: p encode_option_def)
  have rd: "read_string (Some buf) (length pre) = Inr n" "read_string (Some buf) (length pre + length n + 1) = Inr v"
    using read_string_ready [OF tk p1 nv(1)] read_string_ready [OF tk p2 nv(2)] by simp_all
  define st2 where "st2 = st\<lparr>o_read := length pre + length n + length v + 2\<rparr>"
  have turn: "option_turn os sConf (length p) st =
      bindR (opt_blksize os (length pre) v st2) (\<lambda>st. Inr (True, st))"
    using rd len blksize_only [OF bs(1) nv(1)] bs(1)
    by (simp add: option_turn_def st_def st2_def Let_def opt_dispatch_def)
  have go: "opt_blksize os (length pre) v st2 = Inl x \<Longrightarrow> ParseOptions os sConf (length p) (length pre) w s = Inl x" for x
    using turn len buf unfolding ParseOptions_def
    by (subst option_loop.simps) (simp add: st_def)
  note blk = opt_blksize_def Let_def realloc_packet_def sys_realloc_def tftp_consts st2_def st_def buf
  show "ParseOptions os sConf (length p) (length pre) w s = Inl UseAfterFree"
    if "os_realloc os (calls w) = Realloc_moves"
    using that bs by (intro go) (simp add: blk read_string_def)
  show "ParseOptions os sConf (length p) (length pre) w s = Inl u"
    if "os_realloc os (calls w) = Realloc_in_place" "read_string (Some new) (length pre) = Inl u"
    using that bs by (intro go) (simp add: blk new_def)
qed

text \<open>A block size that ends the block before the end of the option's own name.\<close>

lemma shrunk_name:
  assumes tk: "take (length p + 1) buf = p @ [NUL]" and p: "p = pre @ n @ NUL # rest" and n: "NUL \<notin> set n"
    and m: "m \<le> length pre + length n" and len: "length p < length buf"
  shows "read_string (Some (resized os k buf m)) (length pre) = Inl OutOfBounds"
proof -
  have mb: "m \<le> length buf" using m len by (simp add: p)
  then have "resized os k buf m = take m buf" by (simp add: resized_def)
  also have "\<dots> = take m (take (length p + 1) buf)"
  proof -
    have "m \<le> length p + 1" using m by (simp add: p)
    then show ?thesis by (simp only: take_take min.absorb1)
  qed
  also have "\<dots> = take m (p @ [NUL])" by (simp only: tk)
  also have "\<dots> = take m (pre @ n)" using m by (simp add: p)
  finally have "drop (length pre) (resized os k buf m) = take (m - length pre) n"
    by (simp add: drop_take del: take_append)
  then have "NUL \<notin> set (drop (length pre) (resized os k buf m))" using n by (auto dest: in_set_takeD)
  then show ?thesis by (simp add: read_string_def strlen_at_def strlen_from_Inl)
qed

text \<open>
  C14. A request whose first option is a block size the server takes, where \<^verbatim>\<open>realloc\<close> moves
  the block: \<^verbatim>\<open>ParseOptions\<close> goes on to read the name of the option from the freed block.
\<close>

theorem blksize_use_after_free:
  fixes os :: os and w :: world
  assumes "packet_ready p s" and "p = pre @ encode_option (n, v) @ rest" and "NUL \<notin> set n" and "NUL \<notin> set v"
    and "stricmp TFTP_OPT_BLKSIZE n = 0" and "8 \<le> atoi v" and "atoi v \<le> 65464"
    and "os_realloc os (calls w) = Realloc_moves"
  shows "ParseOptions os sConf (length p) (length pre) w s = Inl UseAfterFree"
proof -
  obtain buf where buf: "LastRecvPacket s = Some buf" using assms(1) by (auto simp: packet_ready_def)
  show ?thesis by (rule first_blksize(1) [OF assms(1-7) buf assms(8)])
qed

text \<open>
  C15. Where the block stays in place but shrinks below the end of the option's own name, because
  the block size asked for is smaller than the request, the name is read beyond the end of the block.
\<close>

theorem small_blksize_over_read:
  fixes os :: os and w :: world
  assumes pk: "packet_ready p s" and p: "p = pre @ encode_option (n, v) @ rest" and n: "NUL \<notin> set n" and v: "NUL \<notin> set v"
    and bs: "stricmp TFTP_OPT_BLKSIZE n = 0" "8 \<le> atoi v" "atoi v \<le> 65464"
    and os: "os_realloc os (calls w) = Realloc_in_place" and small: "6 + atoi v \<le> int (length pre + length n)"
  shows "ParseOptions os sConf (length p) (length pre) w s = Inl OutOfBounds"
proof -
  obtain buf where buf: "LastRecvPacket s = Some buf" "length p < length buf" "take (length p + 1) buf = p @ [NUL]"
    using pk by (auto simp: packet_ready_def)
  have "p = pre @ n @ NUL # (v @ NUL # rest)" by (simp add: p encode_option_def)
  from shrunk_name [OF buf(3) this n _ buf(2), of "nat (6 + atoi v)" os "calls w"] small
  have "read_string (Some (resized os (calls w) buf (nat (6 + atoi v)))) (length pre) = Inl OutOfBounds" by linarith
  then show ?thesis by (rule first_blksize(2) [OF pk p n v bs buf(1) os])
qed

section \<open>The answer outgrows its array\<close>

definition tsize_query :: "bytes \<times> bytes" where "tsize_query = (''tsize'', ''0'')"

text \<open>The bytes one query adds to the answer.\<close>

definition answer_length :: "nat \<Rightarrow> nat" where
  "answer_length l = 6 + length (dec_int (to_int (int l)))"

definition asking :: "bytes \<Rightarrow> nat \<Rightarrow> nat \<Rightarrow> options_state \<Rightarrow> bool" where
  "asking p l a st \<longleftrightarrow> (\<exists>buf f. o_packet st = Some buf \<and> take (length p + 1) buf = p @ [NUL] \<and>
     hFile (o_sess st) = Some f \<and> length (f_content (disk (o_world st)) f) = l) \<and>
     length (o_oack st) = 518 \<and> o_added st = a"

lemma tsize_turn:
  assumes al: "AllowTSizeOption sConf = 1" and st: "asking p l a st" and rd: "o_read st = length pre"
    and p: "p = pre @ encode_option tsize_query @ rest"
  shows "if a \<le> 518 then \<exists>st'. option_turn os sConf (length p) st = Inr (True, st') \<and>
      asking p l (a + answer_length l) st' \<and> o_read st' = length (pre @ encode_option tsize_query)
    else option_turn os sConf (length p) st = Inl OutOfBounds"
proof -
  from st obtain buf f where b: "o_packet st = Some buf" "take (length p + 1) buf = p @ [NUL]"
    "hFile (o_sess st) = Some f" "length (f_content (disk (o_world st)) f) = l"
    "length (o_oack st) = 518" "o_added st = a" unfolding asking_def by blast
  have p1: "p @ [NUL] = pre @ ''tsize'' @ NUL # (''0'' @ NUL # rest @ [NUL])"
    and p2: "p @ [NUL] = (pre @ ''tsize'' @ [NUL]) @ ''0'' @ NUL # (rest @ [NUL])"
    by (simp_all add: p encode_option_def tsize_query_def)
  have r: "read_string (Some buf) (length pre) = Inr ''tsize''" "read_string (Some buf) (Suc (Suc (Suc (Suc (Suc (Suc (length pre))))))) = Inr ''0''"
    using read_string_ready [OF b(2) p1] read_string_ready [OF b(2) p2] by simp_all
  have len: "length pre + 8 \<le> length p" by (simp add: p encode_option_def tsize_query_def)
  have zero: "atoi ''0'' = 0" "stricmp TFTP_OPT_TSIZE ''tsize'' = 0" by code_simp+
  define f' where "f' = fseek_set (fseek_end (disk (o_world st)) f) 0"
  define st1 where "st1 = st\<lparr>o_read := length pre + 8, o_sess := (o_sess st)\<lparr>hFile := Some f'\<rparr>\<rparr>"
  have turn: "option_turn os sConf (length p) st =
      bindR (snprintf_option ''tsize'' (to_int (int l)) st1) (\<lambda>st. Inr (True, st))"
    using b r len al zero
    by (simp add: option_turn_def Let_def rd opt_dispatch_def opt_tsize_def st1_def f'_def ftell_def fseek_end_def
        eval_nat_numeral)
  have "f_content (disk (o_world st)) f' = f_content (disk (o_world st)) f"
    by (simp add: f'_def f_content_def)
  then have "asking p l (a + answer_length l) st'" if "snprintf_option ''tsize'' (to_int (int l)) st1 = Inr st'" for st'
    using snprintf_option_length [OF that] b unfolding asking_def by (simp add: st1_def answer_length_def)
  moreover have "\<exists>st'. snprintf_option ''tsize'' (to_int (int l)) st1 = Inr st'" if "a \<le> 518"
    using that b by (simp add: snprintf_option_def Let_def st1_def)
  moreover have "snprintf_option ''tsize'' (to_int (int l)) st1 = Inl OutOfBounds" if "\<not> a \<le> 518"
    using that b by (simp add: snprintf_option_def Let_def st1_def guardR_def)
  moreover have "o_read st' = length pre + 8" if "snprintf_option ''tsize'' (to_int (int l)) st1 = Inr st'" for st'
    using snprintf_option_read [OF that] by (simp add: st1_def)
  ultimately show ?thesis using turn by (auto simp: encode_option_def tsize_query_def)
qed

lemma tsize_loop:
  assumes al: "AllowTSizeOption sConf = 1"
  shows "asking p l a st \<Longrightarrow> o_read st = length pre \<Longrightarrow> p = pre @ encode_options (replicate k tsize_query) \<Longrightarrow>
    518 < a + k * answer_length l \<Longrightarrow>
    option_loop os sConf (length p) st = Inl OutOfBounds \<or>
    (\<exists>st'. option_loop os sConf (length p) st = Inr (True, st') \<and> length (o_oack st') = 518 \<and> 518 < o_added st')"
proof (induction k arbitrary: pre a st)
  case 0
  then show ?case by (subst option_loop.simps, subst option_loop.simps)
    (auto simp: encode_options_def asking_def)
next
  case (Suc k)
  have p: "p = pre @ encode_option tsize_query @ encode_options (replicate k tsize_query)"
    using Suc.prems(3) by (simp add: encode_options_def)
  have lt: "length pre < length p" by (simp add: p encode_option_def)
  note turn = tsize_turn [OF al Suc.prems(1,2) p, of os]
  show ?case
  proof (cases "a \<le> 518")
    case True
    with turn obtain st' where st': "option_turn os sConf (length p) st = Inr (True, st')"
      "asking p l (a + answer_length l) st'" "o_read st' = length (pre @ encode_option tsize_query)" by auto
    then have "option_loop os sConf (length p) st = option_loop os sConf (length p) st'"
      using lt Suc.prems(2) by (subst option_loop.simps) simp
    then show ?thesis using Suc.IH [OF st'(2,3)] p Suc.prems(4) by simp
  next
    case False
    then have "option_loop os sConf (length p) st = Inl OutOfBounds"
      using turn lt Suc.prems(2) by (subst option_loop.simps) simp
    then show ?thesis by simp
  qed
qed

text \<open>
  C13. A request that asks for the size of the file often enough makes the answer outgrow the 518
  bytes of the array on the stack: \<^verbatim>\<open>ParseOptions\<close> writes or sends out of bounds.
\<close>

theorem tsize_overflow:
  assumes al: "AllowTSizeOption sConf = 1" and pk: "packet_ready p s" and f: "hFile s = Some f"
    and p: "p = pre @ encode_options (replicate k tsize_query)"
    and many: "516 < k * answer_length (length (f_content (disk w) f))"
  shows "ParseOptions os sConf (length p) (length pre) w s = Inl OutOfBounds"
proof -
  let ?l = "length (f_content (disk w) f)"
  define st where "st = \<lparr>o_world = w, o_sess = s, o_packet = LastRecvPacket s, o_alias = True, o_read = length pre,
    o_oack = fresh_bytes os (calls w) (nat TFTP_PACKET_FULL_SIZE_SAFE), o_added = 2\<rparr>"
  have "asking p ?l 2 st" using pk f by (auto simp: asking_def st_def packet_ready_def tftp_consts)
  from tsize_loop [OF al this _ p, of os] many
  consider "option_loop os sConf (length p) st = Inl OutOfBounds"
    | st' where "option_loop os sConf (length p) st = Inr (True, st')" "length (o_oack st') = 518" "518 < o_added st'"
    by (auto simp: st_def)
  then show ?thesis
  proof cases
    case 2
    then have "\<not> o_added st' \<le> length (store_at 0 (htons_bytes (op_value OP_OACK)) (o_oack st'))"
      by (simp del: op_value.simps)
    then show ?thesis using 2 by (simp add: ParseOptions_def st_def [symmetric] SMSG_OACK_def guardR_def)
  qed (simp add: ParseOptions_def st_def [symmetric])
qed

end
