(* ===== verification/Sound.thy ===== *)
theory Sound
  imports Thread
begin

text \<open>
  Where a session cannot leave defined behaviour: once its request has been handled, with blocks
  of at most 32767 bytes, only an error packet of the client can lead to undefined behaviour.
\<close>

section \<open>Packets of a transfer\<close>

lemma uint_u16_bounds: "0 \<le> uint (n :: u16)" "uint (n :: u16) \<le> 65535"
  using unsigned_less [of n, where ?'a = int] by simp_all

lemma small_product:
  assumes "0 \<le> i" and "i \<le> 65535" and "0 \<le> b" and "b \<le> 32767" shows "int_ok (i * b)"
proof -
  have "i * b \<le> 65535 * 32767" using assms by (intro mult_mono) simp_all
  moreover have "0 \<le> i * b" using assms by simp
  ultimately show ?thesis by (intro int_okI) linarith+
qed

lemma ACK_Block_defined:
  assumes "session_inv s" and "SelectedOperation s = TFTP_OP_CLIENT_TO_SERVER"
  shows "\<exists>w' s'. SMSG_ACK_Block os resend w s = Inr (w', s')"
proof -
  obtain arr where arr: "BlockNrInWindowReceived s = Some arr" "int (length arr) = WindowSize s"
    using assms by (auto simp: session_inv_defs)
  show ?thesis unfolding SMSG_ACK_Block_eq [OF arr] by (simp add: Let_def split: prod.splits)
qed

lemma data_offset_small:
  assumes "session_inv s" and "BlockSize s \<le> 32767" and "1 \<le> FirstBlockInWindow s"
  shows "int_ok (data_offset s)"
  using assms unfolding data_offset_def by (intro small_product) (simp_all add: session_inv_def ranges_ok_def)

lemma ACK_defined:
  assumes inv: "session_inv s" and bs: "BlockSize s \<le> 32767" and nr: "packet_u16 s 2 = Inr nr"
  shows "\<exists>x. CMSG_ACK os sConf sz w s = Inr x"
proof -
  have "0 \<le> FirstBlockInWindow s" "FirstBlockInWindow s \<le> 65536" "1 \<le> WindowSize s" "WindowSize s \<le> 65535"
    using inv by (simp_all add: session_inv_def ranges_ok_def)
  then have c: "c_int (FirstBlockInWindow s + WindowSize s) = Inr (FirstBlockInWindow s + WindowSize s)"
    "c_int (FirstBlockInWindow s + WindowSize s - 1) = Inr (FirstBlockInWindow s + WindowSize s - 1)"
    by (auto intro!: c_int_ok int_okI)
  let ?s = "s\<lparr>FirstBlockInWindow := uint nr + 1\<rparr>"
  have r: "ranges_ok ?s" using inv uint_u16_bounds [of nr] by (simp add: session_inv_def ranges_ok_def)
  have "int_ok (data_offset ?s)"
    unfolding data_offset_def using bs uint_u16_bounds [of nr] inv
    by (intro small_product) (simp_all add: session_inv_def ranges_ok_def)
  with SMSG_DATA_defined [OF r] obtain w' s' where "SMSG_DATA os sConf 0 w ?s = Inr (w', s')" by blast
  then show ?thesis
    using nr c by (simp add: CMSG_ACK_def EnsureHaveEnoughPacketBytes_def Let_def)
qed

lemma store_defined:
  assumes "session_inv s" and "BlockSize s \<le> 32767" and "1 \<le> nr" "nr \<le> 65535" and "int sz \<le> BlockSize s + 4"
  shows "\<exists>x. data_step os sz nr w s = Inr x"
proof -
  obtain buf where buf: "LastRecvPacket s = Some buf" "int (length buf) = BlockSize s + 6"
    using assms(1) by (auto simp: session_inv_defs tftp_consts)
  have "int_ok ((nr - 1) * BlockSize s)"
    using assms by (intro small_product) (simp_all add: session_inv_def ranges_ok_def)
  then have "c_int ((nr - 1) * BlockSize s) = Inr ((nr - 1) * BlockSize s)" by (rule c_int_ok)
  moreover have "sz \<le> length buf" using buf(2) assms(5) by linarith
  ultimately show ?thesis
    using buf by (auto simp: data_step_def store_block_def packet_buf_def Let_def split: option.splits prod.splits)
qed

lemma DATA_defined:
  assumes inv: "session_inv s" and bs: "BlockSize s \<le> 32767" and nr: "packet_u16 s 2 = Inr nr"
    and sz: "int sz \<le> BlockSize s + 4"
  shows "\<exists>x. CMSG__DATA os sConf sz w s = Inr x"
proof (cases "SelectedOperation s = TFTP_OP_CLIENT_TO_SERVER")
  case True
  obtain arr where arr: "BlockNrInWindowReceived s = Some arr" "int (length arr) = WindowSize s"
    using inv True by (auto simp: session_inv_defs)
  have W: "1 \<le> WindowSize s" and f: "0 \<le> FirstBlockInWindow s"
    using inv by (simp_all add: session_inv_def ranges_ok_def)
  show ?thesis
  proof (cases "uint nr \<le> FirstBlockInWindow s")
    case False
    define k where "k = (uint nr - 1) mod WindowSize s"
    have pos: "1 \<le> uint nr" using False f by linarith
    have k: "c_rem (uint nr - 1) (WindowSize s) = Inr k" "0 \<le> k" "k < WindowSize s"
      using pos W by (simp_all add: k_def c_rem_nonneg)
    have m: "session_inv (marked sz (nat k) arr s)" "BlockSize (marked sz (nat k) arr s) = BlockSize s"
      "SelectedOperation (marked sz (nat k) arr s) = TFTP_OP_CLIENT_TO_SERVER"
      using inv True arr by (auto simp: marked_def counted_def session_inv_defs)
    obtain w1 s1 where st: "data_step os sz (uint nr) w (marked sz (nat k) arr s) = Inr (w1, s1)"
      using store_defined [OF m(1) _ pos uint_u16_bounds(2), of sz os w] m(2) bs sz by fastforce
    obtain hf rc where s1: "s1 = (marked sz (nat k) arr s)\<lparr>hFile := hf, WindowRetryCount := rc\<rparr>"
      using data_step_frame [OF st] by blast
    have "session_inv (data_done sz s1)" "SelectedOperation (data_done sz s1) = TFTP_OP_CLIENT_TO_SERVER"
      using m True by (auto simp: s1 data_done_def session_inv_defs)
    from ACK_Block_defined [OF this] obtain w' s' where
      ack: "SMSG_ACK_Block os 0 w1 (data_done sz s1) = Inr (w', s')" by blast
    have "nat k < length arr" using k arr(2) by linarith
    then show ?thesis
      using nr k arr st ack False by (simp add: DATA_eq window_array_def)
  qed (use nr in \<open>simp add: DATA_eq\<close>)
qed (simp add: DATA_eq)

text \<open>What a session that has got its request keeps, when the server can go on with it.\<close>

definition settled :: "world \<Rightarrow> session \<Rightarrow> bool" where
  "settled w s \<longleftrightarrow> session_inv s \<and> SelectedOperation s \<noteq> TFTP_OP_NOT_INITIALIZED \<and>
     BlockSize s \<le> 32767 \<and> 0 \<le> PacketTimeout s \<and> PacketTimeout s \<le> 2147483 \<and>
     LastRecvPktSize s \<le> BlockSize s + 4 \<and> 0 \<le> WindowRetryCount s \<and> WindowRetryCount s < 2147483647 \<and>
     sqs_inv (sqs w)"

text \<open>The same, and the packet in the buffer is no error packet.\<close>

definition established :: "world \<Rightarrow> session \<Rightarrow> bool" where
  "established w s \<longleftrightarrow> settled w s \<and> (2 \<le> LastRecvPktSize s \<longrightarrow> packet_u16 s 0 \<noteq> Inr (op_value OP_ERROR))"

lemmas established_defs = established_def settled_def

text \<open>The part of the session the packets of a transfer leave alone.\<close>

definition same_session :: "session \<Rightarrow> session \<Rightarrow> bool" where
  "same_session s s' \<longleftrightarrow> SelectedOperation s' = SelectedOperation s \<and> BlockSize s' = BlockSize s \<and>
     PacketTimeout s' = PacketTimeout s \<and> LastRecvPacket s' = LastRecvPacket s \<and>
     LastRecvPktSize s' = LastRecvPktSize s \<and>
     (WindowRetryCount s' = 0 \<or> WindowRetryCount s' = WindowRetryCount s)"

lemma SMSG_DATA_same:
  assumes "SMSG_DATA os sConf resend w s = Inr (w', s')" and "ranges_ok s" and "1 \<le> FirstBlockInWindow s"
  shows "same_session s s' \<and> sqs w' = sqs w"
proof (cases "hFile s")
  case None
  with assms(1) show ?thesis by (simp add: same_session_def)
next
  case (Some f)
  from SMSG_DATA_frame [OF assms(1) Some assms(2,3)] obtain new where "data_frame w s new w' s'" by blast
  from data_frame_simps [OF this] show ?thesis by (simp add: same_session_def)
qed

lemma ACK_Block_same:
  assumes "SMSG_ACK_Block os resend w s = Inr (w', s')" and "session_inv s"
    and "SelectedOperation s = TFTP_OP_CLIENT_TO_SERVER"
  shows "same_session s s' \<and> sqs w' = sqs w"
proof -
  obtain arr where arr: "BlockNrInWindowReceived s = Some arr" "int (length arr) = WindowSize s"
    using assms(2,3) by (auto simp: session_inv_defs)
  define nr where "nr = (word_of_int (FirstBlockInWindow s + received_prefix arr) :: u16)"
  show ?thesis
    using assms(1) [unfolded SMSG_ACK_Block_eq [OF arr] nr_def [symmetric]]
    by (auto simp: sys_send_def sys_tick_def Let_def same_session_def split: if_splits)
qed

lemma ACK_same:
  assumes "CMSG_ACK os sConf sz w s = Inr (r, w', s')" and inv: "session_inv s"
  shows "same_session s s' \<and> sqs w' = sqs w"
  using assms(1)
proof (cases rule: ACK_cases)
  case (continued nr)
  have "ranges_ok (s\<lparr>FirstBlockInWindow := uint nr + 1\<rparr>)" "1 \<le> FirstBlockInWindow (s\<lparr>FirstBlockInWindow := uint nr + 1\<rparr>)"
    using inv uint_u16_bounds [of nr] by (simp_all add: session_inv_def ranges_ok_def)
  from SMSG_DATA_same [OF continued(7) this] show ?thesis by (simp add: same_session_def)
qed (auto simp: same_session_def)

lemma data_step_retry:
  "data_step os sz nr w s = Inr (w', s') \<Longrightarrow> WindowRetryCount s' = 0 \<or> WindowRetryCount s' = WindowRetryCount s"
  by (auto simp: data_step_def bindR_eq_Inr split: if_splits)

lemma DATA_same:
  assumes "CMSG__DATA os sConf sz w s = Inr (r, w', s')" and inv: "session_inv s"
  shows "same_session s s' \<and> sqs w' = sqs w"
  using assms(1)
proof (cases rule: DATA_cases)
  case (stored nr k arr w1 s1)
  from data_step_frame [OF stored(11)] obtain hf kk d rc where
    s1: "s1 = (marked sz (nat k) arr s)\<lparr>hFile := hf, WindowRetryCount := rc\<rparr>" "w1 = w\<lparr>calls := kk, disk := d\<rparr>" by blast
  have rc: "rc = 0 \<or> rc = WindowRetryCount s"
    using data_step_retry [OF stored(11)] by (simp add: s1 marked_def counted_def)
  let ?d = "data_done sz s1"
  have sel: "SelectedOperation ?d = TFTP_OP_CLIENT_TO_SERVER" and inv': "session_inv ?d"
    using inv stored(1,7) by (auto simp: s1 data_done_def marked_def counted_def session_inv_defs)
  have "same_session s ?d" using rc by (auto simp: same_session_def s1 data_done_def marked_def counted_def)
  then show ?thesis using ACK_Block_same [OF stored(12) inv' sel] s1(2) by (auto simp: same_session_def)
qed (auto simp: same_session_def counted_def)

lemma established_same:
  assumes "established w s" and "same_session s s'" and "sqs w' = sqs w" and "session_inv s'"
  shows "established w' s'"
  using assms by (auto simp: established_defs same_session_def packet_u16_def packet_buf_def)

lemma established_packet:
  assumes est: "established w s" and sz: "0 < LastRecvPktSize s"
  shows "\<exists>r w' s'. ParsePacket os sConf (nat (LastRecvPktSize s)) w s = Inr (r, w', s') \<and>
    same_session s s' \<and> sqs w' = sqs w \<and> session_inv s'"
proof -
  let ?n = "nat (LastRecvPktSize s)"
  have inv: "session_inv s" and bs: "BlockSize s \<le> 32767" and sel: "SelectedOperation s \<noteq> TFTP_OP_NOT_INITIALIZED"
    and n: "int ?n \<le> BlockSize s + 4" and ne: "2 \<le> ?n \<Longrightarrow> packet_u16 s 0 \<noteq> Inr (op_value OP_ERROR)"
    using est sz by (auto simp: established_defs)
  obtain buf where buf: "LastRecvPacket s = Some buf" "int (length buf) = BlockSize s + 6"
    using inv by (auto simp: session_inv_defs tftp_consts)
  have "8 \<le> BlockSize s" using inv by (simp add: session_inv_def ranges_ok_def)
  then have "4 \<le> length buf" using buf(2) by linarith
  then have u16: "\<exists>v. packet_u16 s 0 = Inr v" "\<exists>v. packet_u16 s 2 = Inr v"
    using buf by (simp_all add: packet_u16_def packet_buf_def)
  then obtain op nr where op: "packet_u16 s 0 = Inr op" and nr: "packet_u16 s 2 = Inr nr" by blast
  show ?thesis
  proof (cases "?n < 2 \<or> (op \<noteq> op_value OP_ACK \<and> op \<noteq> op_value OP_DATA)")
    case True
    then show ?thesis
      using op ne sel inv
      by (auto simp: ParsePacket_def EnsureHaveEnoughPacketBytes_def CMSG_RRQ_def CMSG_WRQ_def same_session_def
          simp del: op_value.simps)
  next
    case False
    then consider "?n \<ge> 2" "op = op_value OP_ACK" | "?n \<ge> 2" "op = op_value OP_DATA" by auto
    then show ?thesis
    proof cases
      case 1
      obtain r w' s' where run: "CMSG_ACK os sConf ?n w s = Inr (r, w', s')"
        using ACK_defined [OF inv bs nr, of os sConf ?n w] by auto
      have "ParsePacket os sConf ?n w s = Inr (r, w', s')"
        using 1 op run by (simp add: ParsePacket_def EnsureHaveEnoughPacketBytes_def)
      then show ?thesis using ACK_same [OF run inv] ACK_inv [OF run inv] by blast
    next
      case 2
      obtain r w' s' where run: "CMSG__DATA os sConf ?n w s = Inr (r, w', s')"
        using DATA_defined [OF inv bs nr n, of os sConf w] by auto
      have "ParsePacket os sConf ?n w s = Inr (r, w', s')"
        using 2 op run by (simp add: ParsePacket_def EnsureHaveEnoughPacketBytes_def)
      then show ?thesis using DATA_same [OF run inv] DATA_inv [OF run inv] by blast
    qed
  qed
qed

section \<open>The loop of an established session\<close>

definition no_errors :: "os \<Rightarrow> bool" where
  "no_errors os \<longleftrightarrow> (\<forall>k fd d. os_recv os k fd = Some d \<longrightarrow> take 2 d \<noteq> htons_bytes (op_value OP_ERROR))"

lemma report_defined:
  assumes "session_inv s" and "LastRecvPktSize s \<le> BlockSize s + 4" and "sqs_inv (sqs w)"
  shows "\<exists>w'. report_packet os w s = Inr w' \<and> sqs_inv (sqs w')"
proof -
  obtain buf where buf: "LastRecvPacket s = Some buf" "int (length buf) = BlockSize s + 6"
    using assms(1) by (auto simp: session_inv_defs tftp_consts)
  have "nat (LastRecvPktSize s) \<le> length buf" using assms(2) buf(2) by linarith
  then have len: "\<forall>b. LastRecvPacket s = Some b \<longrightarrow> nat (LastRecvPktSize s) \<le> length b" using buf(1) by simp
  from OnPacketArrived_inv [OF assms(3) len] obtain q where
    "AWS_SQS_OnPacketArrived (os_malloc os (calls w)) (os_malloc os (calls w + 1)) (os_guid os (calls w + 2))
       (LastRecvPacket s) (LastRecvPktSize s) (CommSocket s) (Some (os_ntoa os (Client s))) (sqs w) = Inr q" "sqs_inv q"
    by blast
  then show ?thesis by (simp add: report_packet_def Let_def)
qed

lemma settled_report:
  assumes "settled w s"
  shows "\<exists>w'. report_packet os w s = Inr w' \<and> settled w' s"
  using report_defined [of s w os] assms by (auto simp: settled_def)

lemma settled_receive:
  assumes est: "settled w s" and ne: "no_errors os"
  shows "\<exists>w' s'. receive os w s = Inr (w', s') \<and> established w' s'"
proof -
  have inv: "session_inv s" and bs: "8 \<le> BlockSize s" using est by (simp_all add: established_defs session_inv_def ranges_ok_def)
  obtain buf where buf: "LastRecvPacket s = Some buf" "int (length buf) = BlockSize s + 6"
    using inv by (auto simp: session_inv_defs tftp_consts)
  show ?thesis
  proof (cases "os_recv os (calls w) (CommSocket s)")
    case None
    then have "receive os w s = Inr (next_call w, s\<lparr>LastRecvPktSize := - 1\<rparr>)"
      using buf(1) by (simp add: receive_def sys_recv_def)
    moreover have "established (next_call w) (s\<lparr>LastRecvPktSize := - 1\<rparr>)" using est bs by (simp add: established_defs)
    ultimately show ?thesis by blast
  next
    case (Some dgram)
    define data where "data = take (nat (BlockSize s + 4)) dgram"
    define s' where "s' = s\<lparr>LastRecvPacket := Some (store_at 0 data buf), LastRecvPktSize := int (length data)\<rparr>"
    have len: "int (length data) \<le> BlockSize s + 4" using bs by (simp add: data_def)
    then have lb: "length data \<le> length buf" using buf(2) by linarith
    have run: "receive os w s = Inr (next_call w, s')"
      using Some buf(1) lb by (simp add: receive_def sys_recv_def Let_def data_def tftp_consts s'_def)
    have "session_inv s'" using receive_inv(1) [OF run] inv by simp
    moreover have "packet_u16 s' 0 \<noteq> Inr (op_value OP_ERROR)" if "2 \<le> length data"
    proof
      assume a: "packet_u16 s' 0 = Inr (op_value OP_ERROR)"
      have d: "take 2 dgram = [data ! 0, data ! 1]"
      proof -
        have "take 2 dgram = take 2 data" using bs by (simp add: data_def min_def nat_le_iff le_nat_iff)
        also have "\<dots> = [data ! 0, data ! 1]" using that by (cases data; cases "tl data") auto
        finally show ?thesis .
      qed
      have "store_at 0 data buf ! 0 = data ! 0" "store_at 0 data buf ! 1 = data ! 1"
        using that by (auto simp: store_at_def nth_append)
      then have "ntohs_bytes (data ! 0) (data ! 1) = op_value OP_ERROR"
        using a by (auto simp: packet_u16_def packet_buf_def s'_def bindR_eq_Inr simp del: op_value.simps)
      then have "htons_bytes (op_value OP_ERROR) = take 2 dgram"
        using htons_ntohs [of "data ! 0" "data ! 1"] d by (simp del: op_value.simps)
      then show False using ne Some unfolding no_errors_def by metis
    qed
    ultimately have "established (next_call w) s'"
      using est len by (simp add: established_defs s'_def)
    with run show ?thesis by blast
  qed
qed

lemma established_silence:
  assumes est: "established w s" and mx: "RetryResendPacketMax sConf \<le> 2147483647"
  shows "\<exists>go w' s'. on_silence os sConf w s = Inr (go, w', s') \<and> (go \<longrightarrow> established w' s')"
proof -
  have e: "session_inv s" "BlockSize s \<le> 32767" "0 \<le> PacketTimeout s" "PacketTimeout s \<le> 2147483"
    "0 \<le> WindowRetryCount s" "WindowRetryCount s < 2147483647" using est by (simp_all add: established_defs)
  have c: "c_int (PacketTimeout s * 1000) = Inr (PacketTimeout s * 1000)"
    "c_int (WindowRetryCount s + 1) = Inr (WindowRetryCount s + 1)"
    using e by (auto intro!: c_int_ok int_okI)
  let ?s = "s\<lparr>WindowRetryCount := WindowRetryCount s + 1\<rparr>"
  have est1: "established w1 ?s" if "\<not> RetryResendPacketMax sConf \<le> WindowRetryCount s + 1" "sqs w1 = sqs w" for w1
    using est that mx by (simp add: established_defs packet_u16_def packet_buf_def)
  have d: "\<exists>w' s'. SMSG_DATA os sConf 1 (next_call w) ?s = Inr (w', s') \<and> same_session ?s s' \<and> sqs w' = sqs w \<and> session_inv s'"
    if sel: "SelectedOperation s = TFTP_OP_SERVER_TO_CLIENT"
  proof -
    have fb: "1 \<le> FirstBlockInWindow ?s" and inv: "session_inv ?s" and r: "ranges_ok ?s"
      using e(1) sel by (simp_all add: session_inv_defs)
    obtain w' s' where run: "SMSG_DATA os sConf 1 (next_call w) ?s = Inr (w', s')"
      using SMSG_DATA_defined [OF r, of os sConf 1 "next_call w"] data_offset_small [OF inv _ fb] e(2) by auto
    then show ?thesis using SMSG_DATA_same [OF run r fb] SMSG_DATA_inv [OF run inv fb] by auto
  qed
  have a: "\<exists>w' s'. SMSG_ACK_Block os 1 (next_call w) ?s = Inr (w', s') \<and> same_session ?s s' \<and> sqs w' = sqs w \<and> session_inv s'"
    if sel: "SelectedOperation s = TFTP_OP_CLIENT_TO_SERVER"
  proof -
    have inv: "session_inv ?s" and sel': "SelectedOperation ?s = TFTP_OP_CLIENT_TO_SERVER" using e(1) sel by simp_all
    obtain w' s' where run: "SMSG_ACK_Block os 1 (next_call w) ?s = Inr (w', s')"
      using ACK_Block_defined [OF inv sel'] by blast
    then show ?thesis using ACK_Block_same [OF run inv sel'] ACK_Block_inv [OF run inv sel'] by auto
  qed
  show ?thesis
  proof (cases "sint ((ucast (getTick (os_clock os (calls w))) :: u64) - LastActivityStamp s) \<ge> PacketTimeout s * 1000
      \<and> \<not> RetryResendPacketMax sConf \<le> WindowRetryCount s + 1")
    case False
    then show ?thesis
      using est c by (auto simp: on_silence_def sys_tick_def Let_def established_defs)
  next
    case True
    then have late: "sint ((ucast (getTick (os_clock os (calls w))) :: u64) - LastActivityStamp s) \<ge> PacketTimeout s * 1000"
      and few: "\<not> RetryResendPacketMax sConf \<le> WindowRetryCount s + 1" by simp_all
    show ?thesis
    proof (cases "SelectedOperation s")
      case TFTP_OP_SERVER_TO_CLIENT
      with d obtain w' s' where r: "SMSG_DATA os sConf 1 (next_call w) ?s = Inr (w', s')" "same_session ?s s'"
        "sqs w' = sqs w" "session_inv s'" by blast
      have "established w' s'" by (rule established_same [OF est1 [OF few refl] r(2-4)])
      then show ?thesis
        using late few c r(1) TFTP_OP_SERVER_TO_CLIENT by (intro exI [of _ True]) (simp add: on_silence_def sys_tick_def Let_def)
    next
      case TFTP_OP_CLIENT_TO_SERVER
      with a obtain w' s' where r: "SMSG_ACK_Block os 1 (next_call w) ?s = Inr (w', s')" "same_session ?s s'"
        "sqs w' = sqs w" "session_inv s'" by blast
      have "established w' s'" by (rule established_same [OF est1 [OF few refl] r(2-4)])
      then show ?thesis
        using late few c r(1) TFTP_OP_CLIENT_TO_SERVER by (intro exI [of _ True]) (simp add: on_silence_def sys_tick_def Let_def)
    next
      case TFTP_OP_NOT_INITIALIZED
      then show ?thesis using est by (simp add: established_defs)
    qed
  qed
qed

text \<open>The part of a turn after the packet.\<close>

lemma turn_after_packet:
  assumes run: "(if LastRecvPktSize s > 0 then ParsePacket os sConf (nat (LastRecvPktSize s)) w s else Inr (0, w, s))
      = Inr (r, w1, s1)"
    and st: "settled w1 s1 \<or> (session_inv s1 \<and> LastRecvPktSize s1 \<le> BlockSize s1 + 4 \<and> sqs_inv (sqs w1) \<and>
      Error s1 \<noteq> TFTP_ERR_NO_ERROR)"
    and ne: "no_errors os" and mx: "RetryResendPacketMax sConf \<le> 2147483647"
  shows "\<exists>go w' s'. thread_turn os sConf w s = Inr (go, w', s') \<and> (go \<longrightarrow> established w' s')"
proof (cases "settled w1 s1")
  case True
  then obtain w2 where 2: "report_packet os w1 s1 = Inr w2" "settled w2 s1" using settled_report by blast
  obtain w3 s3 where 3: "receive os w2 s1 = Inr (w3, s3)" "established w3 s3"
    using settled_receive [OF 2(2) ne] by blast
  obtain go w4 s4 where 4: "on_silence os sConf w3 s3 = Inr (go, w4, s4)" "go \<longrightarrow> established w4 s4"
    using established_silence [OF 3(2) mx] by blast
  show ?thesis using run 2(1) 3 4 by (auto simp: thread_turn_def split: prod.splits)
next
  case False
  with st report_defined [of s1 w1 os] obtain w2 where "report_packet os w1 s1 = Inr w2" "Error s1 \<noteq> TFTP_ERR_NO_ERROR" by blast
  moreover obtain w3 s3 where "SMSG_Error os w2 s1 = (w3, s3)" by fastforce
  ultimately show ?thesis using run by (intro exI [of _ False]) (simp add: thread_turn_def)
qed

lemma established_turn:
  assumes est: "established w s" and ne: "no_errors os" and mx: "RetryResendPacketMax sConf \<le> 2147483647"
  shows "\<exists>go w' s'. thread_turn os sConf w s = Inr (go, w', s') \<and> (go \<longrightarrow> established w' s')"
proof -
  obtain r w1 s1 where 1: "(if LastRecvPktSize s > 0 then ParsePacket os sConf (nat (LastRecvPktSize s)) w s
      else Inr (0, w, s)) = Inr (r, w1, s1)" "established w1 s1"
    using established_packet [OF est, of os sConf] established_same [OF est] est by (cases "LastRecvPktSize s > 0") auto
  then show ?thesis using turn_after_packet [OF 1(1) _ ne mx] by (simp add: established_def)
qed

lemma established_loop:
  assumes "established w s" and "no_errors os" and "RetryResendPacketMax sConf \<le> 2147483647"
  shows "\<exists>r. thread_loop os sConf fuel w s = Inr r"
  using assms(1)
proof (induction fuel arbitrary: w s)
  case (Suc fuel)
  from established_turn [OF Suc.prems assms(2,3)] obtain go w' s' where
    "thread_turn os sConf w s = Inr (go, w', s')" "go \<longrightarrow> established w' s'" by blast
  then show ?case using Suc.IH by (cases go) auto
qed simp

section \<open>A session from its request on\<close>

text \<open>A session whose request is in the buffer, and what the handlers of requests leave alone.\<close>

definition pending :: "world \<Rightarrow> session \<Rightarrow> bool" where
  "pending w s \<longleftrightarrow> session_inv s \<and> SelectedOperation s = TFTP_OP_NOT_INITIALIZED \<and> sqs_inv (sqs w) \<and>
     0 \<le> PacketTimeout s \<and> PacketTimeout s \<le> 2147483 \<and> 0 \<le> WindowRetryCount s \<and> WindowRetryCount s < 2147483647 \<and>
     0 < LastRecvPktSize s \<and> (packet_u16 s 0 = Inr (op_value OP_RRQ) \<or> packet_u16 s 0 = Inr (op_value OP_WRQ))"

definition request_frame :: "AppConfig \<Rightarrow> world \<Rightarrow> session \<Rightarrow> world \<Rightarrow> session \<Rightarrow> bool" where
  "request_frame sConf w s w' s' \<longleftrightarrow> sqs w' = sqs w \<and> LastRecvPktSize s' = LastRecvPktSize s \<and>
     (WindowRetryCount s' = 0 \<or> WindowRetryCount s' = WindowRetryCount s) \<and>
     (PacketTimeout s' = PacketTimeout s \<or> PacketTimeout s' = ClientTimeoutSecMax sConf \<or>
      ClientTimeoutSecMin sConf \<le> PacketTimeout s' \<and> PacketTimeout s' \<le> ClientTimeoutSecMax sConf) \<and>
     (SelectedOperation s' = TFTP_OP_NOT_INITIALIZED \<longrightarrow> Error s' \<noteq> TFTP_ERR_NO_ERROR)"

lemma sys_fopen_sqs: "sys_fopen_s os w n m = (f, w') \<Longrightarrow> sqs w' = sqs w"
  by (auto simp: sys_fopen_s_def split: prod.splits)

lemma options_frame_request:
  assumes "options_frame sConf w s new w' s'" and "sqs w = sqs w0" and "LastRecvPktSize s = LastRecvPktSize s0"
    and "WindowRetryCount s = WindowRetryCount s0" and "PacketTimeout s = PacketTimeout s0"
    and "SelectedOperation s2 \<noteq> TFTP_OP_NOT_INITIALIZED" and "sqs w2 = sqs w'"
    and "LastRecvPktSize s2 = LastRecvPktSize s'" and "PacketTimeout s2 = PacketTimeout s'"
    and "WindowRetryCount s2 = 0 \<or> WindowRetryCount s2 = WindowRetryCount s'"
  shows "request_frame sConf w0 s0 w2 s2"
  using assms(2-) options_frame_simps(3,14,17,19) [OF assms(1)] by (auto simp: request_frame_def negotiated_def)

lemma RRQ_frame:
  assumes run: "CMSG_RRQ os sConf sz w s = Inr (r, w', s')" and sel: "SelectedOperation s = TFTP_OP_NOT_INITIALIZED"
    and inv: "session_inv s" and c: "conf_ok sConf" "realloc_ok os"
  shows "request_frame sConf w s w' s'"
  using run
proof (cases rule: RRQ_cases)
  case (short s0)
  then show ?thesis by (auto simp: terminate_packet_eq request_frame_def)
next
  case (denied FileName n err w1 s1)
  with request_prefix_frame [OF denied(1)] show ?thesis by (simp add: request_frame_def)
next
  case (missing FileName n err w1 s1)
  with request_prefix_frame [OF missing(1)] sys_fopen_sqs [OF missing(3)] show ?thesis by (simp add: request_frame_def)
next
  case (served FileName n err w1 s1 f w2 p w3 s3 n3)
  note fr = request_prefix_frame [OF served(1)]
  let ?s4 = "s3\<lparr>SelectedOperation := TFTP_OP_SERVER_TO_CLIENT, FirstBlockInWindow := 1\<rparr>"
  have "session_inv (s1\<lparr>hFile := Some f\<rparr>)" using request_prefix_inv [OF served(1) inv] by (simp add: session_inv_defs)
  from ParseOptions_session(2) [OF served(4) this c] have r: "ranges_ok ?s4" "1 \<le> FirstBlockInWindow ?s4"
    by (simp_all add: ranges_ok_def)
  obtain new where "options_frame sConf w2 (s1\<lparr>hFile := Some f\<rparr>) new w3 s3" using ParseOptions_frame(1) [OF served(4)] by blast
  then show ?thesis
    by (rule options_frame_request)
      (use SMSG_DATA_same [OF served(5) r] fr sys_fopen_sqs [OF served(3)] in \<open>simp_all add: same_session_def\<close>)
qed (use sel in simp)

lemma WRQ_frame:
  assumes run: "CMSG_WRQ os sConf sz w s = Inr (r, w', s')" and sel: "SelectedOperation s = TFTP_OP_NOT_INITIALIZED"
    and inv: "session_inv s" and c: "conf_ok sConf" "realloc_ok os"
  shows "request_frame sConf w s w' s'"
  using run
proof (cases rule: WRQ_cases)
  case (short s0)
  then show ?thesis by (auto simp: terminate_packet_eq request_frame_def)
next
  case (denied FileName n err w1 s1)
  with request_prefix_frame [OF denied(1)] show ?thesis by (simp add: request_frame_def)
next
  case (missing FileName n err w1 s1)
  with request_prefix_frame [OF missing(1)] sys_fopen_sqs [OF missing(4)] show ?thesis by (simp add: request_frame_def)
next
  case (served FileName n err w1 s1 w2 s2 p w3 s3 n3)
  note fr = request_prefix_frame [OF served(1)]
  obtain hf where s2: "s2 = s1\<lparr>hFile := hf\<rparr>" "sqs w2 = sqs w1"
    using served(3) sys_fopen_sqs by (cases "NoFileWriteOnServer sConf = 0") (fastforce, auto intro: that [of "hFile s1"])
  have "session_inv s2" using request_prefix_inv [OF served(1) inv] fr(1) by (simp add: s2 session_inv_defs)
  note po = ParseOptions_session [OF served(4) this c]
  have inv4: "session_inv (upload_start s3)" using po by (intro upload_start_inv)
  have up: "SelectedOperation (upload_start s3) = TFTP_OP_CLIENT_TO_SERVER" by (simp add: upload_start_def)
  obtain new where "options_frame sConf w2 s2 new w3 s3" using ParseOptions_frame(1) [OF served(4)] by blast
  then show ?thesis
    by (rule options_frame_request)
      (use ACK_Block_same [OF served(7) inv4 up] fr s2 in \<open>simp_all add: same_session_def upload_start_def\<close>)
qed (use sel in simp)

text \<open>
  C3. From its request on, a session never leaves defined behaviour, whatever the client sends and
  whatever the system answers, when its request was handled (see C13 to C15 for requests that
  cannot be), the blocks have at most 32767 bytes and hold the request, and the client sends no error
  packet: no access out of bounds, no null pointer, no freed memory, no overflow.
\<close>

theorem session_never_undefined:
  assumes "pending w s" and "conf_ok sConf" and "realloc_ok os" and "0 \<le> ClientTimeoutSecMin sConf"
    and "0 \<le> ClientTimeoutSecMax sConf" and "ClientTimeoutSecMax sConf \<le> 2147483"
    and "RetryResendPacketMax sConf \<le> 2147483647" and "no_errors os"
    and run: "ParsePacket os sConf (nat (LastRecvPktSize s)) w s = Inr (r, w1, s1)"
    and bs: "BlockSize s1 \<le> 32767" "LastRecvPktSize s \<le> BlockSize s1 + 4"
  shows "\<exists>res. thread_loop os sConf fuel w s = Inr res"
proof (cases fuel)
  case (Suc n)
  note p = assms(1) [unfolded pending_def]
  have inv: "session_inv s1" by (rule ParsePacket_inv [OF run]) (use p assms(2,3) in simp_all)
  have "request_frame sConf w s w1 s1"
  proof (cases "nat (LastRecvPktSize s) < 2")
    case True
    then show ?thesis using run by (auto simp: ParsePacket_def EnsureHaveEnoughPacketBytes_def request_frame_def)
  next
    case False
    with run p have "CMSG_RRQ os sConf (nat (LastRecvPktSize s)) w s = Inr (r, w1, s1) \<or>
        CMSG_WRQ os sConf (nat (LastRecvPktSize s)) w s = Inr (r, w1, s1)"
      by (auto simp: ParsePacket_def EnsureHaveEnoughPacketBytes_def)
    then show ?thesis using RRQ_frame WRQ_frame p assms(2,3) by blast
  qed
  note rf = this [unfolded request_frame_def]
  have "settled w1 s1 \<or> (session_inv s1 \<and> LastRecvPktSize s1 \<le> BlockSize s1 + 4 \<and> sqs_inv (sqs w1) \<and>
      Error s1 \<noteq> TFTP_ERR_NO_ERROR)"
    using inv rf p bs assms(4-6) by (auto simp: settled_def)
  moreover have "(if LastRecvPktSize s > 0 then ParsePacket os sConf (nat (LastRecvPktSize s)) w s else Inr (0, w, s)) = Inr (r, w1, s1)"
    using p run by simp
  ultimately obtain go w' s' where "thread_turn os sConf w s = Inr (go, w', s')" "go \<longrightarrow> established w' s'"
    using turn_after_packet assms(7,8) by blast
  then show ?thesis using established_loop [OF _ assms(8,7)] by (cases go) (auto simp: Suc)
qed simp

end
