(* ===== verification/Retry.thy ===== *)
theory Retry
  imports Sound Delivery
begin

text \<open>
  A client that falls silent. An upload is given up after the configured number of timeouts; a
  download is not, because \<^verbatim>\<open>SMSG_DATA\<close> clears the count of the retries it is part of.
\<close>

section \<open>A turn without a packet\<close>

lemma thread_turn_silent:
  assumes "LastRecvPktSize s \<le> 0" and "CommSocket s \<noteq> - 1" and "Error s = TFTP_ERR_NO_ERROR"
    and "TransferDone s \<noteq> 1" and "os_recv os (calls w + 3) (CommSocket s) = None"
  shows "thread_turn os sConf w s =
    on_silence os sConf (w\<lparr>calls := calls w + 4\<rparr>) (s\<lparr>LastRecvPktSize := - 1\<rparr>)"
proof -
  have "report_packet os w s = Inr (w\<lparr>calls := calls w + 3\<rparr>)"
    using assms(1) by (cases "LastRecvPacket s") (simp_all add: report_packet_def AWS_SQS_OnPacketArrived_def Let_def)
  moreover have "receive os (w\<lparr>calls := calls w + 3\<rparr>) s =
      Inr (w\<lparr>calls := calls w + 4\<rparr>, s\<lparr>LastRecvPktSize := - 1\<rparr>)"
    using assms(5) by (simp add: receive_def sys_recv_def next_call_def)
  ultimately show ?thesis using assms by (simp add: thread_turn_def INVALID_SOCKET_2_def)
qed

definition timed_out :: "os \<Rightarrow> nat \<Rightarrow> session \<Rightarrow> bool" where
  "timed_out os k s \<longleftrightarrow>
     sint ((ucast (getTick (os_clock os k)) :: u64) - LastActivityStamp s) \<ge> PacketTimeout s * 1000"

section \<open>Downloads\<close>

text \<open>A download that waits for an acknowledgement.\<close>

definition awaiting_ack :: "world \<Rightarrow> session \<Rightarrow> bool" where
  "awaiting_ack w s \<longleftrightarrow> session_inv s \<and> SelectedOperation s = TFTP_OP_SERVER_TO_CLIENT \<and>
     int_ok (data_offset s) \<and> int_ok (PacketTimeout s * 1000) \<and> LastRecvPktSize s \<le> 0 \<and> CommSocket s \<noteq> - 1 \<and>
     Error s = TFTP_ERR_NO_ERROR \<and> TransferDone s \<noteq> 1 \<and> WindowRetryCount s = 0"

text \<open>
  On a network that takes every datagram a window only fails at the limit of bytes, which counts what
  is sent again, too.
\<close>

lemma data_loop_error:
  assumes "sends_ok os" and "data_loop os sConf n i f w s = (fin, w', s')"
  shows "(fin \<longrightarrow> Error s' = Error s) \<and>
    (\<not> fin \<longrightarrow> Error s' = TFTP_ERR_DISK_FULL \<and> KillConnectionAfterxBytesReceived sConf \<noteq> 0)"
  using assms(2)
proof (induction n arbitrary: i f w s)
  case (Suc n)
  obtain payload f1 where rd: "fread (disk w) f (nat (BlockSize s)) = (payload, f1)" by fastforce
  obtain r w1 where sd: "sys_send os w (CommSocket s)
      (data_packet (word_of_int (FirstBlockInWindow s + i)) payload) = (r, w1)" by fastforce
  have r: "r = int (4 + length payload)" using sys_send_ok [OF assms(1)] sd by simp
  note step = Suc.prems [unfolded data_loop_Suc [OF rd sd] r]
  define s1 where "s1 = (read_state f1 payload s)\<lparr>BytesHandled := BytesHandled s + of_nat (length payload)\<rparr>"
  have e: "Error s1 = Error s" "BytesHandled s1 = BytesHandled s + of_nat (length payload)" by (simp_all add: s1_def read_state_def)
  note step = step [folded s1_def]
  show ?case
  proof (cases "over_limit sConf (BytesHandled s1)")
    case True
    with step show ?thesis by (auto simp: over_limit_def)
  next
    case False
    then show ?thesis using step e Suc.IH [of "i + 1" f1 w1 s1] by (auto split: if_splits)
  qed
qed simp

definition stopped_by_limit :: "AppConfig \<Rightarrow> session \<Rightarrow> bool" where
  "stopped_by_limit sConf s \<longleftrightarrow> KillConnectionAfterxBytesReceived sConf \<noteq> 0 \<and> Error s = TFTP_ERR_DISK_FULL \<and>
     LastRecvPktSize s \<le> 0 \<and> CommSocket s \<noteq> - 1"

lemma SMSG_DATA_resend:
  assumes os: "lossless os" and aw: "awaiting_ack w s"
  shows "\<exists>w' s'. SMSG_DATA os sConf 1 w1 (s\<lparr>LastRecvPktSize := - 1, WindowRetryCount := n\<rparr>) = Inr (w', s') \<and>
    CommSocket s' = CommSocket s \<and> (awaiting_ack w' s' \<or> stopped_by_limit sConf s')"
proof -
  let ?s = "s\<lparr>LastRecvPktSize := - 1, WindowRetryCount := n\<rparr>"
  have inv: "session_inv ?s" and sel: "SelectedOperation ?s = TFTP_OP_SERVER_TO_CLIENT"
    and off: "int_ok (data_offset ?s)" using aw by (simp_all add: awaiting_ack_def data_offset_def)
  then obtain f where f: "hFile ?s = Some f" and fb: "1 \<le> FirstBlockInWindow ?s" and r: "ranges_ok ?s"
    by (auto simp: session_inv_defs)
  obtain w' s' where run: "SMSG_DATA os sConf 1 w1 ?s = Inr (w', s')" using SMSG_DATA_defined [OF r] off by blast
  obtain new where fr: "data_frame w1 ?s new w' s'" using SMSG_DATA_frame [OF run f r fb] by blast
  note fs = data_frame_simps [OF fr]
  have "os_malloc os (calls w1)" "sends_ok os" using os by (simp_all add: lossless_def)
  with run off obtain fin w2 s2 f0 ts where
    dl: "data_loop os sConf (nat (WindowSize s)) 0 f0 (next_call w1) (?s\<lparr>hFile := Some f0\<rparr>) = (fin, w2, s2)"
    and s': "s' = (if fin then s2\<lparr>WindowRetryCount := 0, LastActivityStamp := ts\<rparr> else s2)"
    unfolding SMSG_DATA_unfold [OF f r] by (auto simp: Let_def split: prod.splits bool.splits)
  have "Error s = TFTP_ERR_NO_ERROR" using aw by (simp add: awaiting_ack_def)
  then have e: "Error s' = TFTP_ERR_NO_ERROR \<and> WindowRetryCount s' = 0 \<or>
      Error s' = TFTP_ERR_DISK_FULL \<and> KillConnectionAfterxBytesReceived sConf \<noteq> 0"
    using data_loop_error [OF \<open>sends_ok os\<close> dl] s' by (cases fin) simp_all
  have "session_inv s'" by (rule data_frame_inv [OF fr inv])
  then show ?thesis
    using run e fs aw by (auto simp: awaiting_ack_def stopped_by_limit_def data_offset_def)
qed

lemma awaiting_turn:
  assumes os: "lossless os" and none: "\<forall>k fd. os_recv os k fd = None" and mx: "2 \<le> RetryResendPacketMax sConf"
    and aw: "awaiting_ack w s"
  shows "\<exists>w' s'. thread_turn os sConf w s = Inr (True, w', s') \<and> CommSocket s' = CommSocket s \<and>
    (awaiting_ack w' s' \<or> stopped_by_limit sConf s')"
proof -
  let ?w = "w\<lparr>calls := calls w + 4\<rparr>" let ?s = "s\<lparr>LastRecvPktSize := - 1\<rparr>"
  note a = aw [unfolded awaiting_ack_def]
  have turn: "thread_turn os sConf w s = on_silence os sConf ?w ?s"
    using a none by (intro thread_turn_silent) simp_all
  have c: "c_int (PacketTimeout s * 1000) = Inr (PacketTimeout s * 1000)" "c_int (1 :: int) = Inr 1"
    using a by (auto intro!: c_int_ok int_okI)
  show ?thesis
  proof (cases "timed_out os (calls w + 4) s")
    case False
    then have "on_silence os sConf ?w ?s = Inr (True, next_call ?w, ?s)"
      using c by (simp add: on_silence_def sys_tick_def timed_out_def)
    moreover have "awaiting_ack (next_call ?w) ?s" using a by (simp add: awaiting_ack_def data_offset_def)
    ultimately show ?thesis using turn by simp
  next
    case True
    from SMSG_DATA_resend [OF os aw, of sConf "next_call ?w" 1] obtain w' s' where
      r: "SMSG_DATA os sConf 1 (next_call ?w) (s\<lparr>LastRecvPktSize := - 1, WindowRetryCount := 1\<rparr>) = Inr (w', s')"
        "CommSocket s' = CommSocket s" "awaiting_ack w' s' \<or> stopped_by_limit sConf s'" by blast
    have "on_silence os sConf ?w ?s = Inr (True, w', s')"
      using True c a mx r(1) by (simp add: on_silence_def sys_tick_def timed_out_def Let_def)
    then show ?thesis using turn r(2,3) by simp
  qed
qed

lemma stopped_turn:
  assumes "stopped_by_limit sConf s"
  shows "\<exists>w' s' r. thread_turn os sConf w s = Inr (False, w', s') \<and> Error s' = TFTP_ERR_UNDEFINED \<and>
    last (sends w') = (CommSocket s, error_packet 0 (error_text TFTP_ERR_DISK_FULL), r)"
proof -
  have "report_packet os w s = Inr (w\<lparr>calls := calls w + 3\<rparr>)"
    using assms by (cases "LastRecvPacket s")
      (simp_all add: stopped_by_limit_def report_packet_def AWS_SQS_OnPacketArrived_def Let_def)
  then show ?thesis
    using assms by (simp add: stopped_by_limit_def thread_turn_def SMSG_Error_eq reported_def INVALID_SOCKET_2_def Let_def)
qed

text \<open>
  C8. A download whose client has fallen silent is never given up for its retries, however often it
  times out: the resend clears the count of the retries it belongs to. For any number of turns the
  loop goes on; only the limit of bytes, when one is configured, can end it, because what is sent
  again is counted once more, and then the client gets an error packet. Without a limit nothing
  ends it.
\<close>

theorem silent_download_never_given_up:
  assumes "lossless os" and "\<forall>k fd. os_recv os k fd = None" and "2 \<le> RetryResendPacketMax sConf" and "awaiting_ack w s"
  shows "thread_loop os sConf fuel w s = Inr None \<or>
    KillConnectionAfterxBytesReceived sConf \<noteq> 0 \<and>
    (\<exists>w' s' r. thread_loop os sConf fuel w s = Inr (Some (w', s')) \<and> Error s' = TFTP_ERR_UNDEFINED \<and>
       last (sends w') = (CommSocket s, error_packet 0 (error_text TFTP_ERR_DISK_FULL), r))"
  using assms(4)
proof (induction fuel arbitrary: w s)
  case (Suc fuel)
  from awaiting_turn [OF assms(1-3) Suc.prems] obtain w' s' where
    t: "thread_turn os sConf w s = Inr (True, w', s')" "CommSocket s' = CommSocket s"
    and st: "awaiting_ack w' s' \<or> stopped_by_limit sConf s'" by blast
  from st show ?case
  proof
    assume "awaiting_ack w' s'"
    with Suc.IH t show ?thesis by fastforce
  next
    assume stop: "stopped_by_limit sConf s'"
    from stopped_turn [OF this, of os w'] obtain w2 s2 r where "thread_turn os sConf w' s' = Inr (False, w2, s2)"
      "Error s2 = TFTP_ERR_UNDEFINED" "last (sends w2) = (CommSocket s', error_packet 0 (error_text TFTP_ERR_DISK_FULL), r)"
      by blast
    then show ?thesis using t stop by (cases fuel) (auto simp: stopped_by_limit_def)
  qed
qed simp

section \<open>Uploads\<close>

text \<open>An upload that waits for data; its last activity was call \<open>i\<close>.\<close>

definition awaiting_data :: "os \<Rightarrow> nat \<Rightarrow> world \<Rightarrow> session \<Rightarrow> bool" where
  "awaiting_data os i w s \<longleftrightarrow> session_inv s \<and> SelectedOperation s = TFTP_OP_CLIENT_TO_SERVER \<and>
     0 \<le> PacketTimeout s \<and> PacketTimeout s \<le> 2147483 \<and> LastRecvPktSize s \<le> 0 \<and> CommSocket s \<noteq> - 1 \<and>
     Error s = TFTP_ERR_NO_ERROR \<and> TransferDone s \<noteq> 1 \<and>
     i < calls w \<and> LastActivityStamp s = ucast (getTick (os_clock os i))"

text \<open>
  A clock that runs up to call \<open>hi\<close>, without wrapping: it never goes back, and the five calls of a
  turn without a packet, one of which waits for the client, take a millisecond at least.
\<close>

definition clock_runs :: "os \<Rightarrow> nat \<Rightarrow> bool" where
  "clock_runs os hi \<longleftrightarrow> (\<forall>i j. i \<le> j \<longrightarrow> j \<le> hi \<longrightarrow>
     uint (getTick (os_clock os i)) \<le> uint (getTick (os_clock os j)) \<and>
     (i + 5 \<le> j \<longrightarrow> uint (getTick (os_clock os i)) + 1 \<le> uint (getTick (os_clock os j))))"

text \<open>The number the session acknowledges: the last block it has without a gap.\<close>

definition next_ack :: "session \<Rightarrow> u16" where
  "next_ack s = word_of_int (FirstBlockInWindow s + received_prefix (the (BlockNrInWindowReceived s)))"

lemma tick_difference:
  assumes "uint (a :: u32) \<le> uint (b :: u32)"
  shows "sint ((ucast b :: u64) - ucast a) = uint b - uint a"
proof -
  have b: "uint b < 4294967296" "0 \<le> uint a" using unsigned_less [of b, where ?'a = int] by simp_all
  have "uint ((ucast b :: u64) - ucast a) = uint b - uint a"
  proof -
    have "(uint b - uint a) mod 18446744073709551616 = uint b - uint a"
      by (rule mod_pos_pos_trivial) (use assms b in linarith)+
    then show ?thesis using b by (simp add: uint_word_ariths unsigned_ucast_eq take_bit_eq_mod)
  qed
  moreover have "signed_take_bit 63 (uint b - uint a) = uint b - uint a"
    by (rule signed_take_bit_int_eq_self) (use assms b in \<open>simp_all, linarith\<close>)
  ultimately show ?thesis by (simp add: sint_uint)
qed

text \<open>
  The tick has 32 bits: once it has wrapped, the difference is negative and nothing times out until
  the tick has caught up.
\<close>

lemma tick_difference_signed: "sint ((ucast (b :: u32) :: u64) - ucast (a :: u32)) = uint b - uint a"
proof (cases "uint a \<le> uint b")
  case False
  have "sint (- ((ucast a :: u64) - ucast b)) = - sint ((ucast a :: u64) - ucast b)"
  proof -
    have d: "sint ((ucast a :: u64) - ucast b) = uint a - uint b" using False by (intro tick_difference) simp
    have r: "0 \<le> uint a - uint b" "uint a - uint b < 4294967296"
      using False unsigned_less [of a, where ?'a = int] unsigned_greater_eq [of b, where ?'a = int] by (simp, simp, linarith)
    have m: "sint (- x) = - sint x" if "sint x \<noteq> - (2 ^ 63)" for x :: u64
      using that sint_greater_eq [of x] sint_less [of x]
      by (simp add: sint_word_ariths signed_take_bit_int_eq_self)
    show ?thesis by (rule m) (use d r in simp)
  qed
  moreover have "uint b \<le> uint a" using False by simp
  ultimately show ?thesis using tick_difference [of b a] by simp
qed (rule tick_difference)

lemma wrapped_tick:
  assumes "LastActivityStamp s = ucast (getTick (os_clock os i))" and "0 \<le> PacketTimeout s"
    and "uint (getTick (os_clock os j)) < uint (getTick (os_clock os i))"
  shows "\<not> timed_out os j s"
  using assms by (simp add: timed_out_def tick_difference_signed)

text \<open>
  C40. The tick has 32 bits: once it has wrapped, the difference to the last activity is negative, and
  a session whose client is silent neither sends anything again nor counts a retry, however long the
  client has been silent, until the tick has caught up.
\<close>

theorem wrapped_tick_never_times_out:
  assumes "LastActivityStamp s = ucast (getTick (os_clock os i))"
    and "0 \<le> PacketTimeout s" and "PacketTimeout s \<le> 2147483"
    and "uint (getTick (os_clock os (calls w + 4))) < uint (getTick (os_clock os i))"
    and "LastRecvPktSize s \<le> 0" and "CommSocket s \<noteq> - 1" and "Error s = TFTP_ERR_NO_ERROR"
    and "TransferDone s \<noteq> 1" and "os_recv os (calls w + 3) (CommSocket s) = None"
  shows "thread_turn os sConf w s = Inr (True, w\<lparr>calls := calls w + 5\<rparr>, s\<lparr>LastRecvPktSize := - 1\<rparr>)"
proof -
  have "c_int (PacketTimeout s * 1000) = Inr (PacketTimeout s * 1000)"
    using assms(2,3) by (intro c_int_ok int_okI) linarith+
  then show ?thesis
    using wrapped_tick [OF assms(1,2,4)] unfolding thread_turn_silent [OF assms(5-9)]
    by (simp add: on_silence_def sys_tick_def timed_out_def next_call_def)
qed

text \<open>Sending the acknowledgement again clears the window, and the number stays what it was.\<close>

lemma received_prefix_zeros [simp]: "received_prefix (replicate n 0) = 0"
  by (cases n) (simp_all add: received_prefix_def)

lemma upload_resend:
  assumes os: "lossless os" and aw: "awaiting_data os i w s"
  shows "\<exists>w' s'. SMSG_ACK_Block os 1 w1 (s\<lparr>LastRecvPktSize := - 1, WindowRetryCount := n\<rparr>) = Inr (w', s') \<and>
    calls w' = calls w1 + 2 \<and> WindowRetryCount s' = n \<and> PacketTimeout s' = PacketTimeout s \<and>
    CommSocket s' = CommSocket s \<and> next_ack s' = next_ack s \<and> awaiting_data os (calls w1 + 1) w' s' \<and>
    sends w' = sends w1 @ [(CommSocket s, ack_packet (next_ack s), 4)]"
proof -
  let ?s = "s\<lparr>LastRecvPktSize := - 1, WindowRetryCount := n\<rparr>"
  have inv: "session_inv ?s" and sel: "SelectedOperation ?s = TFTP_OP_CLIENT_TO_SERVER"
    using aw by (simp_all add: awaiting_data_def)
  then obtain arr where arr: "BlockNrInWindowReceived ?s = Some arr" "int (length arr) = WindowSize ?s"
    by (auto simp: session_inv_defs)
  define nr where "nr = (word_of_int (FirstBlockInWindow ?s + received_prefix arr) :: u16)"
  have nr: "nr = next_ack s" using arr(1) by (simp add: nr_def next_ack_def)
  define w' where "w' = w1\<lparr>calls := calls w1 + 2, sends := sends w1 @ [(CommSocket s, ack_packet nr, 4)]\<rparr>"
  define s' where "s' = ?s\<lparr>FirstBlockInWindow := uint nr, BlockNrInWindowReceived := Some (replicate (length arr) 0),
    LastActivityStamp := ucast (getTick (os_clock os (calls w1 + 1)))\<rparr>"
  have "os_send os (calls w1) (CommSocket s) (ack_packet nr) = 4"
    using os by (simp add: lossless_def sends_ok_def)
  then have run: "SMSG_ACK_Block os 1 w1 ?s = Inr (w', s')"
    unfolding SMSG_ACK_Block_eq [OF arr] nr_def [symmetric]
    by (simp add: sys_send_def sys_tick_def Let_def w'_def s'_def next_call_def)
  have "session_inv s'" by (rule ACK_Block_inv [OF run inv sel])
  then have "awaiting_data os (calls w1 + 1) w' s'"
    using aw by (simp add: awaiting_data_def w'_def s'_def)
  moreover have "next_ack s' = nr" by (simp add: next_ack_def s'_def)
  ultimately show ?thesis using run nr by (intro exI [of _ w'] exI [of _ s']) (simp add: w'_def s'_def)
qed

text \<open>
  Waiting: as long as the timeout has not passed, a turn leaves the session as it is. After at most
  as many turns as the timeout has milliseconds, it has passed.
\<close>

definition same_upload :: "session \<Rightarrow> session \<Rightarrow> bool" where
  "same_upload s s' \<longleftrightarrow> WindowRetryCount s' = WindowRetryCount s \<and> PacketTimeout s' = PacketTimeout s \<and>
     CommSocket s' = CommSocket s \<and> next_ack s' = next_ack s"

lemma upload_waits_for_timeout:
  assumes none: "\<forall>k fd. os_recv os k fd = None" and clk: "clock_runs os hi"
  shows "awaiting_data os i w s \<Longrightarrow> calls w + 5 * m + 4 \<le> hi \<Longrightarrow>
    PacketTimeout s * 1000 \<le> uint (getTick (os_clock os (calls w + 4))) - uint (getTick (os_clock os i)) + int m \<Longrightarrow>
    \<exists>j w' s'. j \<le> m \<and> (\<forall>fuel. thread_loop os sConf (j + fuel) w s = thread_loop os sConf fuel w' s') \<and>
      calls w' = calls w + 5 * j \<and> sends w' = sends w \<and> same_upload s s' \<and> awaiting_data os i w' s' \<and>
      timed_out os (calls w' + 4) s'"
proof (induction m arbitrary: w s)
  let ?t = "\<lambda>k. uint (getTick (os_clock os k))"
  case (0 w s)
  have "?t i \<le> ?t (calls w + 4)" using clk 0 by (simp add: clock_runs_def awaiting_data_def)
  then have "timed_out os (calls w + 4) s"
    using 0 by (simp add: timed_out_def awaiting_data_def tick_difference)
  with 0 show ?case by (intro exI [of _ 0] exI [of _ w] exI [of _ s]) (simp add: same_upload_def)
next
  let ?t = "\<lambda>k. uint (getTick (os_clock os k))"
  case (Suc m w s)
  show ?case
  proof (cases "timed_out os (calls w + 4) s")
    case True
    with Suc.prems show ?thesis by (intro exI [of _ 0] exI [of _ w] exI [of _ s]) (simp add: same_upload_def)
  next
    case False
    note a = Suc.prems(1) [unfolded awaiting_data_def]
    let ?w = "w\<lparr>calls := calls w + 4\<rparr>" and ?s = "s\<lparr>LastRecvPktSize := - 1\<rparr>"
    have "c_int (PacketTimeout s * 1000) = Inr (PacketTimeout s * 1000)"
      using a by (auto intro!: c_int_ok int_okI)
    then have "on_silence os sConf ?w ?s = Inr (True, next_call ?w, ?s)"
      using False by (simp add: on_silence_def sys_tick_def timed_out_def)
    then have turn: "thread_turn os sConf w s = Inr (True, next_call ?w, ?s)"
      using thread_turn_silent [of s os w] a none by simp
    have aw: "awaiting_data os i (next_call ?w) ?s" using a by (simp add: awaiting_data_def)
    have "?t (calls w + 4) + 1 \<le> ?t (calls w + 4 + 5)" using clk Suc.prems(2) by (simp add: clock_runs_def)
    then have late: "PacketTimeout ?s * 1000 \<le> ?t (calls (next_call ?w) + 4) - ?t i + int m"
      using Suc.prems(3) by (simp add: eval_nat_numeral)
    have "calls (next_call ?w) + 5 * m + 4 \<le> hi" using Suc.prems(2) by simp
    from Suc.IH [OF aw this late] obtain j w' s' where
      ih: "j \<le> m" "\<forall>fuel. thread_loop os sConf (j + fuel) (next_call ?w) ?s = thread_loop os sConf fuel w' s'"
        "calls w' = calls (next_call ?w) + 5 * j" "sends w' = sends w" "same_upload ?s s'" "awaiting_data os i w' s'"
        "timed_out os (calls w' + 4) s'" by auto
    then show ?thesis
      using turn by (intro exI [of _ "Suc j"] exI [of _ w'] exI [of _ s']) (simp add: same_upload_def next_ack_def)
  qed
qed

text \<open>The turn in which the timeout has passed: the session is given up, or the acknowledgement goes out again.\<close>

lemma upload_timeout_turn:
  assumes os: "lossless os" and none: "\<forall>k fd. os_recv os k fd = None"
    and aw: "awaiting_data os i w s" and late: "timed_out os (calls w + 4) s"
    and cnt: "0 \<le> WindowRetryCount s" "WindowRetryCount s < 2147483647"
  shows "if RetryResendPacketMax sConf \<le> WindowRetryCount s + 1
    then \<exists>w' s'. thread_turn os sConf w s = Inr (False, w', s') \<and> sends w' = sends w \<and>
      WindowRetryCount s' = WindowRetryCount s + 1 \<and> TransferDone s' \<noteq> 1
    else \<exists>w' s'. thread_turn os sConf w s = Inr (True, w', s') \<and> calls w' = calls w + 7 \<and>
      WindowRetryCount s' = WindowRetryCount s + 1 \<and> PacketTimeout s' = PacketTimeout s \<and>
      CommSocket s' = CommSocket s \<and> next_ack s' = next_ack s \<and> awaiting_data os (calls w + 6) w' s' \<and>
      sends w' = sends w @ [(CommSocket s, ack_packet (next_ack s), 4)]"
proof -
  let ?w = "w\<lparr>calls := calls w + 4\<rparr>" and ?s = "s\<lparr>LastRecvPktSize := - 1\<rparr>"
  note a = aw [unfolded awaiting_data_def]
  have turn: "thread_turn os sConf w s = on_silence os sConf ?w ?s"
    using a none by (intro thread_turn_silent) simp_all
  have c: "c_int (PacketTimeout s * 1000) = Inr (PacketTimeout s * 1000)"
    "c_int (WindowRetryCount s + 1) = Inr (WindowRetryCount s + 1)"
    using a cnt by (auto intro!: c_int_ok int_okI)
  show ?thesis
  proof (cases "RetryResendPacketMax sConf \<le> WindowRetryCount s + 1")
    case True
    then have "on_silence os sConf ?w ?s = Inr (False, next_call ?w, ?s\<lparr>WindowRetryCount := WindowRetryCount s + 1\<rparr>)"
      using late c by (simp add: on_silence_def sys_tick_def timed_out_def Let_def)
    with True turn a show ?thesis by simp
  next
    case False
    from upload_resend [OF os aw, of "next_call ?w" "WindowRetryCount s + 1"] obtain w1 s1 where
      r: "SMSG_ACK_Block os 1 (next_call ?w) (s\<lparr>LastRecvPktSize := - 1, WindowRetryCount := WindowRetryCount s + 1\<rparr>)
          = Inr (w1, s1)" "calls w1 = calls w + 7" "WindowRetryCount s1 = WindowRetryCount s + 1"
        "PacketTimeout s1 = PacketTimeout s" "CommSocket s1 = CommSocket s" "next_ack s1 = next_ack s"
        "awaiting_data os (calls w + 6) w1 s1" "sends w1 = sends w @ [(CommSocket s, ack_packet (next_ack s), 4)]"
      by (auto simp: add.commute)
    have "on_silence os sConf ?w ?s = Inr (True, w1, s1)"
      using late c False r(1) a by (simp add: on_silence_def sys_tick_def timed_out_def Let_def)
    with False turn r show ?thesis by simp
  qed
qed

text \<open>
  C9. An upload whose client has fallen silent ends: with a clock that runs and does not wrap, the
  same acknowledgement is sent again as often as retries are left, \<open>RetryResendPacketMax - 1\<close> times when
  none was counted, and then the session is left without success and without an error packet. The
  number of turns is bounded by the timeout in milliseconds.
\<close>

theorem silent_upload_given_up:
  assumes os: "lossless os" and none: "\<forall>k fd. os_recv os k fd = None"
    and mx: "RetryResendPacketMax sConf \<le> 2147483647" and clk: "clock_runs os hi"
  shows "awaiting_data os i w s \<Longrightarrow> 0 \<le> WindowRetryCount s \<Longrightarrow> WindowRetryCount s < 2147483647 \<Longrightarrow>
    n = nat (RetryResendPacketMax sConf - 1 - WindowRetryCount s) \<Longrightarrow> M = nat (PacketTimeout s * 1000) \<Longrightarrow>
    calls w + Suc n * (5 * M + 7) \<le> hi \<Longrightarrow>
    \<exists>w' s'. thread_loop os sConf (Suc n * (M + 1)) w s = Inr (Some (w', s')) \<and>
      sends w' = sends w @ replicate n (CommSocket s, ack_packet (next_ack s), 4) \<and>
      RetryResendPacketMax sConf \<le> WindowRetryCount s' \<and> TransferDone s' \<noteq> 1"
proof (induction n arbitrary: i w s)
  let ?t = "\<lambda>k. uint (getTick (os_clock os k))"
  case (0 i w s)
  have "?t i \<le> ?t (calls w + 4)" using clk "0.prems" by (simp add: clock_runs_def awaiting_data_def)
  moreover have "0 \<le> PacketTimeout s" using "0.prems"(1) by (simp add: awaiting_data_def)
  ultimately have "PacketTimeout s * 1000 \<le> ?t (calls w + 4) - ?t i + int M" using "0.prems"(5) by simp
  from upload_waits_for_timeout [OF none clk "0.prems"(1) _ this, of sConf] "0.prems"(6) obtain j w1 s1 where
    j: "j \<le> M" "\<forall>fuel. thread_loop os sConf (j + fuel) w s = thread_loop os sConf fuel w1 s1" "sends w1 = sends w"
      "same_upload s s1" "awaiting_data os i w1 s1" "timed_out os (calls w1 + 4) s1" by auto
  have c: "0 \<le> WindowRetryCount s1" "WindowRetryCount s1 < 2147483647" "RetryResendPacketMax sConf \<le> WindowRetryCount s1 + 1"
    using j(4) "0.prems"(2-4) by (simp_all add: same_upload_def)
  from upload_timeout_turn [OF os none j(5,6) c(1,2), of sConf] c(3) obtain w2 s2 where
    t: "thread_turn os sConf w1 s1 = Inr (False, w2, s2)" "sends w2 = sends w1"
      "WindowRetryCount s2 = WindowRetryCount s1 + 1" "TransferDone s2 \<noteq> 1" by auto
  have "thread_loop os sConf (j + Suc 0) w s = Inr (Some (w2, s2))"
    unfolding j(2) [rule_format] using t(1) by simp
  then have "thread_loop os sConf (Suc 0 * (M + 1)) w s = Inr (Some (w2, s2))"
    by (rule thread_loop_more) (use j(1) in simp)
  then show ?case using t c j(3) by simp
next
  let ?t = "\<lambda>k. uint (getTick (os_clock os k))"
  case (Suc n i w s)
  have hi: "calls w + 5 * M + 7 + Suc n * (5 * M + 7) \<le> hi" using Suc.prems(6) by simp
  have "?t i \<le> ?t (calls w + 4)" using clk Suc.prems(1) hi by (simp add: clock_runs_def awaiting_data_def)
  moreover have "0 \<le> PacketTimeout s" using Suc.prems(1) by (simp add: awaiting_data_def)
  ultimately have "PacketTimeout s * 1000 \<le> ?t (calls w + 4) - ?t i + int M" using Suc.prems(5) by simp
  moreover have "calls w + 5 * M + 4 \<le> hi" using hi by simp
  ultimately obtain j w1 s1 where
    j: "j \<le> M" "\<forall>fuel. thread_loop os sConf (j + fuel) w s = thread_loop os sConf fuel w1 s1" "sends w1 = sends w"
      "same_upload s s1" "awaiting_data os i w1 s1" "timed_out os (calls w1 + 4) s1" "calls w1 = calls w + 5 * j"
    using upload_waits_for_timeout [OF none clk Suc.prems(1), of M sConf] by blast
  note same = j(4) [unfolded same_upload_def]
  have c: "0 \<le> WindowRetryCount s1" "WindowRetryCount s1 < 2147483647" "\<not> RetryResendPacketMax sConf \<le> WindowRetryCount s1 + 1"
    using same Suc.prems(2-4) by (simp, simp, linarith)
  from upload_timeout_turn [OF os none j(5,6) c(1,2), of sConf] c(3) obtain w2 s2 where
    t: "thread_turn os sConf w1 s1 = Inr (True, w2, s2)" "calls w2 = calls w1 + 7"
      "WindowRetryCount s2 = WindowRetryCount s1 + 1" "PacketTimeout s2 = PacketTimeout s1" "CommSocket s2 = CommSocket s1"
      "next_ack s2 = next_ack s1" "awaiting_data os (calls w1 + 6) w2 s2"
      "sends w2 = sends w1 @ [(CommSocket s1, ack_packet (next_ack s1), 4)]" by auto
  have n: "n = nat (RetryResendPacketMax sConf - 1 - WindowRetryCount s2)" using Suc.prems(4) t(3) same by linarith
  have r: "0 \<le> WindowRetryCount s2" "WindowRetryCount s2 < 2147483647" using t(3) c mx by linarith+
  have M: "M = nat (PacketTimeout s2 * 1000)" using Suc.prems(5) t(4) same by simp
  have "calls w2 \<le> calls w + 5 * M + 7" using t(2) j(1,7) by simp
  then have h: "calls w2 + Suc n * (5 * M + 7) \<le> hi" using hi by linarith
  from Suc.IH [OF t(7) r n M h] obtain w' s' where
    ih: "thread_loop os sConf (Suc n * (M + 1)) w2 s2 = Inr (Some (w', s'))"
      "sends w' = sends w2 @ replicate n (CommSocket s2, ack_packet (next_ack s2), 4)"
      "RetryResendPacketMax sConf \<le> WindowRetryCount s'" "TransferDone s' \<noteq> 1" by blast
  have "thread_loop os sConf (j + Suc (Suc n * (M + 1))) w s = Inr (Some (w', s'))"
    unfolding j(2) [rule_format] using t(1) ih(1) by simp
  then have "thread_loop os sConf (Suc (Suc n) * (M + 1)) w s = Inr (Some (w', s'))"
    by (rule thread_loop_more) (use j(1) in simp)
  then show ?case using ih(2-4) t(5,6,8) j(3) same by (intro exI [of _ w'] exI [of _ s']) simp
qed

end
