(* ===== verification/Limits.thy ===== *)
theory Limits
  imports Upload Sound
begin

text \<open>
  Where transfers stop making progress or stop being right: block numbers of 16 bits, offsets of
  32 bits, the end of a window of a download and windows of an upload.
\<close>

section \<open>Block numbers\<close>

text \<open>After block 65535 of a download no acknowledgement is in the window any more.\<close>

lemma no_ack_counts:
  assumes inv: "session_inv s" and sel: "SelectedOperation s = TFTP_OP_SERVER_TO_CLIENT"
    and fb: "FirstBlockInWindow s = 65536" and nr: "packet_u16 s 2 = Inr nr" and sz: "4 \<le> sz"
  shows "CMSG_ACK os sConf sz w s = Inr (- 1, w, s)"
proof -
  have "1 \<le> WindowSize s" "WindowSize s \<le> 65535" using inv by (simp_all add: session_inv_def ranges_ok_def)
  then have c: "c_int (FirstBlockInWindow s + WindowSize s) = Inr (FirstBlockInWindow s + WindowSize s)"
    "c_int (FirstBlockInWindow s + WindowSize s - 1) = Inr (FirstBlockInWindow s + WindowSize s - 1)"
    unfolding fb by (auto intro!: c_int_ok int_okI)
  have "uint nr < FirstBlockInWindow s" using uint_u16_bounds [of nr] fb by linarith
  then show ?thesis using sel nr sz c by (simp add: CMSG_ACK_def EnsureHaveEnoughPacketBytes_def Let_def)
qed

text \<open>However many acknowledgements a client sends then, the session sends nothing and does not end.\<close>

definition exhausted :: "session \<Rightarrow> bool" where
  "exhausted s \<longleftrightarrow> session_inv s \<and> SelectedOperation s = TFTP_OP_SERVER_TO_CLIENT \<and> FirstBlockInWindow s = 65536 \<and>
     Error s = TFTP_ERR_NO_ERROR \<and> TransferDone s = 0 \<and> CommSocket s \<noteq> - 1"

text \<open>
  C16. After block 65535 of a download no acknowledgement counts any more: whatever blocks the client
  acknowledges, the session sends nothing and does not end.
\<close>

theorem download_stops_at_65535:
  assumes "exhausted s" and "sqs_inv (sqs w)"
  shows "\<exists>w' s'. serve os sConf (map ack_packet ns) w s = Inr (w', s') \<and> exhausted s' \<and>
    sends w' = sends w \<and> disk w' = disk w"
  using assms
proof (induction ns arbitrary: s w)
  case (Cons n ns)
  let ?d = "delivered_session (ack_packet n) s"
  have inv: "session_inv s" using Cons.prems by (simp add: exhausted_def)
  have bs: "8 \<le> BlockSize s" using inv by (simp add: session_inv_def ranges_ok_def)
  have d: "exhausted ?d" "session_inv ?d"
    using Cons.prems(1) delivered_inv [OF inv, of "ack_packet n"] bs by (simp_all add: exhausted_def)
  have "packet_u16 ?d 2 = Inr n"
    using delivered_u16(2) [OF inv, of "[]" OP_ACK n] bs by (simp add: ack_packet_def)
  then have run: "CMSG_ACK os sConf 4 w ?d = Inr (- 1, w, ?d)"
    using d by (intro no_ack_counts [where nr = n]) (simp_all add: exhausted_def)
  obtain w2 where w2: "disk w2 = disk w" "sends w2 = sends w" "sqs_inv (sqs w2)"
    "serve os sConf (map ack_packet (n # ns)) w s = serve os sConf (map ack_packet ns) (next_call w2) ?d"
    using serve_ack [OF inv run Cons.prems(2) d(2), of "map ack_packet ns"] d(1) by (auto simp: exhausted_def simp del: serve.simps)
  then show ?case using Cons.IH [OF d(1), of "next_call w2"] by simp
qed simp

text \<open>After block 65535 of an upload no data is new any more.\<close>

definition upload_exhausted :: "session \<Rightarrow> bool" where
  "upload_exhausted s \<longleftrightarrow> session_inv s \<and> SelectedOperation s = TFTP_OP_CLIENT_TO_SERVER \<and> FirstBlockInWindow s = 65535 \<and>
     Error s = TFTP_ERR_NO_ERROR \<and> TransferDone s = 0 \<and> CommSocket s \<noteq> - 1"

lemma no_data_counts:
  assumes "SelectedOperation s = TFTP_OP_CLIENT_TO_SERVER" and "FirstBlockInWindow s = 65535"
    and "packet_u16 s 2 = Inr nr" and "4 \<le> sz" and "\<not> over_limit sConf (BytesHandled s + of_nat sz)"
  shows "CMSG__DATA os sConf sz w s = Inr (- 1, w, counted sz s)"
  using assms uint_u16_bounds [of nr] by (simp add: DATA_eq)

text \<open>
  C17. After block 65535 of an upload no data packet is new: whatever blocks the client sends, the
  server stores nothing and answers nothing. The session does not end either, unless a limit of bytes
  is configured and the ignored packets, which are counted, exceed it: then it fails.
\<close>

theorem upload_stops_at_65535:
  assumes "upload_exhausted s" and "sqs_inv (sqs w)" and "\<forall>(n, p) \<in> set ps. int (length p) \<le> BlockSize s"
  shows "\<exists>w' s'. serve os sConf (map (\<lambda>(n, p). data_packet n p) ps) w s = Inr (w', s') \<and> TransferDone s' = 0 \<and>
    disk w' = disk w \<and>
    (upload_exhausted s' \<and> sends w' = sends w \<or>
     KillConnectionAfterxBytesReceived sConf \<noteq> 0 \<and>
     (\<exists>r. sends w' = sends w @ [(CommSocket s, error_packet 0 (error_text TFTP_ERR_DISK_FULL), r)]))"
  using assms
proof (induction ps arbitrary: s w)
  case Nil
  then show ?case by (simp add: upload_exhausted_def)
next
  case (Cons np ps)
  obtain n p where np: "np = (n, p)" by fastforce
  have inv: "session_inv s" and len: "int (length p) \<le> BlockSize s" using Cons.prems by (simp_all add: upload_exhausted_def np)
  let ?d = "delivered_session (data_packet n p) s" let ?c = "counted (4 + length p) (delivered_session (data_packet n p) s)"
  let ?e = "?c\<lparr>Error := TFTP_ERR_DISK_FULL\<rparr>"
  have "session_inv ?d" using delivered_inv [OF inv, of "data_packet n p"] len by simp
  then have c: "upload_exhausted ?c" "BlockSize ?c = BlockSize s" "LastRecvPktSize ?c = int (4 + length p)" "CommSocket ?c = CommSocket s"
    using Cons.prems(1) by (simp_all add: upload_exhausted_def) (simp_all add: counted_def)
  then have i: "session_inv ?c" "session_inv ?e" by (simp_all add: upload_exhausted_def session_inv_defs)
  note sd = serve_data [OF inv len _ Cons.prems(2), where n = n and os = os and sConf = sConf and ps = "map (\<lambda>(n, p). data_packet n p) ps"]
  show ?case
  proof (cases "over_limit sConf (BytesHandled ?d + of_nat (4 + length p))")
    case True
    then have run: "CMSG__DATA os sConf (4 + length p) w ?d = Inr (- 1, w, ?e)"
      using Cons.prems(1) by (simp add: DATA_eq upload_exhausted_def)
    from sd [OF this i(2)] c obtain w2 where w2: "disk w2 = disk w" "sends w2 = sends w"
      "serve os sConf (map (\<lambda>(n, p). data_packet n p) (np # ps)) w s = Inr (SMSG_Error os w2 ?e)"
      by (auto simp: np upload_exhausted_def simp del: serve.simps)
    with True c show ?thesis by (auto simp: SMSG_Error_eq Let_def reported_def over_limit_def upload_exhausted_def simp del: serve.simps)
  next
    case False
    then have run: "CMSG__DATA os sConf (4 + length p) w ?d = Inr (- 1, w, ?c)"
      using Cons.prems(1) deliver_data(3) [OF inv len, of n]
      by (intro no_data_counts [where nr = n]) (simp_all add: upload_exhausted_def)
    from sd [OF this i(1)] c obtain w2 where w2: "disk w2 = disk w" "sends w2 = sends w" "sqs_inv (sqs w2)"
      and go: "serve os sConf (map (\<lambda>(n, p). data_packet n p) (np # ps)) w s =
        serve os sConf (map (\<lambda>(n, p). data_packet n p) ps) (next_call w2) ?c"
      by (auto simp: np upload_exhausted_def simp del: serve.simps)
    have "\<forall>(n, p) \<in> set ps. int (length p) \<le> BlockSize ?c" using Cons.prems(3) c(2) by auto
    with Cons.IH [OF c(1), of "next_call w2"] go w2 c(4) show ?thesis by simp
  qed
qed

section \<open>Offsets\<close>

text \<open>
  C18. The offset of a block is the product of two numbers in \<^verbatim>\<open>int\<close>: an acknowledgement in the
  window whose block number times the block size exceeds 2147483647 is a signed overflow.
\<close>

theorem offset_overflows:
  assumes inv: "session_inv s" and sel: "SelectedOperation s = TFTP_OP_SERVER_TO_CLIENT"
    and nr: "packet_u16 s 2 = Inr nr" and sz: "4 \<le> sz" and rd: "ReadDone s \<noteq> 1"
    and lo: "FirstBlockInWindow s \<le> uint nr" and hi: "uint nr \<le> FirstBlockInWindow s + WindowSize s - 1"
    and big: "2147483647 < uint nr * BlockSize s"
  shows "CMSG_ACK os sConf sz w s = Inl SignedOverflow"
proof -
  let ?s = "s\<lparr>FirstBlockInWindow := uint nr + 1\<rparr>"
  obtain f where f: "hFile ?s = Some f" using inv sel by (auto simp: session_inv_defs)
  have r: "ranges_ok ?s" using inv uint_u16_bounds [of nr] by (simp add: session_inv_def ranges_ok_def)
  have "\<not> int_ok (data_offset ?s)" using big by (simp add: data_offset_def int_ok_def INT_MAX_def)
  then have "SMSG_DATA os sConf 0 w ?s = Inl SignedOverflow" by (simp add: SMSG_DATA_unfold [OF f r])
  moreover have "0 \<le> FirstBlockInWindow s" "FirstBlockInWindow s \<le> 65536" "1 \<le> WindowSize s" "WindowSize s \<le> 65535"
    using inv by (simp_all add: session_inv_def ranges_ok_def)
  then have "c_int (FirstBlockInWindow s + WindowSize s) = Inr (FirstBlockInWindow s + WindowSize s)"
    "c_int (FirstBlockInWindow s + WindowSize s - 1) = Inr (FirstBlockInWindow s + WindowSize s - 1)"
    by (auto intro!: c_int_ok int_okI)
  ultimately show ?thesis
    using sel nr sz rd lo hi by (simp add: CMSG_ACK_def EnsureHaveEnoughPacketBytes_def Let_def not_less)
qed

section \<open>The last window of a download\<close>

text \<open>
  C11. The acknowledgement of any block of the last window of a download ends the session as a
  success, and whatever the client sends afterwards is not answered, so the blocks of the window
  that got lost are not sent again.
\<close>

theorem last_window_ends_early:
  assumes sent: "window_sent b W c fd k w s" and last: "blocks b c \<le> k + W"
    and n: "k < n" "n \<le> k + W" "n \<le> 65535" and fd: "fd \<noteq> - 1" and q: "sqs_inv (sqs w)"
  shows "\<exists>w' s'. serve os sConf (ack_packet (of_nat n) # ps) w s = Inr (w', s') \<and>
    TransferDone s' = 1 \<and> Error s' = TFTP_ERR_NO_ERROR \<and> sends w' = sends w \<and> disk w' = disk w"
proof -
  have sv: "serving b W c fd k w s" and rd: "ReadDone s = 1" using sent last by (simp_all add: window_sent_def)
  note D = servingD [OF sv]
  have s: "FirstBlockInWindow s = int k + 1" "WindowSize s = int W" "SelectedOperation s = TFTP_OP_SERVER_TO_CLIENT"
    "Error s = TFTP_ERR_NO_ERROR" "CommSocket s = fd" using sv by (simp_all add: serving_def)
  have u: "uint (of_nat n :: u16) = int n" using n by (intro uint_of_nat_u16)
  let ?d = "delivered_session (ack_packet (of_nat n)) s"
  let ?e = "?d\<lparr>FirstBlockInWindow := int n + 1, TransferDone := 1\<rparr>"
  have "FirstBlockInWindow s \<le> uint (of_nat n :: u16)" "uint (of_nat n :: u16) \<le> FirstBlockInWindow s + WindowSize s - 1"
    using n unfolding u s by linarith+
  from CMSG_ACK_in_window [OF D(4) s(3) this, of os sConf w]
  have run: "CMSG_ACK os sConf 4 w ?d = Inr (0, w, ?e)" using rd u by (simp add: Let_def)
  have "session_inv ?d" using delivered_inv [OF D(4), of "ack_packet (of_nat n)"] D(5) by (simp add: ranges_ok_def)
  then have "session_inv ?e" using n by (simp add: session_inv_defs)
  from serve_ack [OF D(4) run q this, of ps] obtain w2 where "disk w2 = disk w" "sends w2 = sends w"
    "serve os sConf (ack_packet (of_nat n) # ps) w s = Inr (w2, ?e)" using s fd by (auto simp del: serve.simps)
  with s(4) show ?thesis by simp
qed

section \<open>Windows of an upload\<close>

text \<open>
  What the server makes of the full blocks a client sends in an upload with a window of \<open>W\<close> blocks of
  \<open>b\<close> bytes: the numbers it acknowledges and the contents of the file. A block is stored at the place its
  number gives, wherever that is, and a number that is not larger than the last acknowledged one is
  dropped; but the acknowledged number counts the blocks whose number is the first of a window, not
  the blocks that were stored.
\<close>

definition write_block :: "nat \<Rightarrow> nat \<Rightarrow> bytes \<Rightarrow> bytes \<Rightarrow> bytes" where
  "write_block b n p c =
     (let k = (n - 1) * b in take k (c @ replicate (k - length c) NUL) @ p @ drop (k + length p) c)"

fun window_upload :: "nat \<Rightarrow> nat \<Rightarrow> nat \<Rightarrow> bytes \<Rightarrow> (nat \<times> bytes) list \<Rightarrow> nat list \<times> bytes" where
  "window_upload b W k c [] = ([], c)"
| "window_upload b W k c ((n, p) # ps) =
     (if n \<le> k then window_upload b W k c ps
      else let k' = (if (n - 1) mod W = 0 then k + 1 else k);
               (acks, c') = window_upload b W k' (write_block b n p c) ps
           in (k' # acks, c'))"

text \<open>The session when \<open>k\<close> is the last number it acknowledged and the file holds \<open>c\<close>.\<close>

definition window_receiving :: "nat \<Rightarrow> nat \<Rightarrow> bytes \<Rightarrow> int \<Rightarrow> nat \<Rightarrow> bytes \<Rightarrow> nat \<Rightarrow> world \<Rightarrow> session \<Rightarrow> bool" where
  "window_receiving b W name fd k c h w s \<longleftrightarrow> session_inv s \<and> SelectedOperation s = TFTP_OP_CLIENT_TO_SERVER \<and>
     WindowSize s = int W \<and> BlockNrInWindowReceived s = Some (replicate W 0) \<and> FirstBlockInWindow s = int k \<and>
     (\<exists>pos. hFile s = Some \<lparr>f_name = name, f_pos = pos\<rparr>) \<and> disk w name = Some c \<and> BlockSize s = int b \<and>
     CommSocket s = fd \<and> Error s = TFTP_ERR_NO_ERROR \<and> TransferDone s = 0 \<and> BytesHandled s = of_nat h"

text \<open>A block in a window of more than one goes to the place its number gives.\<close>

lemma store_in_window:
  assumes "disk_accepts os" and s: "hFile s = Some \<lparr>f_name = name, f_pos = pos\<rparr>" "WindowSize s = int W" "BlockSize s = int b"
    "LastRecvPacket s = Some buf" "4 + length p \<le> length buf" "drop 4 (take (4 + length p) buf) = p"
    and W: "2 \<le> W" and b: "length p = b" "0 < b" "b \<le> 32767" and n: "0 < n" "n \<le> 65535" and d: "disk w name = Some c"
  shows "\<exists>k f. data_step os (4 + length p) (int n) w s =
    Inr (w\<lparr>calls := k, disk := (disk w)(name \<mapsto> write_block b n p c)\<rparr>, s\<lparr>hFile := Some f, WindowRetryCount := 0\<rparr>) \<and>
    f_name f = name"
proof -
  let ?f = "\<lparr>f_name = name, f_pos = (n - 1) * b\<rparr>"
  have off: "(int n - 1) * BlockSize s = int ((n - 1) * b)" using n s(3) by (simp add: of_nat_diff)
  have "int_ok ((int n - 1) * BlockSize s)" using n b s(3) by (intro small_product) simp_all
  then have "c_int ((int n - 1) * BlockSize s) = Inr (int ((n - 1) * b))" unfolding off by (rule c_int_ok)
  moreover have "fseek_set \<lparr>f_name = name, f_pos = pos\<rparr> (int ((n - 1) * b)) = ?f"
    by (simp add: fseek_set_def del: of_nat_mult)
  moreover have "65464 \<le> os_fwrite os (calls w)" using assms(1) by (simp add: disk_accepts_def)
  then have "take (os_fwrite os (calls w)) p = p" using b by simp
  then have "sys_fwrite os w ?f p = ((next_call w)\<lparr>disk := (disk w)(name \<mapsto> write_block b n p c)\<rparr>,
      \<lparr>f_name = name, f_pos = (n - 1) * b + length p\<rparr>)"
    using b d by (auto simp: sys_fwrite_def fwrite_def f_content_def write_block_def next_call_def Let_def)
  ultimately show ?thesis
    using s W b
    by (intro exI [of _ "Suc (calls w)"] exI [of _ "\<lparr>f_name = name, f_pos = (n - 1) * b + length p\<rparr>"])
      (simp add: data_step_def store_block_def packet_buf_def next_call_def)
qed

lemma received_prefix_one:
  assumes "i < W" and "0 < x"
  shows "received_prefix ((replicate W 0)[i := x]) = (if i = 0 then 1 else 0)"
proof (cases W)
  case (Suc m)
  then show ?thesis using assms by (cases i; cases m) (simp_all add: received_prefix_def)
qed (use assms in simp)

text \<open>One new block.\<close>

lemma window_block_step:
  assumes os: "lossless os" "disk_accepts os" and st: "window_receiving b W name fd k c h w s"
    and W: "2 \<le> W" and b: "length p = b" "b \<le> 32767" and n: "k < n" "n \<le> 65535"
    and cnt: "count_ok sConf (h + (4 + b))"
  defines "k' \<equiv> (if (n - 1) mod W = 0 then k + 1 else k)"
  shows "\<exists>w' s'. CMSG__DATA os sConf (4 + length p) w (delivered_session (data_packet (of_nat n) p) s) = Inr (0, w', s') \<and>
    sends w' = sends w @ [(fd, ack_packet (of_nat k'), 4)] \<and>
    window_receiving b W name fd k' (write_block b n p c) (h + (4 + b)) w' s' \<and>
    sqs w' = sqs w \<and> LastRecvPktSize s' = int (4 + length p)"
proof -
  let ?d = "delivered_session (data_packet (of_nat n) p) s" let ?sz = "4 + length p"
  note st = st [unfolded window_receiving_def]
  obtain pos where hf: "hFile s = Some \<lparr>f_name = name, f_pos = pos\<rparr>" using st by blast
  have inv: "session_inv s" and sel: "SelectedOperation s = TFTP_OP_CLIENT_TO_SERVER" and len: "int (length p) \<le> BlockSize s"
    and arr: "BlockNrInWindowReceived s = Some (replicate W 0)" using st b by simp_all
  then have b0: "0 < b" using st by (simp add: session_inv_def ranges_ok_def)
  note dd = deliver_data [OF inv len, where n = "of_nat n"]
  have nr: "uint (of_nat n :: u16) = int n" using n by (intro uint_of_nat_u16)
  have inv_d: "session_inv ?d" using delivered_inv [OF inv, of "data_packet (of_nat n) p"] len by simp
  define i where "i = (n - 1) mod W"
  have i: "i < W" using W by (simp add: i_def)
  have rem: "c_rem (int n - 1) (WindowSize ?d) = Inr (int i)"
    using n W st by (simp add: i_def c_rem_nonneg of_nat_diff zmod_int)
  define s1 where "s1 = marked ?sz i (replicate W 0) ?d"
  obtain buf where buf: "LastRecvPacket ?d = Some buf" "?sz \<le> length buf" "drop 4 (take ?sz buf) = p" using dd(4) by blast
  have s1: "hFile s1 = Some \<lparr>f_name = name, f_pos = pos\<rparr>" "WindowSize s1 = int W" "BlockSize s1 = int b"
    "LastRecvPacket s1 = Some buf" "BlockNrInWindowReceived s1 = Some ((replicate W 0)[i := int (length p)])"
    "FirstBlockInWindow s1 = int k" "CommSocket s1 = fd" "Error s1 = TFTP_ERR_NO_ERROR" "TransferDone s1 = 0"
    "SelectedOperation s1 = TFTP_OP_CLIENT_TO_SERVER" "BytesHandled s1 = of_nat (h + (4 + b))"
    "LastRecvPktSize s1 = int ?sz"
    using st hf buf(1) b(1) by (simp_all add: s1_def marked_def) (simp_all add: counted_def)
  have "0 < n" "disk w name = Some c" using n(1) st by simp_all
  from store_in_window [OF os(2) s1(1-4) buf(2,3) W b(1) b0 b(2) this(1) n(2) this(2)] obtain kk f where
    step: "data_step os ?sz (int n) w s1 = Inr (w\<lparr>calls := kk, disk := (disk w)(name \<mapsto> write_block b n p c)\<rparr>,
      s1\<lparr>hFile := Some f, WindowRetryCount := 0\<rparr>)" and f: "f_name f = name" by blast
  define w2 where "w2 = w\<lparr>calls := kk, disk := (disk w)(name \<mapsto> write_block b n p c)\<rparr>"
  define s2 where "s2 = s1\<lparr>hFile := Some f, WindowRetryCount := 0\<rparr>"
  have dn: "data_done ?sz s2 = s2" using b(1) by (simp add: data_done_def s2_def s1(3))
  have a2: "BlockNrInWindowReceived s2 = Some ((replicate W 0)[i := int (length p)])" "WindowSize s2 = int W"
    using s1 by (simp_all add: s2_def)
  have pre: "int k + received_prefix ((replicate W 0)[i := int (length p)]) = int k'"
    using received_prefix_one [OF i, of "int (length p)"] b b0 by (simp add: k'_def i_def)
  have uk: "uint (of_nat k' :: u16) = int k'" using n by (intro uint_of_nat_u16) (simp add: k'_def)
  have send: "os_send os kk fd (ack_packet (of_nat k')) = 4" using os(1) by (simp add: lossless_def sends_ok_def)
  define w' where "w' = w2\<lparr>calls := kk + 2, sends := sends w @ [(fd, ack_packet (of_nat k'), 4)]\<rparr>"
  obtain ts where ack: "SMSG_ACK_Block os 0 w2 s2 = Inr (w', s2\<lparr>FirstBlockInWindow := int k',
      BlockNrInWindowReceived := Some (replicate W 0), LastActivityStamp := ts\<rparr>)"
    using SMSG_ACK_Block_eq [OF a2(1), of os 0 w2] a2 s1(6,7) send uk
    by (simp add: sys_send_def sys_tick_def next_call_def w'_def w2_def s2_def pre Let_def)
  define s' where "s' = s2\<lparr>FirstBlockInWindow := int k', BlockNrInWindowReceived := Some (replicate W 0), LastActivityStamp := ts\<rparr>"
  have ov: "\<not> over_limit sConf (BytesHandled ?d + of_nat ?sz)" using count_ok_limit [OF cnt] st b(1) by simp
  have run: "CMSG__DATA os sConf ?sz w ?d = Inr (0, w', s')"
    using sel ov dd(3) nr n(1) st rem i arr step dn ack unfolding DATA_eq w2_def [symmetric] s2_def [symmetric]
    by (simp add: window_array_def s'_def s1_def [symmetric])
  have "SelectedOperation ?d = TFTP_OP_CLIENT_TO_SERVER" using sel by simp
  have "session_inv s'" by (rule DATA_inv [OF run inv_d])
  then have "window_receiving b W name fd k' (write_block b n p c) (h + (4 + b)) w' s'"
    using s1 f by (cases f) (simp add: window_receiving_def s'_def s2_def w'_def w2_def)
  moreover have "LastRecvPktSize s' = int ?sz" using s1 by (simp add: s'_def s2_def)
  ultimately show ?thesis using run by (intro exI [of _ w'] exI [of _ s']) (simp add: w'_def w2_def)
qed

text \<open>
  C10. An upload with a window of more than one block: for any sequence of full blocks with any numbers
  below 65536, in any order and repeated at will, the acknowledgements sent and the contents of the file
  are those of \<open>window_upload\<close>. So blocks are stored where their number says, but a block is not acknowledged
  under its own number: only the blocks whose number is the first of a window move the acknowledged
  number, and each by one.
\<close>

theorem window_upload_acknowledged:
  assumes os: "lossless os" "disk_accepts os" and W: "2 \<le> W" and b: "b \<le> 32767" and fd: "fd \<noteq> - 1"
  shows "window_receiving b W name fd k c h w s \<Longrightarrow> \<forall>(n, p) \<in> set ps. n \<le> 65535 \<and> length p = b \<Longrightarrow>
    count_ok sConf (h + length ps * (4 + b)) \<Longrightarrow> sqs_inv (sqs w) \<Longrightarrow>
    \<exists>w' s'. serve os sConf (map (\<lambda>(n, p). data_packet (of_nat n) p) ps) w s = Inr (w', s') \<and>
      sends w' = sends w @ ack_sends fd (fst (window_upload b W k c ps)) \<and>
      disk w' name = Some (snd (window_upload b W k c ps)) \<and> TransferDone s' = 0 \<and> Error s' = TFTP_ERR_NO_ERROR"
proof (induction ps arbitrary: k c h w s)
  case Nil
  then show ?case by (simp add: ack_sends_def window_receiving_def)
next
  case (Cons np ps)
  obtain n p where np: "np = (n, p)" by fastforce
  have n: "n \<le> 65535" and p: "length p = b" and rest: "\<forall>(n, p) \<in> set ps. n \<le> 65535 \<and> length p = b"
    using Cons.prems(2) by (auto simp: np)
  have inv: "session_inv s" and bs: "int (length p) \<le> BlockSize s" using Cons.prems(1) p by (simp_all add: window_receiving_def)
  have c1: "count_ok sConf (h + (4 + b))" and c2: "count_ok sConf ((h + (4 + b)) + length ps * (4 + b))"
    using Cons.prems(3) by (rule count_ok_mono, simp)+
  let ?d = "delivered_session (data_packet (of_nat n) p) s"
  have next1: "\<exists>w2. disk w2 = disk w1 \<and> sends w2 = sends w1 \<and> sqs_inv (sqs w2) \<and> window_receiving b W name fd k1 d1 h1 w2 s1 \<and>
      serve os sConf (map (\<lambda>(n, p). data_packet (of_nat n) p) (np # ps)) w s =
      serve os sConf (map (\<lambda>(n, p). data_packet (of_nat n) p) ps) w2 s1"
    if run: "CMSG__DATA os sConf (4 + length p) w ?d = Inr (r, w1, s1)" and wr: "window_receiving b W name fd k1 d1 h1 w1 s1"
      and l: "sqs w1 = sqs w" "LastRecvPktSize s1 = int (4 + length p)" for r w1 s1 k1 d1 h1
  proof -
    have q: "sqs_inv (sqs w1)" and i: "session_inv s1" "BlockSize s1 = BlockSize s"
      using Cons.prems l wr by (simp_all add: window_receiving_def)
    from serve_data [OF inv bs run q i(1) l(2) i(2), of "map (\<lambda>(n, p). data_packet (of_nat n) p) ps"] obtain w2 where
      w2: "disk w2 = disk w1" "sends w2 = sends w1" "sqs_inv (sqs w2)"
        "serve os sConf (map (\<lambda>(n, p). data_packet (of_nat n) p) (np # ps)) w s =
         serve os sConf (map (\<lambda>(n, p). data_packet (of_nat n) p) ps) (next_call w2) s1"
      using wr fd by (auto simp: np window_receiving_def simp del: serve.simps)
    moreover have "window_receiving b W name fd k1 d1 h1 (next_call w2) s1" using wr w2(1) by (simp add: window_receiving_def)
    ultimately show ?thesis by (intro exI [of _ "next_call w2"]) simp
  qed
  show ?case
  proof (cases "n \<le> k")
    case True
    let ?c = "counted (4 + length p) ?d"
    have ov: "\<not> over_limit sConf (BytesHandled ?d + of_nat (4 + length p))"
      using count_ok_limit [OF c1] Cons.prems(1) p by (simp add: window_receiving_def)
    have "uint (of_nat n :: u16) = int n" using n by (intro uint_of_nat_u16)
    then have run: "CMSG__DATA os sConf (4 + length p) w ?d = Inr (- 1, w, ?c)"
      using ov True Cons.prems(1) deliver_data(3) [OF inv bs, of "of_nat n"] by (simp add: DATA_eq window_receiving_def)
    have "session_inv ?d" using delivered_inv [OF inv, of "data_packet (of_nat n) p"] bs by simp
    then have wr: "window_receiving b W name fd k c (h + (4 + b)) w ?c" "LastRecvPktSize ?c = int (4 + length p)"
      using Cons.prems(1) p by (simp_all add: window_receiving_def) (simp_all add: counted_def)
    from next1 [OF run wr(1) refl wr(2)] Cons.IH [OF _ rest c2] True show ?thesis by (fastforce simp: np simp del: serve.simps)
  next
    case False
    define k' where "k' = (if (n - 1) mod W = 0 then k + 1 else k)"
    from window_block_step [OF os Cons.prems(1) W p b _ n c1] False obtain w1 s1 where
      1: "CMSG__DATA os sConf (4 + length p) w ?d = Inr (0, w1, s1)"
        "sends w1 = sends w @ [(fd, ack_packet (of_nat k'), 4)]"
        "window_receiving b W name fd k' (write_block b n p c) (h + (4 + b)) w1 s1"
        "sqs w1 = sqs w" "LastRecvPktSize s1 = int (4 + length p)"
      unfolding k'_def by auto
    from next1 [OF 1(1,3-5)] obtain w2 where w2: "sends w2 = sends w1" "sqs_inv (sqs w2)"
      "window_receiving b W name fd k' (write_block b n p c) (h + (4 + b)) w2 s1"
      "serve os sConf (map (\<lambda>(n, p). data_packet (of_nat n) p) (np # ps)) w s =
        serve os sConf (map (\<lambda>(n, p). data_packet (of_nat n) p) ps) w2 s1" by blast
    have "window_upload b W k c (np # ps) =
        (k' # fst (window_upload b W k' (write_block b n p c) ps), snd (window_upload b W k' (write_block b n p c) ps))"
      using False by (simp add: np k'_def split: prod.split)
    then show ?thesis using Cons.IH [OF w2(3) rest c2 w2(2)] 1(2) w2(1,4) by (simp add: ack_sends_def)
  qed
qed

end
