(* ===== verification/Applied.thy ===== *)
theory Applied
  imports Example Races Hazards Retry Limits
begin

text \<open>
  The properties of the components applied: each of them at a concrete machine, configuration and
  session where its hypotheses hold.
\<close>

section \<open>Whole transfers\<close>

lemma download_delivers_file_witness:
  "\<exists>w' s' new. serve quiet_os small_conf (request OP_RRQ ''a'' ''octet'' some_opts # client_acks 2 3 0)
      start_world new_session = Inr (w', s') \<and> TransferDone s' = 1 \<and> sends w' = new \<and>
    map fst (received_blocks new) = [1, 2, 3] \<and> concat (map snd (received_blocks new)) = some_file"
proof -
  have n: "room_for (negotiate small_conf f some_opts (start_params new_session))"
    "p_blksize (negotiate small_conf f some_opts (start_params new_session)) = 40"
    "p_window (negotiate small_conf f some_opts (start_params new_session)) = 2" for f
    by (simp_all add: some_negotiation room_for_def some_reply_def)
  show ?thesis
    using download_delivers_file [OF quiet_os_ok(1) new_session_ok(1) some_requests(1,2) _ refl n(1),
        of start_world some_file] start_world_sqs
    unfolding n by (auto simp: some_size numeral_3_eq_3 upt_rec simp del: serve.simps)
qed

lemma upload_stores_file_witness:
  "\<exists>w' s'. serve quiet_os small_conf (request OP_WRQ ''b'' ''octet'' [] # client_data 512 some_file 0)
      start_world new_session = Inr (w', s') \<and> TransferDone s' = 1 \<and> disk w' ''b'' = Some some_file \<and>
    disk w' ''a'' = Some some_file \<and> sends w' = ack_sends 0 [0, 1]"
proof -
  have n: "negotiate small_conf (Some 0) [] (start_params new_session) = start_params new_session"
    by (simp add: negotiate_def)
  have q: "room_for (start_params new_session)" "p_window (start_params new_session) = 1"
    by (simp_all add: new_session_params room_for_def)
  have b: "blocks (nat (p_blksize (start_params new_session))) some_file = 1"
    by (simp add: new_session_params blocks_def some_file_def)
  have cnt: "count_ok small_conf (length some_file + 4 * 1)"
    by (simp add: count_ok_def some_file_def small_conf_def default_config_def int_ok_def INT_MIN_def INT_MAX_def)
  have acks: "server_acks 512 some_file 0 = [1]" by (simp add: server_acks_def blocks_def some_file_def)
  have bs: "nat (p_blksize (start_params new_session)) = 512" by (simp add: new_session_params)
  show ?thesis
    using upload_stores_file [OF quiet_os_ok(1,2) new_session_ok(1) some_requests(3,4,5) n [symmetric] q,
        of start_world some_file, unfolded b] cnt start_world_sqs
    by (auto simp: bs acks new_session_params quiet_os_def start_world_def simp del: serve.simps)
qed

lemma session_never_undefined_witness: "\<exists>r. thread_loop quiet_os small_conf 100 start_world write_request = Inr r"
proof -
  obtain w' s' where run: "ParsePacket quiet_os small_conf (nat (LastRecvPktSize write_request)) start_world write_request = Inr (0, w', s')"
    and bs: "BlockSize s' = 512" using write_request(8) by (auto simp: write_request(4))
  have "pending start_world write_request"
    using write_request(1-7) by (simp add: pending_def start_world_def sqs_inv_start)
  from session_never_undefined [OF this quiet_os_ok(4,3) _ _ _ _ _ run] bs show ?thesis
    by (simp add: write_request(4) small_conf_def default_config_def no_errors_def quiet_os_def)
qed

section \<open>Silent clients\<close>

lemma silent_download_never_given_up_witness:
  "thread_loop quiet_os unlimited 1000 start_world download_session = Inr None"
proof -
  have "awaiting_ack start_world download_session"
    using session_examples(1)
    by (simp add: awaiting_ack_def download_session_def data_offset_def int_ok_def INT_MIN_def INT_MAX_def)
  from silent_download_never_given_up [OF quiet_os_ok(6) _ _ this, of unlimited 1000] show ?thesis
    by (simp add: unlimited_def small_conf_def default_config_def quiet_os_def del: thread_loop.simps)
qed

lemma silent_upload_given_up_witness:
  "\<exists>w' s'. thread_loop ticking_os small_conf 4004 (start_world\<lparr>calls := 1\<rparr>) (upload_session 2) = Inr (Some (w', s')) \<and>
    sends w' = replicate 3 (5, ack_packet 0, 4) \<and> 4 \<le> WindowRetryCount s' \<and> TransferDone s' \<noteq> 1"
proof -
  have c: "clock_runs ticking_os 20029" by (auto simp: clock_runs_def ticks)
  have a: "awaiting_data ticking_os 0 (start_world\<lparr>calls := 1\<rparr>) (upload_session 2)"
    using session_examples(2) [of 2]
    by (simp add: awaiting_data_def upload_session_def ticking_os_def getTick_def)
  have l: "lossless ticking_os" "\<forall>k fd. os_recv ticking_os k fd = None"
    by (simp_all add: ticking_os_def quiet_os_def lossless_def sends_ok_def)
  have r: "RetryResendPacketMax small_conf = 4" by (simp add: small_conf_def default_config_def)
  have n: "next_ack (upload_session 2) = 0" by (simp add: next_ack_def upload_session_def)
  have u: "WindowRetryCount (upload_session 2) = 0" "PacketTimeout (upload_session 2) = 1" "CommSocket (upload_session 2) = 5"
    by (simp_all add: upload_session_def)
  show ?thesis
    using silent_upload_given_up [OF l _ c a, of small_conf 3 1000] by (simp add: r n u del: thread_loop.simps)
qed

section \<open>Limits\<close>

definition window_world :: world where "window_world = start_world\<lparr>disk := [''b'' \<mapsto> []]\<rparr>"

definition window_session :: session where
  "window_session = (upload_session 2)\<lparr>hFile := Some \<lparr>f_name = ''b'', f_pos = 0\<rparr>\<rparr>"

lemma window_upload_acknowledged_witness:
  "let p = replicate 512 (CHR ''x'')
   in \<exists>w' s'. serve quiet_os small_conf (map (\<lambda>(n, p). data_packet (of_nat n) p) [(1, p), (2, p), (2, p), (3, p)])
       window_world window_session = Inr (w', s') \<and>
     sends w' = ack_sends 5 [1, 1, 1, 2] \<and> disk w' ''b'' = Some (replicate 1536 (CHR ''x''))"
proof -
  let ?p = "replicate 512 (CHR ''x'')" let ?ps = "[(1, ?p), (2, ?p), (2, ?p), (3, ?p)] :: (nat \<times> bytes) list"
  have "window_receiving 512 2 ''b'' 5 0 [] 0 window_world window_session"
    using session_examples(2) [of 2]
    by (simp add: window_receiving_def window_world_def window_session_def upload_session_def session_inv_defs)
  moreover have "count_ok small_conf (0 + length ?ps * (4 + 512))"
    by (simp add: count_ok_def small_conf_def default_config_def int_ok_def INT_MIN_def INT_MAX_def)
  moreover have "\<forall>(n, p) \<in> set ?ps. n \<le> 65535 \<and> length p = 512" by simp
  moreover have "window_upload 512 2 0 [] ?ps = ([1, 1, 1, 2], replicate 1536 (CHR ''x''))"
    by (simp add: write_block_def Let_def replicate_add [symmetric])
  moreover have "sends window_world = []" by (simp add: window_world_def)
  ultimately show ?thesis unfolding Let_def
    using window_upload_acknowledged [OF quiet_os_ok(6,2), of 2 512 5 "''b''" 0 "[]" 0 window_world window_session ?ps small_conf] start_world_sqs
    by (auto simp: window_world_def simp del: serve.simps window_upload.simps)
qed

definition last_window_session :: session where
  "last_window_session = download_session\<lparr>BlockSize := 40, LastRecvPacket := Some (replicate 46 NUL), WindowSize := 4,
     ReadDone := 1, BytesHandled := 100\<rparr>"

lemma last_window_ends_early_witness:
  "\<exists>w' s'. serve quiet_os small_conf [ack_packet 1, ack_packet 1] start_world last_window_session = Inr (w', s') \<and>
    TransferDone s' = 1 \<and> sends w' = []"
proof -
  have "window_sent 40 4 some_file 5 0 start_world last_window_session"
    by (simp add: window_sent_def serving_def last_window_session_def download_session_def session_inv_defs tftp_consts
        some_size f_content_def) (simp add: some_file_def)
  from last_window_ends_early [OF this, of 1 quiet_os small_conf "[ack_packet 1]"] start_world_sqs show ?thesis
    by (auto simp: some_size simp del: serve.simps)
qed

lemma download_stops_at_65535_witness:
  "\<exists>w' s'. serve quiet_os small_conf (map ack_packet [1, 2, 65535]) start_world (download_session\<lparr>FirstBlockInWindow := 65536\<rparr>)
    = Inr (w', s') \<and> TransferDone s' = 0 \<and> sends w' = []"
proof -
  have "exhausted (download_session\<lparr>FirstBlockInWindow := 65536\<rparr>)"
    using session_examples(1) by (simp add: exhausted_def download_session_def session_inv_defs)
  from download_stops_at_65535 [OF this start_world_sqs, of quiet_os small_conf "[1, 2, 65535]"] show ?thesis
    by (auto simp: exhausted_def simp del: serve.simps)
qed

lemma upload_stops_at_65535_witness:
  "\<exists>w' s'. serve quiet_os unlimited [data_packet 0 ''more'', data_packet 65535 ''data''] start_world
      ((upload_session 2)\<lparr>FirstBlockInWindow := 65535\<rparr>) = Inr (w', s') \<and> upload_exhausted s' \<and> sends w' = []"
proof -
  have "upload_exhausted ((upload_session 2)\<lparr>FirstBlockInWindow := 65535\<rparr>)"
    using session_examples(2) [of 2] by (simp add: upload_exhausted_def upload_session_def session_inv_defs)
  from upload_stops_at_65535 [OF this start_world_sqs, of "[(0, ''more''), (65535, ''data'')]" quiet_os unlimited] show ?thesis
    by (auto simp: unlimited_def upload_session_def simp del: serve.simps)
qed

definition far_session :: session where
  "far_session = download_session\<lparr>BlockSize := 65464, LastRecvPacket := Some (replicate 65470 (CHR 0x9C)),
     FirstBlockInWindow := 40092\<rparr>"

lemma offset_overflows_witness: "CMSG_ACK quiet_os small_conf 4 start_world far_session = Inl SignedOverflow"
proof (rule offset_overflows)
  show "packet_u16 far_session 2 = Inr 40092"
    by (simp add: far_session_def packet_u16_def packet_buf_def ntohs_bytes_def)
qed (simp_all add: far_session_def download_session_def session_inv_defs tftp_consts)

definition wrapped_os :: os where
  "wrapped_os = quiet_os\<lparr>os_clock := (\<lambda>k. (if k = 0 then 5 else 0, 0))\<rparr>"

lemma wrapped_tick_never_times_out_witness:
  "\<exists>w' s'. thread_turn wrapped_os small_conf start_world (download_session\<lparr>LastActivityStamp := 5000\<rparr>) = Inr (True, w', s') \<and>
    sends w' = []"
  using wrapped_tick_never_times_out [of "download_session\<lparr>LastActivityStamp := 5000\<rparr>" wrapped_os 0 start_world small_conf]
  by (simp add: download_session_def getTick_def wrapped_os_def quiet_os_def start_world_def)

section \<open>Options\<close>

text \<open>The request of the example, and one that asks for the size of the file 58 times.\<close>

definition some_head :: bytes where
  "some_head = htons_bytes (op_value OP_RRQ) @ ''a'' @ [NUL] @ ''octet'' @ [NUL]"

definition opened :: "bytes \<Rightarrow> session" where
  "opened p = (holding p new_session)\<lparr>hFile := Some \<lparr>f_name = ''a'', f_pos = 0\<rparr>\<rparr>"

lemma opened_simps [simp]:
  "length some_head = 10" "hFile (opened p) = Some \<lparr>f_name = ''a'', f_pos = 0\<rparr>"
  "length p < 518 \<Longrightarrow> packet_ready p (opened p)"
  using session_examples(4) [of p] by (simp_all add: some_head_def opened_def packet_ready_def)

lemma tsize_overflow_witness:
  "let p = some_head @ encode_options (replicate 58 tsize_query)
   in length p \<le> 516 \<and> ParseOptions quiet_os small_conf (length p) 10 start_world (opened p) = Inl OutOfBounds"
proof -
  let ?p = "some_head @ encode_options (replicate 58 tsize_query)"
  have "length (concat (map encode_option (replicate n tsize_query))) = n * 8" for n
    by (induction n) (simp_all add: encode_option_def tsize_query_def)
  then have len: "length ?p = 474" by (simp add: encode_options_def)
  have c: "f_content (disk start_world) \<lparr>f_name = ''a'', f_pos = 0\<rparr> = some_file" by (simp add: f_content_def)
  have "dec_int (to_int (int (length some_file))) = ''100''" unfolding some_file_def length_replicate by code_simp
  then have a: "answer_length (length some_file) = 9" by (simp add: answer_length_def)
  show ?thesis unfolding Let_def
    using tsize_overflow [of small_conf ?p "opened ?p" _ some_head 58 start_world quiet_os] len c a
    by (simp add: small_conf_def default_config_def)
qed

lemma blksize_use_after_free_witness:
  "let p = some_head @ encode_option (''blksize'', ''1024'')
   in ParseOptions (quiet_os\<lparr>os_realloc := (\<lambda>k. Realloc_moves)\<rparr>) small_conf (length p) 10 start_world (opened p) = Inl UseAfterFree"
proof -
  let ?p = "some_head @ encode_option (''blksize'', ''1024'')"
  have n: "atoi ''1024'' = 1024" "stricmp TFTP_OPT_BLKSIZE ''blksize'' = 0" by code_simp+
  show ?thesis unfolding Let_def
    using blksize_use_after_free [of ?p "opened ?p" some_head "''blksize''" "''1024''" "[]"] n
    by (simp add: encode_option_def)
qed

lemma small_blksize_over_read_witness:
  "let p = some_head @ encode_option (''blksize'', ''8'')
   in ParseOptions quiet_os small_conf (length p) 10 start_world (opened p) = Inl OutOfBounds"
proof -
  let ?p = "some_head @ encode_option (''blksize'', ''8'')"
  have n: "atoi ''8'' = 8" "stricmp TFTP_OPT_BLKSIZE ''blksize'' = 0" by code_simp+
  show ?thesis unfolding Let_def
    using small_blksize_over_read [of ?p "opened ?p" some_head "''blksize''" "''8''" "[]"] n
    by (simp add: encode_option_def quiet_os_def)
qed

section \<open>The server\<close>


definition two_transfers :: AppConfig where "two_transfers = small_conf\<lparr>ParallelTransfersMax := 2\<rparr>"

lemma client_list_dangles_witness:
  "\<exists>sv. reachable two_transfers (server_start two_transfers (\<lambda>_. None)) sv \<and>
    accepts two_transfers sv 20 (op_value OP_WRQ) some_peer = Inl UseAfterFree"
  by (rule client_list_dangles) (simp_all add: two_transfers_def)

lemma counter_loses_updates_witness:
  "\<exists>sv. reachable small_conf (server_start small_conf (\<lambda>_. None)) sv \<and> TransferCounter sv = 1 \<and>
    pcs sv = [0 \<mapsto> Running, 1 \<mapsto> Running]"
  using counter_loses_updates [of small_conf "\<lambda>_. None"] by (auto simp: small_conf_def default_config_def)

definition running_server :: server where
  "running_server = \<lparr>ActiveClientList = [Some 0, None], TransferCounter = 1, clients = [0 \<mapsto> some_peer],
     pcs = [0 \<mapsto> Running], next_session = 1\<rparr>"

text \<open>A listener to which a read request arrives that is too short to name a file.\<close>

definition request_os :: os where
  "request_os = quiet_os\<lparr>os_recvfrom := (\<lambda>k fd. Some (htons_bytes (op_value OP_RRQ), some_peer))\<rparr>"

definition reuse_conf :: AppConfig where "reuse_conf = small_conf\<lparr>ReuseServerPortForComm := 1\<rparr>"

definition some_listener :: "int \<Rightarrow> sockaddr \<Rightarrow> world \<Rightarrow> listener" where
  "some_listener fd c w = \<lparr>sockfd = fd, srv = server_start small_conf (\<lambda>_. None), l_world = w,
     waiting = new_session\<lparr>Client := c\<rparr>, handed = Map.empty\<rparr>"

definition short_request :: session where
  "short_request = new_session\<lparr>LastRecvPacket := Some (htons_bytes (op_value OP_RRQ) @ replicate 516 NUL), Client := some_peer,
     LastRecvPktSize := 2\<rparr>"

lemma short_request:
  "listen request_os fd w (new_session\<lparr>Client := c\<rparr>) = Inr (next_call w, short_request)"
  "packet_u16 short_request 0 = Inr (op_value OP_RRQ)"
  by (simp_all add: listen_def request_os_def short_request_def tftp_consts store_at_def packet_u16_def packet_buf_def
      nth_append htons_bytes_def ntohs_bytes_def Let_def)

lemma short_request_turn:
  "ParsePacket os sConf 2 w (short_request\<lparr>ServerSocket := fd, LastActivityStamp := t\<rparr>) = Inr (- 1, w,
     (short_request\<lparr>ServerSocket := fd, LastActivityStamp := t, Error := TFTP_ERR_ILLEGAL_OPERATION,
       LastRecvPacket := Some (htons_bytes (op_value OP_RRQ) @ replicate 516 NUL)\<rparr>))"
proof -
  have "(htons_bytes 1 @ replicate 516 NUL)[2 := NUL] = htons_bytes 1 @ replicate 516 NUL"
    by (rule list_update_same_conv [THEN iffD2]) (simp_all add: nth_append)
  then show ?thesis
    using short_request(2)
    by (simp add: ParsePacket_def EnsureHaveEnoughPacketBytes_def CMSG_RRQ_def terminate_packet_def packet_buf_def packet_u16_def
        short_request_def)
qed

lemma accepted_request:
  "ParallelTransfersMax sConf = 1 \<Longrightarrow> accepts sConf (server_start small_conf (\<lambda>_. None)) 2 (op_value OP_RRQ) some_peer = Inr True"
  "Client short_request = some_peer" "LastRecvPktSize short_request = 2"
  by (intro accepts_RRQ) (simp_all add: server_start_def short_request_def)

lemma some_confs:
  "ParallelTransfersMax small_conf = 1" "ParallelTransfersMax reuse_conf = 1" "ReuseServerPortForComm small_conf = 0"
  "ReuseServerPortForComm reuse_conf = 1"
  by (simp_all add: reuse_conf_def small_conf_def default_config_def)

lemma listens:
  "\<exists>l'. listen_turns request_os small_conf 69 1 [Listen, Work 0] (some_listener fd c w) = Inr (Some l') \<and>
    handed l' 0 = Some short_request \<and> pcs (srv l') 0 = Some (Entering 0)"
  "\<exists>l'. listen_turns request_os reuse_conf 69 1 [Listen, Work 0] (some_listener 3 c start_world) = Inr (Some l') \<and>
    next_session (srv l') = 1"
proof -
  let ?sv = "server_start small_conf (\<lambda>_. None)"
  note turn_defs = server_turn_def listen_turn_def some_listener_def Let_def
  show "\<exists>l'. listen_turns request_os small_conf 69 1 [Listen, Work 0] (some_listener fd c w) = Inr (Some l') \<and>
      handed l' 0 = Some short_request \<and> pcs (srv l') 0 = Some (Entering 0)"
    using short_request accepted_request some_confs
    by (simp add: turn_defs work_def thread_action_def spawn_def server_start_def split: prod.splits)
  have sf: "CommSocket short_request = - 1"
    by (simp add: short_request_def new_session_def new_TFTPSession_def sys_malloc_bytes_def INVALID_SOCKET_2_def)
  have "\<exists>sv w. ThreadDirectComm request_os reuse_conf 1 (next_session ?sv) (spawn some_peer ?sv) (next_call start_world)
      (short_request\<lparr>ServerSocket := 3\<rparr>) = Inr (Some (sv, w)) \<and> next_session sv = 1 \<and> pcs sv = Map.empty"
    by (simp add: ThreadDirectComm_def sys_tick_def thread_turn_def report_packet_def AWS_SQS_OnPacketArrived_def
        GetCreateSession_def short_request_turn accepted_request
        thread_action_def set_entry_def goto_def server_start_def spawn_def tftp_consts delete_TFTPSession_def Let_def
        c_int_def int_ok_def INT_MIN_def INT_MAX_def some_confs sf)
  then show "\<exists>l'. listen_turns request_os reuse_conf 69 1 [Listen, Work 0] (some_listener 3 c start_world) = Inr (Some l') \<and>
      next_session (srv l') = 1"
    using short_request accepted_request some_confs
    by (auto simp: turn_defs work_def split: prod.splits)
qed

lemma single_thread_list_clean_witness:
  "\<exists>l'. listen_turns request_os reuse_conf 69 1 [Listen, Work 0] (some_listener 3 some_peer start_world) = Inr (Some l') \<and>
    next_session (srv l') = 1 \<and> TransferCounter (srv l') = 0 \<and> pcs (srv l') = Map.empty \<and> handed l' = Map.empty"
proof -
  from listens(2) obtain l' where
    run: "listen_turns request_os reuse_conf 69 1 [Listen, Work 0] (some_listener 3 some_peer start_world) = Inr (Some l')"
      "next_session (srv l') = 1" by blast
  have "ReuseServerPortForComm reuse_conf \<noteq> 0" "quiescent reuse_conf (srv (some_listener 3 some_peer start_world))"
    by (simp_all add: reuse_conf_def some_listener_def quiescent_def server_start_def)
  from single_thread_list_clean [OF this run(1)] run show ?thesis by (auto simp: quiescent_def some_listener_def)
qed

lemma fresh_request:
  "fresh_session request_os small_conf w =
    (new_session\<lparr>Client := \<lparr>sa_family = AF_MAX, sa_data = fresh_bytes request_os (calls w) 14\<rparr>\<rparr>, next_call w)"
proof -
  have "fresh_bytes request_os k n = fresh_bytes quiet_os k' n" for k k' n
    by (simp add: fresh_bytes_def request_os_def quiet_os_def)
  moreover have "os_malloc request_os k" "os_malloc quiet_os k" for k by (simp_all add: request_os_def quiet_os_def)
  ultimately show ?thesis
    by (simp add: fresh_session_def new_TFTPSession_def sys_malloc_bytes_def new_session_def)
qed

lemma request_server:
  obtains fd w c where "RunTFTPServer request_os small_conf 69 (\<lambda>_. None) 1 ts start_world =
      bindR (listen_turns request_os small_conf 69 1 ts (some_listener fd c w)) (\<lambda>r.
        Inr (case r of None \<Rightarrow> Busy | Some l \<Rightarrow> Listening l))"
proof -
  have m: "sys_malloc request_os start_world = (True, next_call start_world)"
    by (simp add: sys_malloc_def request_os_def quiet_os_def)
  obtain err fd w where u: "CreateUDPSocket request_os 69 (next_call start_world) = (err, fd, w)" by (metis prod_cases3)
  have "RunTFTPServer request_os small_conf 69 (\<lambda>_. None) 1 ts start_world =
      bindR (listen_turns request_os small_conf 69 1 ts (some_listener fd
        \<lparr>sa_family = AF_MAX, sa_data = fresh_bytes request_os (calls w) 14\<rparr> (next_call w))) (\<lambda>r.
        Inr (case r of None \<Rightarrow> Busy | Some l \<Rightarrow> Listening l))"
    unfolding RunTFTPServer_def m u some_listener_def by (simp add: fresh_request m u)
  then show thesis by (rule that)
qed

lemma server_keeps_files_witness:
  "\<exists>l s. RunTFTPServer request_os small_conf 69 (\<lambda>_. None) 1 [Listen, Work 0] start_world = Inr (Listening l) \<and>
    handed l 0 = Some s \<and> session_inv s \<and> file_ok small_conf s \<and> disk (l_world l) ''a'' = Some some_file"
proof -
  obtain fd w c where "RunTFTPServer request_os small_conf 69 (\<lambda>_. None) 1 [Listen, Work 0] start_world =
      bindR (listen_turns request_os small_conf 69 1 [Listen, Work 0] (some_listener fd c w)) (\<lambda>r.
        Inr (case r of None \<Rightarrow> Busy | Some l \<Rightarrow> Listening l))" by (rule request_server)
  then obtain l where run: "RunTFTPServer request_os small_conf 69 (\<lambda>_. None) 1 [Listen, Work 0] start_world = Inr (Listening l)"
    and h: "handed l 0 = Some short_request" using listens(1) [of fd c w] by auto
  have "realloc_ok request_os" using quiet_os_ok(3) by (simp add: realloc_ok_def request_os_def)
  note safe = server_keeps_files [OF run quiet_os_ok(4) this]
  have "\<not> may_upload small_conf ''a''" by (simp add: may_upload_def small_conf_def default_config_def)
  then have "disk (l_world l) ''a'' = disk start_world ''a''" using safe by blast
  also have "\<dots> = Some some_file" by (simp add: start_world_def)
  finally have "disk (l_world l) ''a'' = Some some_file" .
  with safe h have "handed l 0 = Some short_request \<and> session_inv short_request \<and> file_ok small_conf short_request \<and>
    disk (l_world l) ''a'' = Some some_file" by blast
  with run show ?thesis by blast
qed

lemma duplicates_filtered_for_writes_only_witness:
  "accepts two_transfers running_server 20 (op_value OP_WRQ) some_peer = Inr False \<and>
   accepts two_transfers running_server 20 (op_value OP_RRQ) some_peer = Inr True"
  using duplicates_filtered_for_writes_only [of 20 running_server two_transfers some_peer]
  by (simp add: running_server_def two_transfers_def entry_peer_def del: op_value.simps)

section \<open>The program\<close>

definition cfg_world :: world where
  "cfg_world = start_world\<lparr>disk := [init_cfg \<mapsto> cfg_text shipped_lines]\<rparr>"

definition silent_logger :: SimpleLogger where
  "silent_logger = \<lparr>mLogFile = None, mLogToConsole = True, mLogSeverityFilter = LogSeverityAllFlags\<rparr>"

lemma main_runs_witness:
  "main quiet_os True True [] (\<lambda>_. None) 0 [] [''tftp'', ''69'', ''id''] silent_logger default_config cfg_world =
    bindR (AWS_SQS_Init True True [] ''id'' 69 sqs_start) (\<lambda>q.
    bindR (RunTFTPServer quiet_os (config_of_lines shipped_lines) 69 (\<lambda>_. None) 0 [] (cfg_world\<lparr>sqs := q\<rparr>)) (\<lambda>r.
      Inr (Ran (silent_logger\<lparr>mLogSeverityFilter := 0\<rparr>) (config_of_lines shipped_lines)
        (case r of Returned w \<Rightarrow> Returned (w\<lparr>sqs := AWS_SQS_Destroy (sqs w)\<rparr>) | _ \<Rightarrow> r))))"
proof -
  have v: "int_setting shipped_lines ''LogVerbosityFlags'' 0 = 0" "atoi ''69'' = 69" by code_simp+
  show ?thesis
    using main_runs [of "[''tftp'', ''69'', ''id'']", OF _ shipped_lines_ok,
        of cfg_world quiet_os True True "[]" "\<lambda>_. None" 0 "[]" silent_logger] v
    by (simp add: cfg_world_def start_world_def)
qed

text \<open>The program started with the settings file of the repository, before the first request.\<close>

lemma shipped_start:
  "\<exists>l. main quiet_os True True [] (\<lambda>_. None) 0 [] [''tftp'', ''69'', ''id''] silent_logger default_config
      (process_start True [init_cfg \<mapsto> cfg_text shipped_lines]) =
    Inr (Ran (silent_logger\<lparr>mLogSeverityFilter := 0\<rparr>) (config_of_lines shipped_lines) (Listening l)) \<and> calls (l_world l) = 6"
proof -
  have v: "int_setting shipped_lines ''LogVerbosityFlags'' 0 = 0" by code_simp
  show ?thesis
    using main_lines [of "[''tftp'', ''69'', ''id'']", OF _ shipped_lines_ok,
        of "process_start True [init_cfg \<mapsto> cfg_text shipped_lines]" quiet_os True True "[]" "\<lambda>_. None" 0 "[]" silent_logger] v
    by (simp add: process_start_def AWS_SQS_Init_def FillLocalIP_def RunTFTPServer_def CreateUDPSocket_def
        SetSocketTimeOut_def sys_defs quiet_os_def fresh_session_def new_TFTPSession_def Let_def tftp_consts)
qed

lemma first_port_ignores_settings_witness:
  "\<exists>l w1. main quiet_os True True [] (\<lambda>_. None) 0 [] [''tftp'', ''69'', ''id''] silent_logger default_config
      (process_start True [init_cfg \<mapsto> cfg_text shipped_lines]) =
    Inr (Ran (silent_logger\<lparr>mLogSeverityFilter := 0\<rparr>) (config_of_lines shipped_lines) (Listening l)) \<and>
    CreateCommUDPSocket quiet_os (config_of_lines shipped_lines) (l_world l) (new_session\<lparr>Client := some_peer\<rparr>) =
      Inr (0, w1, new_session\<lparr>Client := some_peer, CommSocket := 6\<rparr>) \<and>
    port_in_range (config_of_lines shipped_lines) (NextPortToUse w1)"
proof -
  from shipped_start obtain l where
    run: "main quiet_os True True [] (\<lambda>_. None) 0 (replicate 0 Listen) [''tftp'', ''69'', ''id''] silent_logger default_config
      (process_start True [init_cfg \<mapsto> cfg_text shipped_lines]) =
    Inr (Ran (silent_logger\<lparr>mLogSeverityFilter := 0\<rparr>) (config_of_lines shipped_lines) (Listening l))"
    and c: "calls (l_world l) = 6" by auto
  have conf: "ReuseServerPortForComm (config_of_lines shipped_lines) = 0" "port_config_ok (config_of_lines shipped_lines)"
    by (simp_all add: shipped_config port_config_ok_def default_config_def)
  have s: "ServerSocket (new_session\<lparr>Client := some_peer\<rparr>) = INVALID_SOCKET_2" "PortPrefered (new_session\<lparr>Client := some_peer\<rparr>) = 0"
    "sa_family (Client (new_session\<lparr>Client := some_peer\<rparr>)) \<noteq> AF_MAX"
    by (simp_all add: some_peer_def AF_INET_def AF_MAX_def INVALID_SOCKET_2_def) (simp add: new_session_def new_TFTPSession_def sys_malloc_bytes_def)
  have fd: "os_socket quiet_os (calls (l_world l)) = 6" "(6 :: int) \<noteq> INVALID_SOCKET_2"
    by (simp_all add: c quiet_os_def INVALID_SOCKET_2_def)
  from first_port_ignores_settings [OF run conf s fd] run show ?thesis by (auto simp: quiet_os_def)
qed

lemma silent_without_verbosity_witness:
  "\<exists>lg sConf r. main quiet_os True True [] (\<lambda>_. None) 0 [] [''tftp'', ''69'', ''id''] silent_logger default_config cfg_world =
     Inr (Ran lg sConf r) \<and>
   Logger_Log LogSeverityError (Some ''lost'') lg \<lparr>log_disk = Map.empty, console = []\<rparr> =
     (lg, \<lparr>log_disk = Map.empty, console = []\<rparr>)"
proof -
  have d: "disk cfg_world init_cfg = Some (cfg_text shipped_lines)" by (simp add: cfg_world_def)
  have v: "\<forall>l \<in> set shipped_lines. spec_value ''LogVerbosityFlags'' l = None" by code_simp
  have "\<exists>lg sConf r. main quiet_os True True [] (\<lambda>_. None) 0 [] [''tftp'', ''69'', ''id''] silent_logger default_config cfg_world =
     Inr (Ran lg sConf r)"
    by (simp add: main_def Let_def RunTFTPServer_def AWS_SQS_Init_def FillLocalIP_def split: prod.splits)
  then obtain lg sConf r where
    run: "main quiet_os True True [] (\<lambda>_. None) 0 [] [''tftp'', ''69'', ''id''] silent_logger default_config cfg_world =
      Inr (Ran lg sConf r)" by blast
  with silent_without_verbosity [OF _ shipped_lines_ok d v run] show ?thesis by simp
qed

lemma report_sent_witness:
  "\<exists>st body. AWS_SQS_OnPacketArrived True True ''guid'' (Some (''TFTP'' @ [NUL])) 4 5 (Some ''10.0.0.1'') sqs_start = Inr st \<and>
    sqs_sent st = [body] \<and> Sessions st = []"
  using report_sent [OF sqs_inv_start, of "Some (''TFTP'' @ [NUL])" "''TFTP'' @ [NUL]" 4 "Some ''10.0.0.1''" "''10.0.0.1''" 5 "''guid''"]
  by (simp add: Let_def) (simp add: sqs_start_def)

end
