(* ===== verification/Spec2Isabelle.thy ===== *)
theory Spec2Isabelle
  imports Applied
begin

text \<open>
  This development verifies the TFTP server of the repository: the C++ program under
  \<^verbatim>\<open>src/\<close> in its Linux build (\<^verbatim>\<open>TFTP.cpp\<close>, \<^verbatim>\<open>TFTP.h\<close>, \<^verbatim>\<open>config.cpp\<close>, \<^verbatim>\<open>Logger.cpp\<close>,
  \<^verbatim>\<open>AWSSQS.cpp\<close>, \<^verbatim>\<open>pthread_win.cpp\<close>, \<^verbatim>\<open>main.cpp\<close> and their headers).

  \<^bold>\<open>The program.\<close> \<^verbatim>\<open>main\<close> reads \<^verbatim>\<open>init.cfg\<close>, starts the module that reports packets to a
  message queue and runs \<^verbatim>\<open>RunTFTPServer\<close>. That function listens on one UDP socket; for every read or
  write request it accepts it hands a \<^verbatim>\<open>TFTPSession\<close> to \<^verbatim>\<open>ThreadDirectComm\<close>, in a thread of its own or,
  with \<^verbatim>\<open>UseServerPortForComm\<close>, in the listening thread. The thread enters the client into
  \<^verbatim>\<open>ActiveClientList\<close>, then parses a packet, reports it, answers, waits for the next one and resends
  when nothing comes, until the transfer is done, an error ends it or the client is given up.

  \<^bold>\<open>How code becomes definitions.\<close> Every function of the program is a HOL function of the same name that
  takes and returns the state it works on. The state is the record \<open>session\<close> (the fields of
  \<^verbatim>\<open>TFTPSession\<close>), the record \<open>world\<close> (disk, datagrams sent, open descriptors, \<^verbatim>\<open>NextPortToUse\<close>, the
  module of reports) and, for the threads, the record \<open>server\<close> (\<^verbatim>\<open>ActiveClientList\<close>, \<^verbatim>\<open>TransferCounter\<close>).
  What the operating system answers is the parameter \<open>os\<close>, a record of functions that say how the
  \<open>k\<close>-th system call of the run is answered; theorems that do not restrict it hold for every network,
  clock, allocator and disk. \<^verbatim>\<open>int\<close> is \<open>int\<close> with \<open>c_int\<close> checking the range, \<^verbatim>\<open>unsigned short\<close>,
  \<^verbatim>\<open>unsigned int\<close> and 64 bit counters are words that wrap. Undefined behaviour is a value of the result
  type \<open>res\<close>: a read or write outside of an object, a use of freed memory or of NULL, a signed overflow,
  a division by zero are \<open>Inl\<close> of the datatype of the prelude, so that a theorem whose conclusion is \<open>Inr\<close>
  says that none of them happens. Memory that the program does not initialise holds arbitrary bytes
  (\<open>os_fresh\<close>).

  \<^bold>\<open>Theories.\<close>
  \<^item> \<open>Prelude\<close>, \<open>Codec\<close>: results, C integers, strings, \<^verbatim>\<open>atoi\<close>, byte order; the contract of encodings
    (locales \<open>codec\<close> and \<open>fixed_codec\<close>, interpreted on the header fields, decimals, packets, base64).
  \<^item> \<open>Platform\<close> (\<^verbatim>\<open>pthread_win.cpp\<close>): the tick, \<^verbatim>\<open>_strdup\<close>, \<^verbatim>\<open>base64_encode\<close> with its decoder; \<open>Stdio\<close>: files by
    name and position (locale \<open>block_reader\<close>, extended for writing, interpreted on the files).
  \<^item> \<open>Config\<close> (\<^verbatim>\<open>config.cpp\<close>, \<^verbatim>\<open>config.h\<close>): the loaders and \<^verbatim>\<open>InitConfig\<close> (locale \<open>settings_store\<close>);
    \<open>Logger\<close> (\<^verbatim>\<open>Logger.cpp\<close>, \<^verbatim>\<open>Logger.h\<close>); \<open>Sqs\<close> (\<^verbatim>\<open>AWSSQS.cpp\<close>): the bookkeeping and the text of reports.
  \<^item> \<open>World\<close>: system calls; \<open>Session\<close> (\<^verbatim>\<open>TFTP.h\<close>): constants, codes, the session, its constructor and
    destructor, and the invariant \<open>session_inv\<close>.
  \<^item> \<open>Send\<close> (\<^verbatim>\<open>SMSG_ACK_Block\<close>, \<^verbatim>\<open>SMSG_OACK\<close>, \<^verbatim>\<open>SMSG_DATA\<close>, \<^verbatim>\<open>SMSG_Error\<close>), \<open>Options\<close>
    (\<^verbatim>\<open>ParseOptions\<close>), \<open>Comm\<close> (\<^verbatim>\<open>CreateUDPSocket\<close>, \<^verbatim>\<open>CreateCommUDPSocket\<close>), \<open>Handlers\<close> (\<^verbatim>\<open>ParsePacket\<close> and the
    \<^verbatim>\<open>CMSG\<close> functions), \<open>Thread\<close> (the loop of \<^verbatim>\<open>ThreadDirectComm\<close>; locale \<open>turn_invariant\<close>), \<open>Server\<close> (the list
    of clients, the statements of the worker threads on it as the step relation \<open>server_step\<close>, and \<^verbatim>\<open>RunTFTPServer\<close>
    with its workers under a schedule), \<open>Program\<close> (\<^verbatim>\<open>main\<close> and the static variables it starts with).
  \<^item> \<open>Safety\<close>: what a packet may do to files and network (\<open>effect_ok\<close>). \<open>Negotiate\<close>: the abstract
    negotiation of options and the refinement of \<^verbatim>\<open>ParseOptions\<close>. \<open>Delivery\<close>: the loop of a session that
    receives datagrams. \<open>Download\<close>, \<open>Upload\<close>: whole transfers.
    \<open>Sound\<close>: absence of undefined behaviour. \<open>Retry\<close>: silent clients and the clock. \<open>Races\<close>: interleavings of
    the threads, and the files of a whole server. \<open>Hazards\<close>: undefined behaviour in \<^verbatim>\<open>ParseOptions\<close>. \<open>Limits\<close>:
    block numbers, offsets and windows that go wrong.
  \<^item> \<open>Example\<close>, \<open>Applied\<close>: a concrete machine, and the properties applied to it.

  \<^bold>\<open>Threads.\<close> \<open>RunTFTPServer\<close> takes a schedule, a list that says which thread moves next: the listening
  thread, by one turn of its loop, or a worker. Nothing protects \<^verbatim>\<open>ActiveClientList\<close> and \<^verbatim>\<open>TransferCounter\<close>, so
  every access of a worker to them is a step of its own: \<^verbatim>\<open>TransferCounter++\<close> reads in one step and writes in the next, and
  other threads may move in between (\<open>thread_pc\<close>, \<open>thread_action\<close>). Coarser than the machine are three things: the
  listening thread evaluates the condition of its \<^verbatim>\<open>if\<close> in one step, a turn of a worker's loop, between two calls of
  \<^verbatim>\<open>recv\<close>, is one step on the shared world (files, \<^verbatim>\<open>NextPortToUse\<close>, the module of reports), and memory is
  sequentially consistent. With \<^verbatim>\<open>UseServerPortForComm\<close> a session runs to its end inside a turn of the listening thread.

  \<^bold>\<open>Clients.\<close> \<open>thread_loop\<close> is the loop of a session with whatever \<^verbatim>\<open>recv\<close> answers. \<open>serve\<close> is the same loop
  while datagrams come, with the datagrams as a list: every turn parses one, reports it, sends an error if there is
  one and leaves where the program leaves (\<open>handle_packet\<close>, which is also the first part of \<open>thread_turn\<close>);
  \<open>thread_loop_serves\<close> shows that every run of the loop in which all calls of \<^verbatim>\<open>recv\<close> bring something is such a run.

  \<^bold>\<open>What is shown.\<close> C1 and C2 follow a transfer from its request to its end and show that the file
  arrives. C3 shows that a session whose request was handled stays in defined behaviour, C4 and C5 what a session may
  do to files and network on any input, C34 that for a whole server under any schedule. C6 and C28 concern the
  negotiation, C7 and C27 the datagrams of a window, C29 to C32 errors, C25, C26 and C36 sockets and ports, C33 the
  base64 text, C35 and C37 to C39 the settings, the log and the reports. C21 to C24 are about the shared list: its
  structure and its counter, whose updates can be lost, sessions in the listening thread, and the filter of
  duplicates. The remaining ones state precisely where the program does not do what it means to: transfers that never
  end, or end by the limit of bytes only (C8, C16, C17, C40), the retries of an upload (C9), uploads in windows (C10),
  transfers that end too early or wrongly (C11, C12), and undefined behaviour (C13 to C15, C18 to C20, C22, C32).

  \<^bold>\<open>Bounds and fuel.\<close> The loop of a session may run for ever, as C8 shows, so \<open>thread_loop\<close> has fuel and
  returns \<open>None\<close> when it is used up; C3 and C8 hold for every fuel, C9 gives the fuel that is enough, and C4
  is about every state that is passed through, so that it needs no end. In \<open>RunTFTPServer\<close> only the sessions in the
  listening thread need fuel; the length of the schedule is the length of the run, which the program never ends.
  The loop over the options ends because the offset grows (\<open>option_turn_progress\<close>), the loaders because
  \<^verbatim>\<open>fgets\<close> consumes the file, and \<open>create_loop\<close> after \<^verbatim>\<open>MAX_RETRY_CREATE_SOCKET\<close> attempts.

  \<^bold>\<open>Assumptions.\<close> \<open>realloc_ok\<close> says that \<^verbatim>\<open>realloc\<close> does not fail, \<open>in_place\<close> that it does not move the
  block, \<open>lossless\<close> that \<^verbatim>\<open>send\<close> takes every datagram and allocation succeeds, \<open>network_up\<close> that sockets can be made,
  \<open>disk_accepts\<close> that the disk is not full, \<open>no_errors\<close> that the client sends no error packet, \<open>conf_ok\<close> that the
  configured maximum of the window is at least 1, \<open>sqs_inv\<close> that the module of reports is in a state it
  can be in (C38). \<open>process_start\<close> is the state before \<^verbatim>\<open>main\<close>: \<^verbatim>\<open>NextPortToUse\<close> is initialised from \<^verbatim>\<open>sConf\<close>, before or
  after \<^verbatim>\<open>sConf\<close> itself, since the order of the two files is not specified. Each is assumed only where it is needed.

  \<^bold>\<open>Not modelled.\<close> The WIN32 branch of \<^verbatim>\<open>pthread_win\<close> (wrappers of Windows calls) and the empty stubs
  under \<^verbatim>\<open>_DISABLE_SQS_MODULE\<close> are not part of the Linux build. The AWS SDK is not in the repository: a
  message counts as queued when it is handed over. \<^verbatim>\<open>create_guid\<close> asks a library for a UUID: it is \<open>os_guid\<close>. The
  calls of the logging macros inside the handlers are left out, as is the formatting of a message with its
  arguments by the C library; so is the output of \<^verbatim>\<open>printf\<close>, apart from the message of \<^verbatim>\<open>usage\<close>. A file
  is its contents on a disk of regular files, without directories and buffering. An interface without an address
  makes \<^verbatim>\<open>FillLocalIP\<close> read NULL (\<open>If_NULL\<close>); the answers of \<^verbatim>\<open>getifaddrs\<close> are a parameter. \<^verbatim>\<open>ServerIsRunning\<close> is
  never cleared by the program, so what follows the listening loop is not reached.
\<close>

section \<open>Sessions\<close>

text \<open>
  C4. In every state the loop of a session passes through, between any two turns and at its end, its
  memory is as it should be (the receive buffer matches the block size, an upload has one counter
  per block of its window), its open file is one its operation may touch, and the only files that have
  changed are those that may be uploaded. Sessions that never end are covered, too.
\<close>

theorem session_keeps_its_promises:
  assumes "turn_reached (thread_turn os sConf) w s go w' s'" and "conf_ok sConf" and "realloc_ok os"
    and "session_inv s" and "file_ok sConf s"
  shows "session_inv s' \<and> file_ok sConf s' \<and> (\<forall>n. disk w' n \<noteq> disk w n \<longrightarrow> may_upload sConf n)"
  using thread.reached_P [OF assms(1), of "disk w"] assms(2-5) by (simp add: thread_P_def disk_safe_def)

text \<open>
  C5. What one packet makes the server do, on any input and with any answers of the system: it
  changes only files that may be uploaded, and everything it sends on the socket of the session is
  an acknowledgement, an acknowledgement of options or a block of a file that may be downloaded.
\<close>

theorem packet_effects:
  assumes "ParsePacket os sConf sz w s = Inr (r, w', s')" and "session_inv s" and "file_ok sConf s"
    and "conf_ok sConf" and "realloc_ok os"
  shows "session_inv s' \<and> file_ok sConf s' \<and> (\<forall>n. disk w' n \<noteq> disk w n \<longrightarrow> may_upload sConf n) \<and>
    (\<exists>new. sends w' = sends w @ new \<and> (\<forall>x \<in> set new. reply_ok sConf (disk w) (CommSocket s') x))"
  using ParsePacket_effect [OF assms] ParsePacket_inv [OF assms(1,2,4,5)]
  by (auto simp: effect_ok_def disk_safe_def)

text \<open>
  C6. \<^verbatim>\<open>ParseOptions\<close> refines the abstract negotiation: for well-formed options that leave the
  packet in its buffer and whose answer fits, it ends at the end of the packet with the negotiated
  numbers and sends exactly the negotiated answer, when there is one.
\<close>

theorem options_refine_negotiation:
  assumes "in_place os" and "packet_ready p s" and "p = pre @ encode_options opts"
    and "\<forall>opt \<in> set opts. option_fits p opt"
    and "q = negotiate sConf (open_size w s) opts (start_params s)" and "room_for q"
  shows "\<exists>w' s' new. ParseOptions os sConf (length p) (length pre) w s = Inr (0, w', s', length p) \<and>
    BlockSize s' = p_blksize q \<and> PacketTimeout s' = p_timeout q \<and> WindowSize s' = p_window q \<and>
    Error s' = Error s \<and> disk w' = disk w \<and> sends w' = sends w @ new \<and>
    (if p_reply q = [] then new = []
     else \<exists>r. new = [(CommSocket s, htons_bytes (op_value OP_OACK) @ p_reply q, r)])"
proof -
  from ParseOptions_refines [OF assms] obtain w' s' new where
    "ParseOptions os sConf (length p) (length pre) w s = Inr (0, w', s', length p)"
    "options_frame sConf w s new w' s'" "oack_sent os w s q new" "Error s' = Error s"
    "BlockSize s' = p_blksize q" "PacketTimeout s' = p_timeout q" "WindowSize s' = p_window q" by blast
  with options_frame_simps(1,2) [OF this(2)] show ?thesis unfolding oack_sent_def by blast
qed

text \<open>
  C7. Everything \<^verbatim>\<open>SMSG_DATA\<close> sends for a download is a block of the open file, under the number
  of that block, in the window of the session; the disk is not changed.
\<close>

theorem window_holds_file_blocks:
  assumes "SMSG_DATA os sConf resend w s = Inr (w', s')" and "session_inv s"
    and "SelectedOperation s = TFTP_OP_SERVER_TO_CLIENT"
  shows "\<exists>f new. hFile s = Some f \<and> disk w' = disk w \<and> sends w' = sends w @ new \<and>
    (\<forall>x \<in> set new. \<exists>j < nat (WindowSize s). fst x = CommSocket s \<and>
       fst (snd x) = data_packet (word_of_int (FirstBlockInWindow s + int j))
         (file_block (nat (BlockSize s)) (f_content (disk w) f) (nat (FirstBlockInWindow s - 1) + j)))"
proof -
  obtain f where f: "hFile s = Some f" "ranges_ok s" "1 \<le> FirstBlockInWindow s"
    using assms(2,3) by (auto simp: session_inv_def download_ok_def)
  from SMSG_DATA_frame [OF assms(1) f] obtain new where fr: "data_frame w s new w' s'"
    and new: "\<forall>x \<in> set new. window_send s 0 (f_content (disk w) f) (nat (FirstBlockInWindow s - 1)) (nat (WindowSize s)) x" by blast
  then show ?thesis using f(1) data_frame_simps(1,2) [OF fr]
    by (intro exI [of _ f] exI [of _ new]) (simp add: window_send_def)
qed

text \<open>
  C12. With a window of one block the server does not check that a data packet carries the next
  number: any full block with a larger number is stored as the next one and acknowledged under the
  next number, so a gap in the numbers goes unnoticed.
\<close>

theorem gap_is_stored:
  assumes "lossless os" and "disk_accepts os" and "receiving b name fd k c h w s"
    and "length p = b" and "int k < uint (nr :: u16)" and "count_ok sConf (h + (4 + length p))"
  shows "\<exists>w' s'. CMSG__DATA os sConf (4 + length p) w (delivered_session (data_packet nr p) s) = Inr (0, w', s') \<and>
    sends w' = sends w @ [(fd, ack_packet (of_nat (k + 1)), 4)] \<and>
    receiving b name fd (k + 1) (c @ p) (h + (4 + length p)) w' s'"
proof -
  have "p \<noteq> []" using assms(3,4) by (auto simp: receiving_def session_inv_def ranges_ok_def)
  with receive_block [OF assms(1-3) _ assms(5,6)] assms(4) show ?thesis by auto
qed

text \<open>
  C27. The two loops of \<^verbatim>\<open>SMSG_ACK_Block\<close> are one closed form: the acknowledged number is the first
  block of the window plus the blocks received from its start without a gap, and when the packet has
  gone out the window starts there and its counters are clear.
\<close>

theorem ack_block_closed_form:
  assumes "session_inv s" and "SelectedOperation s = TFTP_OP_CLIENT_TO_SERVER"
    and "nr = (word_of_int (FirstBlockInWindow s + received_prefix (the (BlockNrInWindowReceived s))) :: u16)"
    and "os_send os (calls w) (CommSocket s) (ack_packet nr) = 4"
  shows "\<exists>w' ts. SMSG_ACK_Block os resend w s =
    Inr (w', s\<lparr>FirstBlockInWindow := uint nr, BlockNrInWindowReceived := Some (replicate (nat (WindowSize s)) 0),
      LastActivityStamp := ts\<rparr>) \<and> sends w' = sends w @ [(CommSocket s, ack_packet nr, 4)] \<and> disk w' = disk w"
proof -
  obtain arr where arr: "BlockNrInWindowReceived s = Some arr" "int (length arr) = WindowSize s"
    using assms(1,2) by (auto simp: session_inv_def window_ok_def)
  have "nat (WindowSize s) = length arr" using arr(2) by simp
  then show ?thesis
    using assms(4) arr(1) unfolding SMSG_ACK_Block_eq [OF arr] assms(3)
    by (simp add: sys_send_def sys_tick_def next_call_def Let_def) (rule exI, rule refl)
qed

text \<open>
  C28. Whatever the options of a request say, the numbers of the session stay in their ranges: the
  block size, the window, the timeout between the configured bounds; and at most one datagram is
  sent, an acknowledgement of options.
\<close>

theorem options_stay_in_bounds:
  assumes "ParseOptions os sConf sz n w s = Inr (r, w', s', n')" and "session_inv s"
    and "conf_ok sConf" and "realloc_ok os"
  shows "8 \<le> BlockSize s' \<and> BlockSize s' \<le> 65464 \<and> 1 \<le> WindowSize s' \<and> WindowSize s' \<le> 65535 \<and> buffer_ok s' \<and>
    (PacketTimeout s' = PacketTimeout s \<or> PacketTimeout s' = ClientTimeoutSecMax sConf \<or>
     ClientTimeoutSecMin sConf \<le> PacketTimeout s' \<and> PacketTimeout s' \<le> ClientTimeoutSecMax sConf) \<and>
    disk w' = disk w \<and> (sends w' = sends w \<or>
     (\<exists>tail r. sends w' = sends w @ [(CommSocket s, htons_bytes (op_value OP_OACK) @ tail, r)]))"
proof -
  obtain new where fr: "options_frame sConf w s new w' s'" using ParseOptions_frame(1) [OF assms(1)] by blast
  have "ranges_ok s'" "buffer_ok s'" using ParseOptions_session [OF assms] by simp_all
  moreover have "negotiated sConf s s'" "new = [] \<or> (\<exists>tail r. new = [(CommSocket s, htons_bytes (op_value OP_OACK) @ tail, r)])"
    using fr by (simp_all add: options_frame_def)
  ultimately show ?thesis
    using options_frame_simps(1,2) [OF fr] by (auto simp: ranges_ok_def negotiated_def)
qed

section \<open>Requests that are refused and errors\<close>

text \<open>
  C29. A request for a file that is not in its list is refused before any file is touched: the disk
  is as before, no file is open, and the one datagram that is sent is the error packet
  \<^verbatim>\<open>FILE_NOT_FOUND\<close>, with which the session ends.
\<close>

theorem denied_request:
  assumes "idle s" and "network_up os" and "CommPortEnd sConf \<noteq> 0" and "request_ok op name mode opts s"
    and "op = OP_RRQ \<and> \<not> may_download sConf name \<or>
         op = OP_WRQ \<and> \<not> (\<exists>x \<in> set (UploadableFileNames sConf). strcmp name x = 0)"
    and rep: "sqs_inv (sqs w)"
  shows "\<exists>w' s' n. serve os sConf (request op name mode opts # ps) w s = Inr (w', s') \<and>
    Error s' = TFTP_ERR_FILE_NOT_FOUND \<and> hFile s' = None \<and> disk w' = disk w \<and>
    sends w' = sends w @ [(os_socket os (calls w), error_packet 1 (error_text TFTP_ERR_FILE_NOT_FOUND), n)]"
proof -
  let ?p = "request op name mode opts"
  have len: "int (length ?p) \<le> BlockSize s + 4" and nul: "NUL \<notin> set name" "NUL \<notin> set mode"
    using assms(4) by (simp_all add: request_ok_def)
  have inv: "session_inv s" and nf: "hFile s = None" using assms(1) by (simp_all add: idle_def)
  from request_arrives [OF assms(1-3) refl len nul, of w] obtain w1 s1 buf where
    pre: "request_prefix os sConf (length ?p) w (delivered_session ?p s) name (length name + length mode + 4) 0 w1 s1"
    and pr: "packet_ready ?p s1"
    and s1: "s1 = s\<lparr>LastRecvPacket := Some buf, LastRecvPktSize := int (length ?p), CommSocket := os_socket os (calls w)\<rparr>"
    by blast
  note fr = request_prefix_frame [OF pre]
  let ?e = "s1\<lparr>Error := TFTP_ERR_FILE_NOT_FOUND\<rparr>"
  have op: "op = OP_RRQ \<or> op = OP_WRQ" using assms(5) by blast
  have "(if op = OP_RRQ then CMSG_RRQ os sConf (length ?p) w (delivered_session ?p s)
      else CMSG_WRQ os sConf (length ?p) w (delivered_session ?p s)) = Inr (- 1, w1, ?e)"
    using assms(5) unfolding RRQ_eq WRQ_eq request_then_go [OF pre] by (auto simp: FileIsAllowed_iff may_download_def)
  then have pp: "ParsePacket os sConf (nat (LastRecvPktSize (delivered_session ?p s))) w (delivered_session ?p s) = Inr (- 1, w1, ?e)"
    using ParsePacket_request [OF inv refl len op] by simp
  have pos: "0 < LastRecvPktSize (delivered_session ?p s)" by (simp add: request_def)
  have held: "packet_held ?e" using pr s1 by (auto simp: packet_held_def packet_ready_def)
  have q: "sqs_inv (sqs w1)" using rep fr by simp
  have "os_socket os (calls w) \<noteq> - 1" using assms(2) by (simp add: network_up_def)
  then obtain w2 where w2: "disk w2 = disk w1" "sends w2 = sends w1"
    and go: "serve os sConf (?p # ps) w s = Inr (SMSG_Error os w2 ?e)"
    using serve_step [OF deliver_eq [OF inv len] pos pp q held, of ps] s1 by auto
  obtain w' s' where er: "SMSG_Error os w2 ?e = (w', s')" by fastforce
  with w2 fr nf s1 go show ?thesis
    by (auto simp: SMSG_Error_eq reported_def Let_def simp del: serve.simps)
qed

text \<open>
  C30. A session with an error ends at its next turn without a packet: exactly one error packet goes
  out, with the text and the code of the error (an upload that grew too large is reported as
  undefined), and no file changes.
\<close>

theorem error_ends_session:
  assumes "Error s \<noteq> TFTP_ERR_NO_ERROR" and "CommSocket s \<noteq> INVALID_SOCKET_2" and "LastRecvPktSize s \<le> 0"
  shows "\<exists>w' s' n. thread_loop os sConf (Suc fuel) w s = Inr (Some (w', s')) \<and> disk w' = disk w \<and>
    sends w' = sends w @ [(CommSocket s, error_packet (err_value (reported (Error s))) (error_text (Error s)), n)]"
proof -
  have "report_packet os w s = Inr (w\<lparr>calls := calls w + 3\<rparr>)"
    using assms(3) by (cases "LastRecvPacket s") (simp_all add: report_packet_def AWS_SQS_OnPacketArrived_def Let_def)
  then show ?thesis using assms by (simp add: thread_turn_def SMSG_Error_eq Let_def)
qed

text \<open>
  C31. An error packet of the client ends its session with the error it carries, which the server sends
  back (\<^verbatim>\<open>DISK_FULL\<close> under the code 0), except for the code 255: that is the value of
  \<^verbatim>\<open>TFTP_ERR_NO_ERROR\<close>, and the session goes on as if nothing had been said. A code the enumeration
  cannot hold is undefined behaviour.
\<close>

theorem client_error_received:
  fixes os :: os and sConf :: AppConfig and code :: u16 and ps :: "bytes list"
  assumes "session_inv s" and "Error s = TFTP_ERR_NO_ERROR" and "TransferDone s \<noteq> 1" and "CommSocket s \<noteq> - 1"
    and "int (length msg) + 1 \<le> BlockSize s" and "NUL \<notin> set msg" and "sqs_inv (sqs w)"
  defines "run \<equiv> serve os sConf (error_packet code msg # ps) w s"
    and "told \<equiv> \<lambda>e. (delivered_session (error_packet code msg) s)\<lparr>Error := e\<rparr>"
  shows "err_value (err_of code) = code \<and>
    (if 0xFF < code then run = Inl EnumOutOfRange
     else \<exists>w1. disk w1 = disk w \<and> sends w1 = sends w \<and>
       (if code = 0xFF then run = serve os sConf ps w1 (told TFTP_ERR_NO_ERROR)
        else \<exists>w2 s2 n. run = Inr (w2, s2) \<and> Error s2 = reported (err_of code) \<and> disk w2 = disk w \<and>
          sends w2 = sends w @ [(CommSocket s, error_packet (err_value (reported (err_of code))) (error_text (err_of code)), n)]))"
proof -
  let ?p = "error_packet code msg" let ?d = "delivered_session (error_packet code msg) s"
  have lenp: "length ?p = 5 + length msg" by (simp add: error_packet_def)
  have len: "int (length ?p) \<le> BlockSize s + 4" using assms(5) by (simp add: lenp)
  have u16: "packet_u16 ?d 0 = Inr (op_value OP_ERROR)" "packet_u16 ?d 2 = Inr code"
    using delivered_u16 [OF assms(1), of "msg @ [NUL]" OP_ERROR code] assms(5) by (simp_all add: error_packet_def)
  obtain buf where buf: "LastRecvPacket ?d = Some buf" "take (length ?p) buf = ?p" "int (length buf) = BlockSize s + 6"
    using delivered_buf [OF assms(1) len] by blast
  have "buf = ?p @ drop (length ?p) buf" using buf(2) append_take_drop_id by metis
  then have "buf = packet4 OP_ERROR code @ msg @ NUL # drop (length ?p) buf" by (simp add: error_packet_def)
  then have "strlen_at buf 4 = Inr (length msg)"
    using cstr_split [OF assms(6), of "packet4 OP_ERROR code"] by (metis length_packet4)
  then have str: "\<exists>t. packet_str ?d 4 = Inr t" using buf(1) by (simp add: packet_str_def packet_buf_def)
  have pp: "ParsePacket os sConf (nat (LastRecvPktSize ?d)) w ?d =
      (if 0xFF < code then Inl EnumOutOfRange else Inr (0, w, told (err_of code)))"
    using u16 str lenp
    by (auto simp: told_def ParsePacket_def EnsureHaveEnoughPacketBytes_def CMSG_ERROR_def Let_def err_cast_eq not_less nat_add_distrib)
  note dl = deliver_eq [OF assms(1) len]
  have pos: "0 < LastRecvPktSize ?d" by (simp add: lenp)
  have bad: "run = Inl EnumOutOfRange" if "0xFF < code"
    using that pp pos unfolding run_def by (simp add: dl handle_packet_def)
  have held: "packet_held (told (err_of code))" using buf len by (simp add: packet_held_def told_def)
  have good: "\<exists>w1. disk w1 = disk w \<and> sends w1 = sends w \<and>
      run = (if err_of code \<noteq> TFTP_ERR_NO_ERROR then Inr (SMSG_Error os w1 (told (err_of code)))
        else serve os sConf ps (next_call w1) (told (err_of code)))" if c: "\<not> 0xFF < code"
  proof -
    have "ParsePacket os sConf (nat (LastRecvPktSize ?d)) w ?d = Inr (0, w, told (err_of code))" using pp c by simp
    from serve_step [OF dl pos this assms(7) held, of ps, folded run_def] obtain w1 where
      w1: "disk w1 = disk w" "sends w1 = sends w"
      and r: "run = (if CommSocket (told (err_of code)) = - 1 then Inr (w1, told (err_of code))
         else if Error (told (err_of code)) \<noteq> TFTP_ERR_NO_ERROR then Inr (SMSG_Error os w1 (told (err_of code)))
         else if TransferDone (told (err_of code)) = 1 then Inr (w1, told (err_of code))
         else serve os sConf ps (next_call w1) (told (err_of code)))" by metis
    have "CommSocket (told e) = CommSocket s" "Error (told e) = e" "TransferDone (told e) = TransferDone s" for e
      by (simp_all add: told_def)
    with r w1 assms(3,4) show ?thesis by (intro exI [of _ w1]) (simp del: serve.simps)
  qed
  show ?thesis
  proof (cases "0xFF < code")
    case False
    from good [OF this] obtain w1 where w1: "disk w1 = disk w" "sends w1 = sends w"
      and r: "run = (if err_of code \<noteq> TFTP_ERR_NO_ERROR then Inr (SMSG_Error os w1 (told (err_of code)))
        else serve os sConf ps (next_call w1) (told (err_of code)))" by blast
    show ?thesis
    proof (cases "code = 0xFF")
      case True
      then have "err_of code = TFTP_ERR_NO_ERROR" by (simp add: err_of_NO_ERROR)
      with r True have "run = serve os sConf ps (next_call w1) (told TFTP_ERR_NO_ERROR)" by simp
      then have "\<exists>w1. disk w1 = disk w \<and> sends w1 = sends w \<and> run = serve os sConf ps w1 (told TFTP_ERR_NO_ERROR)"
        using w1 by (intro exI [of _ "next_call w1"]) simp
      with True show ?thesis by simp
    next
      case other: False
      obtain w2 s2 where er: "SMSG_Error os w1 (told (err_of code)) = (w2, s2)" by fastforce
      then have "Error s2 = reported (err_of code) \<and> disk w2 = disk w \<and> (\<exists>n. sends w2 = sends w @
          [(CommSocket s, error_packet (err_value (reported (err_of code))) (error_text (err_of code)), n)])"
        using w1 by (auto simp: SMSG_Error_eq told_def Let_def)
      moreover have "run = Inr (w2, s2)" using r er other err_of_NO_ERROR [of code] by simp
      ultimately have "\<exists>w2 s2 n. run = Inr (w2, s2) \<and> Error s2 = reported (err_of code) \<and> disk w2 = disk w \<and>
          sends w2 = sends w @ [(CommSocket s, error_packet (err_value (reported (err_of code))) (error_text (err_of code)), n)]"
        by blast
      with False other w1 show ?thesis by auto
    qed
  qed (use bad in simp)
qed

text \<open>
  C32. An error packet is the one packet whose text is not terminated by the server: when no NUL
  follows in the receive buffer, its length is measured beyond the end of the buffer.
\<close>

theorem error_text_over_read:
  assumes "LastRecvPacket s = Some buf" and "packet_u16 s 0 = Inr (op_value OP_ERROR)" and "packet_u16 s 2 = Inr code"
    and "5 \<le> sz" and "NUL \<notin> set (drop 4 buf)"
  shows "ParsePacket os sConf sz w s = Inl OutOfBounds"
proof -
  have "packet_str s 4 = Inl OutOfBounds"
    using assms(1,5) by (simp add: packet_str_def packet_buf_def strlen_at_def strlen_from_Inl)
  then show ?thesis using assms(2-4) by (simp add: ParsePacket_def EnsureHaveEnoughPacketBytes_def CMSG_ERROR_def Let_def)
qed

section \<open>The server\<close>

text \<open>
  C21. In every state of the server, whatever the interleaving of its threads, the list has one entry
  more than sessions may run in parallel, and a session exists exactly as long as its thread. When no
  two threads are between the read and the write of a \<^verbatim>\<open>TransferCounter++\<close> or \<^verbatim>\<open>--\<close> at the same time, as a
  lock would see to, the counter is the number of sessions between their increment and their
  decrement; C22 shows what happens otherwise.
\<close>

theorem counter_counts_sessions:
  assumes "reachable sConf (server_start sConf garbage) sv"
  shows "length (ActiveClientList sv) = nat (ParallelTransfersMax sConf + 1) \<and> dom (clients sv) = dom (pcs sv) \<and>
    (serial_reachable sConf (server_start sConf garbage) sv \<longrightarrow>
      TransferCounter sv = int (card {i. \<exists>pc. pcs sv i = Some pc \<and> counts pc}))"
  using reachable_inv [OF assms server_start_inv]
    serial_reachable_inv [OF _ counter_inv_start(1) server_start_inv counter_inv_start(2)]
  by (auto simp: server_inv_def counter_inv_def in_loop_def)

text \<open>
  C25. Creating the socket of a session ends after at most a hundred attempts, whatever the system
  answers, as long as the end of the port range is not 0. On success exactly the session's new
  socket stays open; on failure none does, and the number the session keeps is not an open socket.
\<close>

theorem socket_creation:
  assumes "CommPortEnd sConf \<noteq> 0" and "ServerSocket s = INVALID_SOCKET_2" and "fresh_fds os w"
    and "- 1 \<notin> set (open_fds w)"
  shows "\<exists>err w' s'. CreateCommUDPSocket os sConf w s = Inr (err, w', s') \<and>
    calls w' \<le> calls w + 400 \<and> disk w' = disk w \<and> sends w' = sends w \<and>
    (if err = 0 then open_fds w' = open_fds w @ [CommSocket s'] \<and> CommSocket s' \<noteq> INVALID_SOCKET_2
     else open_fds w' = open_fds w \<and> CommSocket s' \<notin> set (open_fds w'))"
proof -
  obtain err w' s' where run: "CreateCommUDPSocket os sConf w s = Inr (err, w', s')"
    using CreateComm_defined [OF assms(1)] by blast
  from CreateComm_result [OF run assms(2-4)] CreateComm_frame [OF run] run show ?thesis
    by (auto simp: comm_result_def comm_frame_simps)
qed

text \<open>
  C26. The ports of a well-formed range are handed out one after the other and start again at the
  bottom; the number the next socket gets stays in the range, so the configured end is never used.
\<close>

theorem ports_cycle_in_range:
  assumes "port_config_ok sConf" and "port_in_range sConf (NextPortToUse w)"
  shows "next_port sConf (NextPortToUse w) = Inr (if uint (NextPortToUse w) + 1 < CommPortEnd sConf
      then NextPortToUse w + 1 else word_of_int (CommPortStart sConf)) \<and>
    (\<exists>err w' s'. CreateCommUDPSocket os sConf w s = Inr (err, w', s') \<and>
      CommPortStart sConf \<le> uint (NextPortToUse w') \<and> uint (NextPortToUse w') < CommPortEnd sConf)"
proof -
  have "CommPortEnd sConf \<noteq> 0" using assms(1) by (simp add: port_config_ok_def)
  from CreateComm_defined [OF this] obtain err w' s' where run: "CreateCommUDPSocket os sConf w s = Inr (err, w', s')" by blast
  from CreateComm_ports [OF run assms] have "port_in_range sConf (NextPortToUse w')" .
  with run next_port_cycle [OF assms] show ?thesis by (auto simp: port_in_range_def)
qed

section \<open>Encodings, settings and reports\<close>

text \<open>
  C33. The base64 encoder of the platform layer, which writes its text in place and then replaces
  the padding, can be decoded, and reports the length it needs.
\<close>

theorem base64_round_trip:
  assumes "length d \<le> 15 * 1024 * 1024"
  shows "\<exists>t. base64_encode True d = (Some t, 4 * ((length d + 2) div 3)) \<and> b64_decode t = Some d"
  using base64_encode_text [OF assms] b64_decode_text by blast

text \<open>
  C38. The module that reports packets never remembers a session: after any report the list is
  empty, so closing a session finds nothing to free, an answer of the queue finds no message to
  count, and ending the module frees nothing.
\<close>

theorem reports_forget_sessions:
  assumes "sqs_inv st" and "\<forall>buf. packet = Some buf \<longrightarrow> nat nbytes \<le> length buf"
  shows "\<exists>st'. AWS_SQS_OnPacketArrived m1 m2 guid packet nbytes fd client st = Inr st' \<and> sqs_inv st' \<and>
    Sessions st' = [] \<and> AWS_SQS_SessionClose fd st' = Inr st' \<and> SQS_MessageCallback p ok st' = Inr (0, st') \<and>
    sqs_heap (AWS_SQS_Destroy st') = sqs_heap st'"
  using OnPacketArrived_inv [OF assms, of m1 m2 guid fd client]
  by (auto simp: SessionClose_inv MessageCallback_inv Destroy_inv) (auto simp: sqs_inv_def)

section \<open>The properties of this theory applied\<close>

definition failed_session :: session where
  "failed_session = download_session\<lparr>Error := TFTP_ERR_DISK_FULL\<rparr>"

lemma session_keeps_its_promises_witness:
  "\<exists>w' s'. turn_reached (thread_turn quiet_os small_conf) start_world download_session True w' s' \<and> LastRecvPktSize s' = - 1 \<and>
    session_inv s' \<and> file_ok small_conf s' \<and> (\<forall>n. disk w' n \<noteq> disk start_world n \<longrightarrow> may_upload small_conf n)"
proof -
  have t: "thread_turn quiet_os small_conf start_world download_session =
      on_silence quiet_os small_conf (start_world\<lparr>calls := calls start_world + 4\<rparr>) (download_session\<lparr>LastRecvPktSize := - 1\<rparr>)"
    by (rule thread_turn_silent) (simp_all add: download_session_def quiet_os_def)
  obtain w' s' where "thread_turn quiet_os small_conf start_world download_session = Inr (True, w', s')"
    "LastRecvPktSize s' = - 1"
    unfolding t by (simp add: on_silence_def sys_tick_def Let_def download_session_def quiet_os_def getTick_def
        c_int_def int_ok_def INT_MIN_def INT_MAX_def)
  then have r: "turn_reached (thread_turn quiet_os small_conf) start_world download_session True w' s'"
    by (rule_tac turn_reached.step [OF turn_reached.start])
  from session_keeps_its_promises [OF r quiet_os_ok(4,3) session_examples(1,3)] r show ?thesis
    using \<open>LastRecvPktSize s' = - 1\<close> by blast
qed

lemma packet_effects_witness:
  "\<exists>w' s'. ParsePacket quiet_os small_conf 10 start_world write_request = Inr (0, w', s') \<and> session_inv s' \<and>
    file_ok small_conf s' \<and> (\<forall>n. disk w' n \<noteq> disk start_world n \<longrightarrow> may_upload small_conf n)"
proof -
  obtain w' s' where run: "ParsePacket quiet_os small_conf 10 start_world write_request = Inr (0, w', s')"
    using write_request(8) by blast
  from packet_effects [OF run write_request(1,2) quiet_os_ok(4,3)] run show ?thesis by blast
qed

text \<open>The request of the example in the buffer of a session whose file is open.\<close>

definition some_packet :: bytes where "some_packet = some_head @ encode_options some_opts"

lemma some_packet:
  "length some_packet < 518" "packet_ready some_packet (opened some_packet)"
  "\<forall>opt \<in> set some_opts. option_fits some_packet opt"
  "negotiate small_conf (open_size start_world (opened some_packet)) some_opts (start_params (opened some_packet)) =
     \<lparr>p_blksize = 40, p_timeout = 1, p_window = 2, p_reply = some_reply\<rparr>"
proof -
  show len: "length some_packet < 518"
    by (simp add: some_packet_def encode_options_def encode_option_def some_opts_def)
  then show "packet_ready some_packet (opened some_packet)" by simp
  show "\<forall>opt \<in> set some_opts. option_fits some_packet opt" by code_simp
  have "start_params (opened some_packet) = start_params new_session"
    by (simp add: start_params_def opened_def holding_def)
  then show "negotiate small_conf (open_size start_world (opened some_packet)) some_opts (start_params (opened some_packet)) =
     \<lparr>p_blksize = 40, p_timeout = 1, p_window = 2, p_reply = some_reply\<rparr>"
    by (simp add: some_negotiation)
qed

lemma options_refine_negotiation_witness:
  "\<exists>w' s' r. ParseOptions quiet_os small_conf (length some_packet) 10 start_world (opened some_packet) =
      Inr (0, w', s', length some_packet) \<and> BlockSize s' = 40 \<and> WindowSize s' = 2 \<and>
    sends w' = [(- 1, htons_bytes (op_value OP_OACK) @ some_reply, r)]"
  using options_refine_negotiation [OF quiet_os_ok(5) some_packet(2) some_packet_def some_packet(3) some_packet(4) [symmetric]]
  by (auto simp: room_for_def some_reply_def opened_def holding_def)

lemma window_holds_file_blocks_witness:
  "\<exists>w' s' new. SMSG_DATA quiet_os small_conf 0 start_world download_session = Inr (w', s') \<and> sends w' = new \<and>
    (\<forall>x \<in> set new. fst (snd x) = data_packet 1 (file_block 512 some_file 0))"
proof -
  have "ranges_ok download_session" "int_ok (data_offset download_session)"
    using session_examples(1)
    by (simp_all add: session_inv_def data_offset_def download_session_def int_ok_def INT_MIN_def INT_MAX_def)
  then obtain w' s' where run: "SMSG_DATA quiet_os small_conf 0 start_world download_session = Inr (w', s')"
    using SMSG_DATA_defined by blast
  from window_holds_file_blocks [OF run session_examples(1)] run show ?thesis
    by (simp add: download_session_def f_content_def)
qed

definition receiving_world :: world where "receiving_world = start_world\<lparr>disk := [''b'' \<mapsto> []]\<rparr>"

lemma gap_is_stored_witness:
  "let p = replicate 512 (CHR ''x''); s = (upload_session 1)\<lparr>hFile := Some \<lparr>f_name = ''b'', f_pos = 0\<rparr>\<rparr>
   in \<exists>w' s'. CMSG__DATA quiet_os small_conf 516 receiving_world (delivered_session (data_packet 7 p) s) = Inr (0, w', s') \<and>
     sends w' = [(5, ack_packet 1, 4)] \<and> disk w' ''b'' = Some p"
proof -
  let ?p = "replicate 512 (CHR ''x'')" let ?s = "(upload_session 1)\<lparr>hFile := Some \<lparr>f_name = ''b'', f_pos = 0\<rparr>\<rparr>"
  have "receiving 512 ''b'' 5 0 [] 0 receiving_world ?s"
    by (simp add: receiving_def receiving_world_def upload_session_def session_inv_defs tftp_consts)
  moreover have "count_ok small_conf (0 + (4 + length ?p))"
    by (simp add: count_ok_def small_conf_def default_config_def int_ok_def INT_MIN_def INT_MAX_def)
  ultimately show ?thesis unfolding Let_def
    using gap_is_stored [OF quiet_os_ok(6,2), of 512 "''b''" 5 0 "[]" 0 receiving_world ?s ?p 7 small_conf]
    by (auto simp: receiving_def receiving_world_def)
qed

lemma ack_block_closed_form_witness:
  "\<exists>w' s'. SMSG_ACK_Block quiet_os 0 start_world ((upload_session 3)\<lparr>BlockNrInWindowReceived := Some [512, 512, 0]\<rparr>) = Inr (w', s') \<and>
    FirstBlockInWindow s' = 2 \<and> BlockNrInWindowReceived s' = Some [0, 0, 0] \<and> sends w' = [(5, ack_packet 2, 4)]"
proof -
  let ?s = "(upload_session 3)\<lparr>BlockNrInWindowReceived := Some [512, 512, 0]\<rparr>"
  have "session_inv ?s" by (simp add: upload_session_def session_inv_defs tftp_consts)
  moreover have "(word_of_int (FirstBlockInWindow ?s + received_prefix (the (BlockNrInWindowReceived ?s))) :: u16) = 2"
    by (simp add: upload_session_def received_prefix_def)
  moreover have "os_send quiet_os (calls start_world) (CommSocket ?s) (ack_packet 2) = 4" by (simp add: quiet_os_def)
  moreover have "SelectedOperation ?s = TFTP_OP_CLIENT_TO_SERVER" "CommSocket ?s = 5" "WindowSize ?s = 3"
    by (simp_all add: upload_session_def)
  ultimately show ?thesis
    using ack_block_closed_form [of ?s 2 quiet_os start_world 0] by (auto simp: numeral_3_eq_3)
qed

lemma options_stay_in_bounds_witness:
  "\<exists>w' s' n. ParseOptions quiet_os small_conf (length some_packet) 10 start_world (opened some_packet) = Inr (0, w', s', n) \<and>
    8 \<le> BlockSize s' \<and> WindowSize s' \<le> 65535 \<and> buffer_ok s'"
proof -
  from ParseOptions_refines [OF quiet_os_ok(5) some_packet(2) some_packet_def some_packet(3) some_packet(4) [symmetric]]
  obtain w' s' n where run: "ParseOptions quiet_os small_conf (length some_packet) 10 start_world (opened some_packet) = Inr (0, w', s', n)"
    by (auto simp: room_for_def some_reply_def)
  have "session_inv (opened some_packet)"
    using some_packet(1) by (simp add: opened_def holding_def session_inv_defs tftp_consts)
  from options_stay_in_bounds [OF run this quiet_os_ok(4,3)] run show ?thesis by blast
qed

lemma denied_request_witness:
  "\<exists>w' s' n. serve quiet_os small_conf [request OP_RRQ ''c'' ''octet'' []] start_world new_session = Inr (w', s') \<and>
    Error s' = TFTP_ERR_FILE_NOT_FOUND \<and> sends w' = [(0, error_packet 1 (error_text TFTP_ERR_FILE_NOT_FOUND), n)]"
proof -
  have "request_ok OP_RRQ ''c'' ''octet'' [] new_session" "\<not> may_download small_conf ''c''"
    unfolding request_ok_def new_session_simps by code_simp+
  moreover have "CommPortEnd small_conf \<noteq> 0" by (simp add: small_conf_def default_config_def)
  moreover have "os_socket quiet_os (calls start_world) = 0" by (simp add: quiet_os_def start_world_def)
  ultimately show ?thesis
    using denied_request [OF new_session_ok(1) quiet_os_ok(7), of small_conf OP_RRQ "''c''" "''octet''" "[]" start_world "[]"]
      start_world_sqs by (auto simp del: serve.simps)
qed

lemma error_ends_session_witness:
  "\<exists>w' s' n. thread_loop quiet_os small_conf 1 start_world failed_session = Inr (Some (w', s')) \<and>
    sends w' = [(5, error_packet 0 ''ERROR: Uploading files is not supported on this TFTP Server'', n)]"
  using error_ends_session [of failed_session quiet_os small_conf 0 start_world]
  by (auto simp: failed_session_def download_session_def tftp_consts reported_def error_text_def simp del: thread_loop.simps)

lemma client_error_received_witness:
  "\<exists>w2 s2 n. serve quiet_os small_conf [error_packet 3 ''full'', ack_packet 3] start_world download_session = Inr (w2, s2) \<and>
    Error s2 = TFTP_ERR_UNDEFINED \<and> sends w2 = [(5, error_packet 0 (error_text TFTP_ERR_DISK_FULL), n)]"
proof -
  have "err_of 3 = TFTP_ERR_DISK_FULL" by (simp add: err_of_def)
  moreover have "CommSocket download_session = 5" "Error download_session = TFTP_ERR_NO_ERROR" "BlockSize download_session = 512"
    "TransferDone download_session = 0" by (simp_all add: download_session_def)
  ultimately show ?thesis
    using client_error_received [OF session_examples(1), where msg = "''full''" and code = "3" and os = quiet_os
      and sConf = small_conf and ps = "[ack_packet 3]" and w = start_world] start_world_sqs
    by (auto simp: reported_def simp del: serve.simps)
qed

lemma error_text_over_read_witness:
  "ParsePacket quiet_os small_conf 516 start_world
     (download_session\<lparr>LastRecvPacket := Some (packet4 OP_ERROR 0 @ replicate 514 (CHR ''x''))\<rparr>) = Inl OutOfBounds"
proof (rule error_text_over_read)
  show "NUL \<notin> set (drop 4 (packet4 OP_ERROR 0 @ replicate 514 (CHR ''x'')))" by simp
qed (simp_all add: packet_u16_def packet_buf_def packet4_def nth_append htons_bytes_def ntohs_bytes_def)

lemma counter_counts_sessions_witness:
  "\<exists>sv. statements [0, 0, 0, 0] (spawned some_peer 1 (server_start small_conf (\<lambda>_. None))) = Inr sv \<and>
    TransferCounter sv = 1 \<and> card {i. \<exists>pc. pcs sv i = Some pc \<and> counts pc} = 1 \<and> length (ActiveClientList sv) = 2"
proof -
  let ?sv0 = "server_start small_conf (\<lambda>_. None)" and ?sv1 = "spawned some_peer 1 (server_start small_conf (\<lambda>_. None))"
  have pm: "ParallelTransfersMax small_conf = 1" by (simp add: small_conf_def default_config_def)
  have p: "pcs ?sv1 0 = Some Started" by (rule spawned_start) (simp_all add: server_start_def)
  obtain sv where run: "statements [0, 0, 0, 0] ?sv1 = Inr sv" and tc: "TransferCounter sv = 1"
    using statements_enter [OF p] pm
    by (simp add: server_start_def spawn_def Let_def int_ok_def INT_MIN_def INT_MAX_def del: statements.simps)
  have acc: "accepts small_conf ?sv0 1 (op_value OP_RRQ) some_peer = Inr True"
    using pm by (intro accepts_RRQ) (simp_all add: server_start_def)
  have "one_update ?sv1" by (simp add: one_update_def spawn_def server_start_def Let_def)
  then have "serial_reachable small_conf ?sv0 ?sv1"
    using server_step.accept [OF acc] by (auto simp: serial_reachable_def)
  moreover have "dom (pcs ?sv1) \<subseteq> {0}" by (auto simp: spawn_def server_start_def Let_def split: if_splits)
  from serial_alone [OF run this] have "serial_reachable small_conf ?sv1 sv" .
  ultimately have s: "serial_reachable small_conf ?sv0 sv" unfolding serial_reachable_def by (rule rtranclp_trans)
  have "reachable small_conf ?sv0 sv"
    using reach_accept [OF reachable_refl acc] reach_statements [OF run] reachable_trans by simp
  from counter_counts_sessions [OF this] s tc run pm show ?thesis by (simp del: statements.simps)
qed

lemma socket_creation_witness:
  "\<exists>err w' s'. CreateCommUDPSocket quiet_os small_conf start_world new_session = Inr (err, w', s') \<and>
    calls w' \<le> 400 \<and> (if err = 0 then open_fds w' = [CommSocket s'] else open_fds w' = [])"
proof -
  have "CommPortEnd small_conf \<noteq> 0" "fresh_fds quiet_os start_world" "open_fds start_world = []" "calls start_world = 0"
    by (simp_all add: small_conf_def default_config_def fresh_fds_def start_world_def)
  moreover have "ServerSocket new_session = INVALID_SOCKET_2" by (simp add: INVALID_SOCKET_2_def)
  ultimately obtain err w' s' where "CreateCommUDPSocket quiet_os small_conf start_world new_session = Inr (err, w', s')"
    "calls w' \<le> 400" "if err = 0 then open_fds w' = [CommSocket s'] \<and> CommSocket s' \<noteq> INVALID_SOCKET_2
      else open_fds w' = [] \<and> CommSocket s' \<notin> set (open_fds w')"
    using socket_creation [of small_conf new_session quiet_os start_world] by auto
  then show ?thesis by (intro exI [of _ err] exI [of _ w'] exI [of _ s']) (simp split: if_splits)
qed

lemma ports_cycle_in_range_witness: "next_port small_conf 49152 = Inr 49153"
  using ports_cycle_in_range [of small_conf start_world quiet_os new_session]
  by (simp add: small_conf_def default_config_def port_config_ok_def port_in_range_def start_world_def)

lemma base64_round_trip_witness: "\<exists>t. base64_encode True ''TFTP'' = (Some t, 8) \<and> b64_decode t = Some ''TFTP''"
  using base64_round_trip [of "''TFTP''"] by simp

lemma reports_forget_sessions_witness:
  "\<exists>st'. AWS_SQS_OnPacketArrived True True ''guid'' (Some ''TFTP'') 4 5 (Some ''10.0.0.1'') sqs_start = Inr st' \<and>
    Sessions st' = [] \<and> AWS_SQS_SessionClose 5 st' = Inr st'"
  using reports_forget_sessions [OF sqs_inv_start, of "Some ''TFTP''" 4] by simp blast

end
